theory Spec2Isabelle
  imports Complex_Main "HOL-Library.Char_ord" "HOL-Library.List_Lexorder"
    "HOL-Library.Multiset"
begin

section \<open>Python values used by the pipeline\<close>

text \<open>
  The pipeline of \<^verbatim>\<open>breast_mri_prep_func.py\<close> threads one dictionary, the
  series dictionary, through every stage. Its keys are role names (plus the key
  \<^verbatim>\<open>info\<close>); each value is itself a dictionary used as a struct. A role is
  modelled as a record with one optional field per dictionary key: \<open>None\<close> is
  "key absent", \<open>Some v\<close> is "key present with value v". The series dictionary is
  an association list, so that Python's insertion order is kept.
\<close>

datatype error =
    KeyError string
  | IndexError
  | TypeError
  | ValueError
  | FileNotFoundError string
  | ImageFileError
  | ToolError

text \<open>A value that is either the empty list \<^verbatim>\<open>[]\<close> or a proper object.\<close>

datatype 'a or_empty = EmptyList | Item 'a

text \<open>The value stored under \<^verbatim>\<open>reg\<close>: a JSON boolean or a string.\<close>

datatype regval = RegBool bool | RegStr string

fun truthy_reg :: "regval \<Rightarrow> bool" where
  "truthy_reg (RegBool b) = b"
| "truthy_reg (RegStr s) = (s \<noteq> [])"

text \<open>
  The two header attributes the matcher reads. \<open>None\<close> is "the attribute is
  missing" (\<^verbatim>\<open>hasattr\<close> is false). The acquisition time is kept as the string
  of the DICOM header; Python's \<^verbatim>\<open>float\<close> is a parameter \<open>py_float\<close> of the
  matcher, with \<open>None\<close> for a string that \<^verbatim>\<open>float\<close> rejects.
\<close>

record hdr =
  ImagesInAcquisition :: "int option"
  AcquisitionTime :: "string option"

record role =
  or_key :: "string list list option"
  not_key :: "string list option"
  reg :: "regval option"
  reg_target :: "string option"
  reg_option :: "(string \<times> int) list option"
  reg_moving :: "string option"
  reg_last :: "bool option"
  interp :: "string option"
  bias :: "bool option"
  dicoms :: "string list option"
  hdrs :: "hdr or_empty option"
  series :: "string option"
  dirs :: "string or_empty option"
  filename :: "string option"
  filename_reg :: "string option"
  transform :: "string option"
  filename_masked :: "string option"
  filename_bias :: "string option"
  filename_norm :: "string option"
  dcmdir :: "string option"
  idno :: "string option"

type_synonym ser_dict = "(string \<times> role) list"

definition empty_role :: role where
  "empty_role = \<lparr> or_key = None, not_key = None, reg = None, reg_target = None,
     reg_option = None, reg_moving = None, reg_last = None, interp = None, bias = None,
     dicoms = None, hdrs = None, series = None, dirs = None, filename = None,
     filename_reg = None, transform = None, filename_masked = None,
     filename_bias = None, filename_norm = None, dcmdir = None, idno = None \<rparr>"

text \<open>\<^verbatim>\<open>d[k]\<close>: the value, or \<^verbatim>\<open>KeyError\<close>.\<close>

definition getitem :: "ser_dict \<Rightarrow> string \<Rightarrow> error + role" where
  "getitem d k = (case map_of d k of None \<Rightarrow> Inl (KeyError k) | Some r \<Rightarrow> Inr r)"

text \<open>
  \<^verbatim>\<open>d[k].update({...})\<close> for a key that is present: the entry is changed in
  place and keeps its position.
\<close>

fun update_role :: "string \<Rightarrow> (role \<Rightarrow> role) \<Rightarrow> ser_dict \<Rightarrow> ser_dict" where
  "update_role k f [] = []"
| "update_role k f ((k', r) # d) =
     (if k' = k then (k', f r) # d else (k', r) # update_role k f d)"

text \<open>\<^verbatim>\<open>xs[i]\<close> for a non-negative index: the element, or \<^verbatim>\<open>IndexError\<close>.\<close>

definition nth_res :: "'a list \<Rightarrow> nat \<Rightarrow> error + 'a" where
  "nth_res xs i = (if i < length xs then Inr (xs ! i) else Inl IndexError)"

text \<open>\<^verbatim>\<open>enumerate(xs, k)\<close>.\<close>

definition enumerate_from :: "nat \<Rightarrow> 'a list \<Rightarrow> (nat \<times> 'a) list" where
  "enumerate_from k xs = zip [k ..< k + length xs] xs"

subsection \<open>Strings\<close>

text \<open>
  \<^verbatim>\<open>str.lower\<close> on ASCII letters, and the substring test \<^verbatim>\<open>p in s\<close>.
\<close>

definition lower_char :: "char \<Rightarrow> char" where
  "lower_char c = (let n = (of_char c :: nat) in
     if 65 \<le> n \<and> n \<le> 90 then char_of (n + 32) else c)"

definition lower :: "string \<Rightarrow> string" where
  "lower s = map lower_char s"

fun startswith :: "string \<Rightarrow> string \<Rightarrow> bool" where
  "startswith s [] = True"
| "startswith [] (p # ps) = False"
| "startswith (c # cs) (p # ps) = (c = p \<and> startswith cs ps)"

fun contains :: "string \<Rightarrow> string \<Rightarrow> bool" where
  "contains [] p = (p = [])"
| "contains (c # cs) p = (startswith (c # cs) p \<or> contains cs p)"

section \<open>Series matcher\<close>

text \<open>
  \<^verbatim>\<open>substr_list(strings, substrs, substrnot)\<close>: the indices of the series
  descriptions that match at least one AND-group and none of the NOT patterns.
  \<^verbatim>\<open>re.search(pattern, string)\<close> is the parameter \<open>re_search\<close>.
\<close>

definition substr_list ::
  "(string \<Rightarrow> string \<Rightarrow> bool) \<Rightarrow> string list \<Rightarrow> string list list \<Rightarrow> string list \<Rightarrow> nat list" where
  "substr_list re_search strings substrs substrnot =
     foldl (\<lambda>inds (ind, string).
        foldl (\<lambda>inds substrlist.
           if list_all (\<lambda>item. re_search item string) substrlist
              \<and> \<not> list_ex (\<lambda>item2. re_search item2 string) substrnot
              \<and> ind \<notin> set inds
           then inds @ [ind] else inds) inds substrs)
       [] (enumerate_from 0 strings)"

text \<open>
  One pass of the tie-break loop of \<^verbatim>\<open>filter_series\<close>. The state is the pair
  \<^verbatim>\<open>(keeper, number)\<close>; before the loop \<^verbatim>\<open>keeper\<close> is \<^verbatim>\<open>[]\<close>, which is no
  index (\<open>None\<close>, and indexing with it is a \<^verbatim>\<open>TypeError\<close>). The bare
  \<^verbatim>\<open>except\<close> around the comparison of the acquisition times leaves the state
  as it is when \<^verbatim>\<open>float\<close> raises.
\<close>

definition keeper_step ::
  "(string \<Rightarrow> real option) \<Rightarrow> hdr list \<Rightarrow> nat option \<times> nat option \<Rightarrow> nat \<times> nat
     \<Rightarrow> error + (nat option \<times> nat option)" where
  "keeper_step py_float hs st ni =
     (let n = fst ni; i = snd ni;
          st1 = (if n = 1 then (Some i, Some n) else st)
      in case nth_res hs i of Inl e \<Rightarrow> Inl e
         | Inr hi \<Rightarrow>
        (case ImagesInAcquisition hi of None \<Rightarrow> Inr st1
         | Some ci \<Rightarrow>
        (case fst st1 of None \<Rightarrow> Inl TypeError
         | Some k \<Rightarrow>
        (case nth_res hs k of Inl e \<Rightarrow> Inl e
         | Inr hk \<Rightarrow>
        (case ImagesInAcquisition hk of None \<Rightarrow> Inr st1
         | Some ck \<Rightarrow>
           if ci > ck then Inr (Some i, Some n)
           else if ci = ck then
             (case AcquisitionTime hi of None \<Rightarrow> Inr st1
              | Some ti \<Rightarrow>
             (case AcquisitionTime hk of None \<Rightarrow> Inr st1
              | Some tk \<Rightarrow>
             (case py_float ti of None \<Rightarrow> Inr st1
              | Some fi \<Rightarrow>
             (case py_float tk of None \<Rightarrow> Inr st1
              | Some fk \<Rightarrow>
                if fi > fk then Inr (Some i, Some n) else Inr st1))))
           else Inr st1)))))"

fun keeper_loop ::
  "(string \<Rightarrow> real option) \<Rightarrow> hdr list \<Rightarrow> nat option \<times> nat option \<Rightarrow> (nat \<times> nat) list
     \<Rightarrow> error + (nat option \<times> nat option)" where
  "keeper_loop py_float hs st [] = Inr st"
| "keeper_loop py_float hs st (ni # rest) =
     (case keeper_step py_float hs st ni of
        Inl e \<Rightarrow> Inl e
      | Inr st' \<Rightarrow> keeper_loop py_float hs st' rest)"

text \<open>
  The choice of the keeper among the matching indices \<open>inds\<close> (not empty): a
  single match is kept; otherwise the matches whose description contains
  "repeat" or "redo" replace the candidate list when there are any, and the
  tie-break loop runs over the candidates.
\<close>

definition choose_keeper ::
  "(string \<Rightarrow> real option) \<Rightarrow> hdr list \<Rightarrow> string list \<Rightarrow> nat list \<Rightarrow> error + nat option" where
  "choose_keeper py_float hs srs inds =
     (if length inds = 1 then Inr (Some (hd inds))
      else
        let redo_inds = filter (\<lambda>x. list_ex (\<lambda>item. contains (lower (srs ! x)) item)
                                  [''repeat'', ''redo'']) inds;
            inds' = (if redo_inds \<noteq> [] then redo_inds else inds)
        in case keeper_loop py_float hs (None, None) (enumerate_from 1 inds') of
             Inl e \<Rightarrow> Inl e
           | Inr st \<Rightarrow> Inr (fst st))"

text \<open>
  The body of the loop of \<^verbatim>\<open>filter_series\<close> for one role. The indices in
  \<open>inds\<close> come from \<open>substr_list\<close> and are below \<open>length srs\<close>; the lists
  \<open>dcms\<close>, \<open>hs\<close> and \<open>ds\<close> are indexed with the keeper and raise
  \<^verbatim>\<open>IndexError\<close> when they are shorter.
\<close>

definition filter_role ::
  "(string \<Rightarrow> string \<Rightarrow> bool) \<Rightarrow> (string \<Rightarrow> real option) \<Rightarrow>
   string list list \<Rightarrow> hdr list \<Rightarrow> string list \<Rightarrow> string list \<Rightarrow> role \<Rightarrow> error + role" where
  "filter_role re_search py_float dcms hs srs ds r =
     (case or_key r of None \<Rightarrow> Inr r
      | Some substrs \<Rightarrow>
     (case not_key r of None \<Rightarrow> Inr r
      | Some substrnot \<Rightarrow>
        let inds = substr_list re_search srs substrs substrnot in
        if inds \<noteq> [] then
          (case choose_keeper py_float hs srs inds of Inl e \<Rightarrow> Inl e
           | Inr None \<Rightarrow> Inl TypeError
           | Inr (Some k) \<Rightarrow>
          (case nth_res srs k of Inl e \<Rightarrow> Inl e
           | Inr s \<Rightarrow>
          (case nth_res dcms k of Inl e \<Rightarrow> Inl e
           | Inr dc \<Rightarrow>
          (case nth_res hs k of Inl e \<Rightarrow> Inl e
           | Inr h \<Rightarrow>
          (case nth_res ds k of Inl e \<Rightarrow> Inl e
           | Inr dr \<Rightarrow>
             Inr (r\<lparr>dicoms := Some dc, hdrs := Some (Item h),
                    series := Some s, dirs := Some (Item dr)\<rparr>))))))
        else
          Inr (r\<lparr>dicoms := Some [], hdrs := Some EmptyList,
                 series := Some ''None'', dirs := Some EmptyList\<rparr>)))"

text \<open>
  \<^verbatim>\<open>filter_series\<close>: every role of the series dictionary in insertion order;
  the first exception ends the loop.
\<close>

fun filter_series ::
  "(string \<Rightarrow> string \<Rightarrow> bool) \<Rightarrow> (string \<Rightarrow> real option) \<Rightarrow>
   string list list \<Rightarrow> hdr list \<Rightarrow> string list \<Rightarrow> string list \<Rightarrow> ser_dict \<Rightarrow> error + ser_dict" where
  "filter_series re_search py_float dcms hs srs ds [] = Inr []"
| "filter_series re_search py_float dcms hs srs ds ((k, r) # d) =
     (case filter_role re_search py_float dcms hs srs ds r of
        Inl e \<Rightarrow> Inl e
      | Inr r' \<Rightarrow>
       (case filter_series re_search py_float dcms hs srs ds d of
          Inl e \<Rightarrow> Inl e
        | Inr d' \<Rightarrow> Inr ((k, r') # d')))"

section \<open>Files, logging and external tools\<close>

text \<open>
  Image data: numpy's float64 values are idealised as real numbers, with one
  extra value \<open>NaN\<close> for the results that are not finite numbers (the mean of
  an empty selection, a division by zero); numpy returns those with a warning
  and does not raise. A volume is the flat list of its voxels; a 4-D image
  gives for every voxel position the list of its values along the last axis.
\<close>

datatype f64 = Fin real | NaN

text \<open>
  A 3-D array is the flat list of its voxels. A 4-D array is the length of its
  last axis and, for every voxel position, the list of the values along that
  axis.
\<close>

datatype ndarray = Array3 "f64 list" | Array4 nat "f64 list list"

datatype content = Nifti ndarray | Bytes string

type_synonym filesystem = "string \<rightharpoonup> content"

text \<open>
  The external collaborators, one constructor per command the pipeline runs,
  with the inputs the source sets on the interface object.
\<close>

datatype call =
    Registration string string string string "(string \<times> int) list option"
      \<comment> \<open>routine, moving image, fixed image, output prefix, option\<close>
  | ApplyTransforms string string string string "string list" "bool list"
      \<comment> \<open>input image, reference image, output image, interpolation, transforms, invert flags\<close>
  | ApplyMask string string string
      \<comment> \<open>input file, mask file, output file\<close>
  | BatchMask string string bool
      \<comment> \<open>case directory, suffix, overwrite\<close>
  | Dcm2niix "string list" string string
      \<comment> \<open>source names, output file name, output directory\<close>
  | N4BiasFieldCorrection string string string string
      \<comment> \<open>input image, mask image, output image, bias image\<close>
  | Merge "string list" string
      \<comment> \<open>input files, merged file\<close>
  | PythonWrite string "string list" string
      \<comment> \<open>a file written by the pipeline itself: operation, input files, output file\<close>

datatype event = Info string | Warning string | Ran call

text \<open>
  A tool takes the call and the files and returns whether it ended normally
  (\<open>True\<close>) or raised, and the files it leaves behind.
\<close>

type_synonym tool = "call \<Rightarrow> filesystem \<Rightarrow> bool \<times> filesystem"

record world =
  files :: filesystem
  trace :: "event list"

fun is_registration :: "event \<Rightarrow> bool" where
  "is_registration (Ran (Registration routine moving fixed prefix opt)) = True"
| "is_registration e = False"

definition isfile :: "world \<Rightarrow> string \<Rightarrow> bool" where
  "isfile w p = (files w p \<noteq> None)"

definition log_info :: "string \<Rightarrow> world \<Rightarrow> world" where
  "log_info msg w = w\<lparr>trace := trace w @ [Info msg]\<rparr>"

definition log_warning :: "string \<Rightarrow> world \<Rightarrow> world" where
  "log_warning msg w = w\<lparr>trace := trace w @ [Warning msg]\<rparr>"

text \<open>
  \<^verbatim>\<open>interface.run()\<close>: the call is recorded, the tool changes the files, and an
  exception of the tool is the error \<open>ToolError\<close>.
\<close>

definition run_tool :: "tool \<Rightarrow> call \<Rightarrow> world \<Rightarrow> (error + unit) \<times> world" where
  "run_tool t c w =
     (let res = t c (files w);
          w' = w\<lparr>files := snd res, trace := trace w @ [Ran c]\<rparr>
      in if fst res then (Inr (), w') else (Inl ToolError, w'))"

subsection \<open>Paths\<close>

text \<open>
  \<^verbatim>\<open>os.path.basename\<close>, \<^verbatim>\<open>os.path.dirname\<close> and \<^verbatim>\<open>os.path.join\<close> (two
  arguments) of \<^verbatim>\<open>posixpath\<close>; \<^verbatim>\<open>s.split(sep)[0]\<close>,
  \<^verbatim>\<open>s.rsplit(sep, 1)[0]\<close> and \<^verbatim>\<open>s.endswith(suffix)\<close> for a separator that
  is not empty.
\<close>

definition basename :: "string \<Rightarrow> string" where
  "basename p = rev (takeWhile (\<lambda>c. c \<noteq> CHR ''/'') (rev p))"

definition dirname :: "string \<Rightarrow> string" where
  "dirname p =
     (let head = rev (dropWhile (\<lambda>c. c \<noteq> CHR ''/'') (rev p))
      in if head \<noteq> [] \<and> \<not> list_all (\<lambda>c. c = CHR ''/'') head
         then rev (dropWhile (\<lambda>c. c = CHR ''/'') (rev head))
         else head)"

definition path_join :: "string \<Rightarrow> string \<Rightarrow> string" where
  "path_join a b =
     (if startswith b ''/'' then b
      else if a = [] \<or> startswith (rev a) ''/'' then a @ b
      else a @ ''/'' @ b)"

fun split_head :: "string \<Rightarrow> string \<Rightarrow> string" where
  "split_head [] sep = []"
| "split_head (c # cs) sep =
     (if startswith (c # cs) sep then [] else c # split_head cs sep)"

fun after_first :: "string \<Rightarrow> string \<Rightarrow> string option" where
  "after_first [] sep = None"
| "after_first (c # cs) sep =
     (if startswith (c # cs) sep then Some (drop (length sep) (c # cs))
      else after_first cs sep)"

definition rsplit_head :: "string \<Rightarrow> string \<Rightarrow> string" where
  "rsplit_head s sep =
     (case after_first (rev s) (rev sep) of None \<Rightarrow> s | Some t \<Rightarrow> rev t)"

definition endswith :: "string \<Rightarrow> string \<Rightarrow> bool" where
  "endswith s suffix = startswith (rev s) (rev suffix)"

section \<open>Role configuration\<close>

text \<open>
  \<^verbatim>\<open>make_serdict\<close>, after the parameter file has been read and parsed into
  \<open>sdict\<close>: a \<^verbatim>\<open>reg_target\<close> that is the string \<^verbatim>\<open>atlas\<close> is replaced by the
  path of the atlas, and the entry \<^verbatim>\<open>info\<close> is stored (replacing an entry of
  that name, or as the last entry).
\<close>

definition info_role :: "string \<Rightarrow> role" where
  "info_role dcm_dir =
     empty_role\<lparr>filename := Some ''None'', dcmdir := Some dcm_dir,
                idno := Some (basename (dirname dcm_dir))\<rparr>"

definition setitem :: "string \<Rightarrow> role \<Rightarrow> ser_dict \<Rightarrow> ser_dict" where
  "setitem k r d =
     (if k \<in> set (map fst d) then update_role k (\<lambda>_. r) d else d @ [(k, r)])"

definition make_serdict :: "string \<Rightarrow> string \<Rightarrow> ser_dict \<Rightarrow> ser_dict" where
  "make_serdict reg_atlas dcm_dir sdict =
     setitem ''info'' (info_role dcm_dir)
       (map (\<lambda>(key, r). (key, if reg_target r = Some ''atlas''
                               then r\<lparr>reg_target := Some reg_atlas\<rparr> else r)) sdict)"

section \<open>Registration orchestrator\<close>

text \<open>
  The six registration routines (\<^verbatim>\<open>trans_reg\<close>, \<^verbatim>\<open>rigid_reg\<close>,
  \<^verbatim>\<open>affine_reg\<close>, \<^verbatim>\<open>fast_affine_reg\<close>, \<^verbatim>\<open>diffeo_reg\<close>,
  \<^verbatim>\<open>fast_diffeo_reg\<close>) have the same control flow and differ in the
  parameters they give to the registration engine; \<open>routine\<close> names the one
  that runs. The transform file is computed unless it exists and \<open>repeat\<close> is
  false; its path is returned in both cases.
\<close>

definition registration ::
  "string \<Rightarrow> tool \<Rightarrow> string \<Rightarrow> string \<Rightarrow> string \<Rightarrow> (string \<times> int) list option \<Rightarrow> bool \<Rightarrow> world
     \<Rightarrow> (error + string) \<times> world" where
  "registration routine t moving_nii template_nii work_dir option repeat w =
     (let moving_name = split_head (basename moving_nii) ''.'';
          template_name = split_head (basename template_nii) ''.'';
          outprefix = path_join work_dir (moving_name @ ''_2_'' @ template_name @ ''_'');
          trnsfm = outprefix @ ''Composite.h5''
      in if \<not> isfile w trnsfm \<or> repeat then
           (case run_tool t (Registration routine moving_nii template_nii outprefix option)
                   (log_info (''- Registering image '' @ moving_nii @ '' to '' @ template_nii) w) of
              (Inl e, w') \<Rightarrow> (Inl e, w')
            | (Inr _, w') \<Rightarrow> (Inr trnsfm, w'))
         else (Inr trnsfm, log_info (''- Warp file already exists at '' @ trnsfm) w))"

text \<open>
  \<^verbatim>\<open>ants_apply\<close>: one pass of its loop for the moving image \<open>mvng\<close>, and the
  loop over a list of moving images. The warped image is written unless it
  exists and \<open>repeat\<close> is false. A moving image given as a string is wrapped
  in a list of one, and a list of one output is unwrapped again, which is one
  pass of the loop (\<open>ants_apply_str\<close>).
\<close>

definition ants_apply_pass ::
  "tool \<Rightarrow> string \<Rightarrow> string \<Rightarrow> string \<Rightarrow> string list \<Rightarrow> string \<Rightarrow> bool \<Rightarrow> bool \<Rightarrow> world
     \<Rightarrow> (error + string) \<times> world" where
  "ants_apply_pass t mvng reference_nii interpolation transform_list work_dir invert_bool repeat w =
     (let output_nii = path_join work_dir (split_head (basename mvng) ''.nii'' @ ''_w.nii.gz'')
      in if \<not> isfile w output_nii \<or> repeat then
           (case run_tool t
                   (ApplyTransforms mvng reference_nii output_nii interpolation transform_list
                      (replicate (length transform_list) invert_bool))
                   (log_info (''- Creating warped image '' @ output_nii) w) of
              (Inl e, w') \<Rightarrow> (Inl e, w')
            | (Inr _, w') \<Rightarrow> (Inr output_nii, w'))
         else (Inr output_nii,
               log_info (''- Transformed image already exists at '' @ output_nii) w))"

fun ants_apply ::
  "tool \<Rightarrow> string list \<Rightarrow> string \<Rightarrow> string \<Rightarrow> string list \<Rightarrow> string \<Rightarrow> bool \<Rightarrow> bool \<Rightarrow> world
     \<Rightarrow> (error + string list) \<times> world" where
  "ants_apply t [] reference_nii interpolation transform_list work_dir invert_bool repeat w =
     (Inr [], w)"
| "ants_apply t (mvng # rest) reference_nii interpolation transform_list work_dir invert_bool repeat w =
     (case ants_apply_pass t mvng reference_nii interpolation transform_list work_dir
             invert_bool repeat w of
        (Inl e, w') \<Rightarrow> (Inl e, w')
      | (Inr out, w') \<Rightarrow>
         (case ants_apply t rest reference_nii interpolation transform_list work_dir
                 invert_bool repeat w' of
            (Inl e, w'') \<Rightarrow> (Inl e, w'')
          | (Inr outs, w'') \<Rightarrow> (Inr (out # outs), w'')))"

definition ants_apply_str ::
  "tool \<Rightarrow> string \<Rightarrow> string \<Rightarrow> string \<Rightarrow> string \<Rightarrow> string \<Rightarrow> bool \<Rightarrow> bool \<Rightarrow> world
     \<Rightarrow> (error + string) \<times> world" where
  "ants_apply_str t moving_nii reference_nii interpolation trnsfm work_dir invert_bool repeat w =
     ants_apply_pass t moving_nii reference_nii interpolation [trnsfm] work_dir
       invert_bool repeat w"

text \<open>
  The order in which \<^verbatim>\<open>reg_series\<close> goes through the roles. The first loop
  runs over \<^verbatim>\<open>sorted(ser_dict.keys())\<close> and puts a key in front when its
  \<^verbatim>\<open>reg_target\<close> is the string \<^verbatim>\<open>atlas\<close>, at the end otherwise; the second
  loop moves the keys flagged \<^verbatim>\<open>reg_last\<close> to the end. The roles are not
  changed by these loops, so each key is carried with its role here.
\<close>

definition atlas_first :: "ser_dict \<Rightarrow> ser_dict" where
  "atlas_first d =
     foldl (\<lambda>sorted_keys kr.
              if reg_target (snd kr) = Some ''atlas'' then kr # sorted_keys
              else sorted_keys @ [kr])
       [] (sort_key fst d)"

definition is_reg_last :: "role \<Rightarrow> bool" where
  "is_reg_last r = (reg_last r = Some True)"

definition reg_order_items :: "ser_dict \<Rightarrow> ser_dict" where
  "reg_order_items d =
     (let sorted_keys = atlas_first d;
          last_keys = foldl (\<lambda>l kr. if is_reg_last (snd kr) then l @ [kr] else l) [] sorted_keys;
          tmp = foldl (\<lambda>l kr. if is_reg_last (snd kr) then l else l @ [kr]) [] sorted_keys
      in foldl (\<lambda>l kr. l @ [kr]) tmp last_keys)"

definition reg_order :: "ser_dict \<Rightarrow> string list" where
  "reg_order d = map fst (reg_order_items d)"

text \<open>
  The first loop over the ordered keys: a role without \<^verbatim>\<open>filename\<close> gets the
  file name \<^verbatim>\<open>None\<close>; a role whose file name is \<^verbatim>\<open>None\<close>, or that has no
  \<^verbatim>\<open>reg\<close> entry or a false one, gets its file name as registered file name,
  the transform \<^verbatim>\<open>None\<close> and \<^verbatim>\<open>reg = False\<close>.
\<close>

definition init_role :: "role \<Rightarrow> role" where
  "init_role r =
     (let r1 = (if filename r = None then r\<lparr>filename := Some ''None''\<rparr> else r)
      in if filename r1 = Some ''None'' \<or> reg r1 = None
            \<or> \<not> (case reg r1 of Some v \<Rightarrow> truthy_reg v | None \<Rightarrow> False)
         then r1\<lparr>filename_reg := filename r1, transform := Some ''None'',
                 reg := Some (RegBool False)\<rparr>
         else r1)"

text \<open>
  The target of a role in a geometric mode: the \<^verbatim>\<open>reg_target\<close> itself when
  it is a file, the registered file of the role of that name otherwise.
\<close>

definition resolve_template :: "world \<Rightarrow> ser_dict \<Rightarrow> role \<Rightarrow> error + string" where
  "resolve_template w d r =
     (case reg_target r of None \<Rightarrow> Inl (KeyError ''reg_target'')
      | Some target \<Rightarrow>
          if isfile w target then Inr target
          else (case getitem d target of Inl e \<Rightarrow> Inl e
                | Inr tr \<Rightarrow>
                   (case filename_reg tr of None \<Rightarrow> Inl (KeyError ''filename_reg'')
                    | Some f \<Rightarrow> Inr f)))"

text \<open>
  The body of one of the six loops over the geometric modes, for the role
  \<open>ser\<close>. \<open>mode\<close> is the string the \<^verbatim>\<open>reg\<close> entry is compared with,
  \<open>routine\<close> the registration routine of that loop, and \<open>guarded\<close> says
  whether the loop has the test that the moving image and the target exist
  (the loops for \<^verbatim>\<open>affine\<close>, \<^verbatim>\<open>fast_affine\<close>, \<^verbatim>\<open>diffeo\<close> and
  \<^verbatim>\<open>fast_diffeo\<close> have it, the loops for \<^verbatim>\<open>trans\<close> and \<^verbatim>\<open>rigid\<close> do not).
  \<^verbatim>\<open>reg_series\<close> passes its \<^verbatim>\<open>repeat\<close> as sixth positional argument of
  \<^verbatim>\<open>ants_apply\<close>, which is \<^verbatim>\<open>invert_bool\<close>; the \<^verbatim>\<open>repeat\<close> of
  \<^verbatim>\<open>ants_apply\<close> keeps its default, false.
\<close>

definition geom_role ::
  "tool \<Rightarrow> string \<Rightarrow> string \<Rightarrow> bool \<Rightarrow> bool \<Rightarrow> string \<Rightarrow> string \<Rightarrow> ser_dict \<Rightarrow> world
     \<Rightarrow> (error + ser_dict) \<times> world" where
  "geom_role t mode routine guarded repeat work_dir ser d w =
     (case getitem d ser of Inl e \<Rightarrow> (Inl e, w)
      | Inr r \<Rightarrow>
     (case reg r of None \<Rightarrow> (Inl (KeyError ''reg''), w)
      | Some rv \<Rightarrow>
        if rv \<noteq> RegStr mode then (Inr d, w)
        else
     (case resolve_template w d r of Inl e \<Rightarrow> (Inl e, w)
      | Inr template \<Rightarrow>
     (case filename r of None \<Rightarrow> (Inl (KeyError ''filename''), w)
      | Some movinga \<Rightarrow>
        let movingr = (case reg_moving r of Some m \<Rightarrow> m | None \<Rightarrow> movinga) in
        if guarded \<and> \<not> (isfile w movingr \<and> isfile w template) then (Inr d, w)
        else
     (case registration routine t movingr template work_dir (reg_option r) repeat w of
        (Inl e, w1) \<Rightarrow> (Inl e, w1)
      | (Inr transforms, w1) \<Rightarrow>
        let interpolation = (case interp r of Some i \<Rightarrow> i | None \<Rightarrow> ''Linear'') in
     (case ants_apply_str t movinga template interpolation transforms work_dir repeat False w1 of
        (Inl e, w2) \<Rightarrow> (Inl e, w2)
      | (Inr niiout, w2) \<Rightarrow>
          (Inr (update_role ser
                  (\<lambda>r. r\<lparr>filename_reg := Some niiout, transform := Some transforms\<rparr>) d),
           w2)))))))"

fun geom_loop ::
  "tool \<Rightarrow> string \<Rightarrow> string \<Rightarrow> bool \<Rightarrow> bool \<Rightarrow> string \<Rightarrow> string list \<Rightarrow> ser_dict \<Rightarrow> world
     \<Rightarrow> (error + ser_dict) \<times> world" where
  "geom_loop t mode routine guarded repeat work_dir [] d w = (Inr d, w)"
| "geom_loop t mode routine guarded repeat work_dir (ser # sers) d w =
     (case geom_role t mode routine guarded repeat work_dir ser d w of
        (Inl e, w') \<Rightarrow> (Inl e, w')
      | (Inr d', w') \<Rightarrow> geom_loop t mode routine guarded repeat work_dir sers d' w')"

text \<open>The six loops in the order of the source: mode, routine, guarded.\<close>

definition geom_stages :: "(string \<times> string \<times> bool) list" where
  "geom_stages =
     [(''trans'', ''trans_reg'', False),
      (''rigid'', ''rigid_reg'', False),
      (''affine'', ''affine_reg'', True),
      (''fast_affine'', ''fast_affine_reg'', True),
      (''diffeo'', ''diffeo_reg'', True),
      (''fast_diffeo'', ''fast_diffeo_reg'', True)]"

fun geom_all ::
  "tool \<Rightarrow> (string \<times> string \<times> bool) list \<Rightarrow> bool \<Rightarrow> string \<Rightarrow> string list \<Rightarrow> ser_dict \<Rightarrow> world
     \<Rightarrow> (error + ser_dict) \<times> world" where
  "geom_all t [] repeat work_dir sorted_keys d w = (Inr d, w)"
| "geom_all t (stage # stages) repeat work_dir sorted_keys d w =
     (case geom_loop t (fst stage) (fst (snd stage)) (snd (snd stage)) repeat work_dir
             sorted_keys d w of
        (Inl e, w') \<Rightarrow> (Inl e, w')
      | (Inr d', w') \<Rightarrow> geom_all t stages repeat work_dir sorted_keys d' w')"

text \<open>
  The last loop: a role whose \<^verbatim>\<open>reg\<close> entry is one of the keys takes the
  transform and the registered file of that role and applies them to its own
  file. The statements are in a \<^verbatim>\<open>try\<close>; any exception is logged and the
  role stays as it was.
\<close>

definition borrow_try ::
  "tool \<Rightarrow> bool \<Rightarrow> string \<Rightarrow> string \<Rightarrow> string \<Rightarrow> role \<Rightarrow> ser_dict \<Rightarrow> world
     \<Rightarrow> (error + ser_dict) \<times> world" where
  "borrow_try t repeat work_dir ser source r d w =
     (case getitem d source of Inl e \<Rightarrow> (Inl e, w)
      | Inr sr \<Rightarrow>
     (case transform sr of None \<Rightarrow> (Inl (KeyError ''transform''), w)
      | Some transforms \<Rightarrow>
     (case filename_reg sr of None \<Rightarrow> (Inl (KeyError ''filename_reg''), w)
      | Some template \<Rightarrow>
     (case filename r of None \<Rightarrow> (Inl (KeyError ''filename''), w)
      | Some moving \<Rightarrow>
        let interpolation = (case interp r of Some i \<Rightarrow> i | None \<Rightarrow> ''Linear'') in
     (case ants_apply_str t moving template interpolation transforms work_dir repeat False w of
        (Inl e, w1) \<Rightarrow> (Inl e, w1)
      | (Inr niiout, w1) \<Rightarrow>
          (Inr (update_role ser
                  (\<lambda>r. r\<lparr>filename_reg := Some niiout, transform := Some transforms\<rparr>) d),
           w1))))))"

definition borrow_role ::
  "tool \<Rightarrow> bool \<Rightarrow> string \<Rightarrow> string list \<Rightarrow> string \<Rightarrow> ser_dict \<Rightarrow> world
     \<Rightarrow> (error + ser_dict) \<times> world" where
  "borrow_role t repeat work_dir sorted_keys ser d w =
     (case getitem d ser of Inl e \<Rightarrow> (Inl e, w)
      | Inr r \<Rightarrow>
     (case reg r of None \<Rightarrow> (Inl (KeyError ''reg''), w)
      | Some (RegBool b) \<Rightarrow> (Inr d, w)
      | Some (RegStr source) \<Rightarrow>
          if source \<notin> set sorted_keys then (Inr d, w)
          else
            (case borrow_try t repeat work_dir ser source r d w of
               (Inl e, w1) \<Rightarrow>
                 (Inr d, log_info
                    (''- Error attempting to apply existing transform to seies '' @ ser) w1)
             | (Inr d', w1) \<Rightarrow> (Inr d', w1))))"

fun borrow_loop ::
  "tool \<Rightarrow> bool \<Rightarrow> string \<Rightarrow> string list \<Rightarrow> string list \<Rightarrow> ser_dict \<Rightarrow> world
     \<Rightarrow> (error + ser_dict) \<times> world" where
  "borrow_loop t repeat work_dir sorted_keys [] d w = (Inr d, w)"
| "borrow_loop t repeat work_dir sorted_keys (ser # sers) d w =
     (case borrow_role t repeat work_dir sorted_keys ser d w of
        (Inl e, w') \<Rightarrow> (Inl e, w')
      | (Inr d', w') \<Rightarrow> borrow_loop t repeat work_dir sorted_keys sers d' w')"

definition init_loop :: "string list \<Rightarrow> ser_dict \<Rightarrow> ser_dict" where
  "init_loop sorted_keys d = foldl (\<lambda>d ser. update_role ser init_role d) d sorted_keys"

definition reg_series :: "tool \<Rightarrow> ser_dict \<Rightarrow> bool \<Rightarrow> world \<Rightarrow> (error + ser_dict) \<times> world" where
  "reg_series t ser_dict repeat w0 =
     (let w = log_info ''REGISTERING IMAGES:'' w0 in
      case getitem ser_dict ''info'' of Inl e \<Rightarrow> (Inl e, w)
      | Inr info \<Rightarrow>
     (case dcmdir info of None \<Rightarrow> (Inl (KeyError ''dcmdir''), w)
      | Some dcm_dir \<Rightarrow>
        let sorted_keys = reg_order ser_dict;
            d0 = init_loop sorted_keys ser_dict;
            work_dir = dirname dcm_dir
        in case geom_all t geom_stages repeat work_dir sorted_keys d0 w of
             (Inl e, w1) \<Rightarrow> (Inl e, w1)
           | (Inr d1, w1) \<Rightarrow> borrow_loop t repeat work_dir sorted_keys sorted_keys d1 w1))"

section \<open>Array computations\<close>

text \<open>
  Exact arithmetic on the idealised floats: \<open>f_sub\<close>, \<open>f_div\<close>,
  \<open>np_mean\<close> and \<open>np_std\<close> below compute in the real numbers, without
  the rounding that float64 applies after every operation. Their results are
  numpy's up to rounding, and exactly numpy's where no operation rounds (small
  integers, for instance). An operation with a \<open>NaN\<close> operand gives \<open>NaN\<close>,
  and so does a division by zero (numpy gives nan for 0/0 and an infinity
  otherwise, with a warning; the computations below never use the result of
  such a division again, so the two are not told apart). \<^verbatim>\<open>x != 0\<close> is
  true for nan.
\<close>

fun f_sub :: "f64 \<Rightarrow> f64 \<Rightarrow> f64" where
  "f_sub (Fin a) (Fin b) = Fin (a - b)"
| "f_sub x y = NaN"

fun f_div :: "f64 \<Rightarrow> f64 \<Rightarrow> f64" where
  "f_div (Fin a) (Fin b) = (if b = 0 then NaN else Fin (a / b))"
| "f_div x y = NaN"

fun nonzero :: "f64 \<Rightarrow> bool" where
  "nonzero (Fin x) = (x \<noteq> 0)"
| "nonzero NaN = True"

text \<open>The finite values of a list, when all its values are finite.\<close>

fun finite_values :: "f64 list \<Rightarrow> real list option" where
  "finite_values [] = Some []"
| "finite_values (Fin x # xs) = map_option ((#) x) (finite_values xs)"
| "finite_values (NaN # xs) = None"

definition mean_of :: "real list \<Rightarrow> real" where
  "mean_of rs = sum_list rs / real (length rs)"

definition variance_of :: "real list \<Rightarrow> real" where
  "variance_of rs = mean_of (map (\<lambda>x. (x - mean_of rs)\<^sup>2) rs)"

text \<open>
  \<^verbatim>\<open>np.mean\<close> and \<^verbatim>\<open>np.std\<close> (the population standard deviation) of a flat
  selection; both are nan for an empty selection.
\<close>

definition np_mean :: "f64 list \<Rightarrow> f64" where
  "np_mean xs =
     (case finite_values xs of None \<Rightarrow> NaN
      | Some rs \<Rightarrow> if rs = [] then NaN else Fin (mean_of rs))"

definition np_std :: "f64 list \<Rightarrow> f64" where
  "np_std xs =
     (case finite_values xs of None \<Rightarrow> NaN
      | Some rs \<Rightarrow> if rs = [] then NaN else Fin (sqrt (variance_of rs)))"

text \<open>
  The normalisation of \<^verbatim>\<open>norm_niis\<close>:
  \<^verbatim>\<open>nzi = np.nonzero(img); mean = np.mean(img[nzi]); std = np.std(img[nzi]);
  img = np.where(img != 0., (img - mean) / std, 0.)\<close>.
\<close>

definition normalize_voxel :: "f64 \<Rightarrow> f64 \<Rightarrow> f64 \<Rightarrow> f64" where
  "normalize_voxel mean std x = (if nonzero x then f_div (f_sub x mean) std else Fin 0)"

definition normalize :: "f64 list \<Rightarrow> f64 list" where
  "normalize img =
     (let nz = filter nonzero img; mean = np_mean nz; std = np_std nz
      in map (normalize_voxel mean std) img)"

fun normalize_nd :: "ndarray \<Rightarrow> ndarray" where
  "normalize_nd (Array3 img) = Array3 (normalize img)"
| "normalize_nd (Array4 n rows) =
     (let nz = filter nonzero (concat rows); mean = np_mean nz; std = np_std nz
      in Array4 n (map (map (normalize_voxel mean std)) rows))"

text \<open>
  The same normalisation over any arithmetic: \<^verbatim>\<open>np.mean\<close>, \<^verbatim>\<open>np.std\<close>,
  the subtraction and the division are parameters, so that what is proved for
  every \<open>ops\<close> holds for the rounding operations of float64 too. \<open>normalize\<close>
  is the instance with the exact operations.
\<close>

record float_ops =
  op_mean :: "f64 list \<Rightarrow> f64"
  op_std :: "f64 list \<Rightarrow> f64"
  op_sub :: "f64 \<Rightarrow> f64 \<Rightarrow> f64"
  op_div :: "f64 \<Rightarrow> f64 \<Rightarrow> f64"

definition normalize_with :: "float_ops \<Rightarrow> f64 list \<Rightarrow> f64 list" where
  "normalize_with ops img =
     (let nz = filter nonzero img; mean = op_mean ops nz; std = op_std ops nz
      in map (\<lambda>x. if nonzero x then op_div ops (op_sub ops x mean) std else Fin 0) img)"

definition exact_ops :: float_ops where
  "exact_ops = \<lparr>op_mean = np_mean, op_std = np_std, op_sub = f_sub, op_div = f_div\<rparr>"

text \<open>
  The array part of \<^verbatim>\<open>split_dwi\<close>. \<open>bvals\<close> is the list of numbers read
  from the bvals file, \<open>None\<close> when there is no such file. The result is
  \<open>None\<close> for an image that is not 4-D (nothing is saved), and otherwise the
  pair of the arrays that the function saves as DWI file and as B0 file.
  An integer index beyond the last axis and a boolean mask of another length
  than the last axis raise \<^verbatim>\<open>IndexError\<close>; \<^verbatim>\<open>np.max\<close> of no values and
  \<^verbatim>\<open>list.remove\<close> of a missing element raise \<^verbatim>\<open>ValueError\<close>.
\<close>

definition take_along :: "nat list \<Rightarrow> f64 list list \<Rightarrow> f64 list list" where
  "take_along inds rows = map (\<lambda>v. map (\<lambda>i. v ! i) inds) rows"

text \<open>\<^verbatim>\<open>np.argmax\<close>: the first nan if there is one, the first maximum otherwise.\<close>

definition argmax :: "f64 list \<Rightarrow> nat" where
  "argmax xs =
     (case finite_values xs of
        None \<Rightarrow> length (takeWhile (\<lambda>x. x \<noteq> NaN) xs)
      | Some rs \<Rightarrow> length (takeWhile (\<lambda>r. r \<noteq> Max (set rs)) rs))"

definition split_dwi_images ::
  "ndarray \<Rightarrow> real list option \<Rightarrow> error + (f64 list \<times> f64 list) option" where
  "split_dwi_images img bvals =
     (case img of
        Array3 v \<Rightarrow> Inr None
      | Array4 n rows \<Rightarrow>
         (case bvals of
            Some bv \<Rightarrow>
              let b0_inds = filter (\<lambda>i. bv ! i = 0) [0 ..< length bv];
                  dwi_max_inds = filter (\<lambda>i. bv ! i = Max (set bv)) [0 ..< length bv]
              in if \<not> list_all (\<lambda>i. i < n) b0_inds then Inl IndexError
                 else if bv = [] then Inl ValueError
                 else if length bv \<noteq> n then Inl IndexError
                 else Inr (Some (map np_mean (take_along dwi_max_inds rows),
                                 map np_mean (take_along b0_inds rows)))
          | None \<Rightarrow>
              let max_ind = argmax (map (\<lambda>t. np_mean (map (\<lambda>v. v ! t) rows)) [0 ..< n])
              in if \<not> max_ind < n then Inl IndexError
                 else if max_ind \<notin> set [0, 1, 2, 3] then Inl ValueError
                 else if \<not> hd (remove1 max_ind [0, 1, 2, 3]) < n then Inl IndexError
                 else Inr (Some (map (\<lambda>v. v ! hd (remove1 max_ind [0, 1, 2, 3])) rows,
                                 map (\<lambda>v. v ! max_ind) rows))))"

section \<open>The other stages\<close>

text \<open>
  A loop \<^verbatim>\<open>for srs in ser_dict\<close> whose body changes the entries in place:
  the keys are those of the dictionary when the loop starts, and the first
  exception ends the loop.
\<close>

fun for_roles ::
  "(string \<Rightarrow> ser_dict \<Rightarrow> world \<Rightarrow> (error + ser_dict) \<times> world) \<Rightarrow> string list \<Rightarrow> ser_dict \<Rightarrow> world
     \<Rightarrow> (error + ser_dict) \<times> world" where
  "for_roles body [] d w = (Inr d, w)"
| "for_roles body (srs # rest) d w =
     (case body srs d w of
        (Inl e, w') \<Rightarrow> (Inl e, w')
      | (Inr d', w') \<Rightarrow> for_roles body rest d' w')"

text \<open>
  The two entries of \<^verbatim>\<open>info\<close> that the stages read first:
  \<^verbatim>\<open>ser_dict["info"]["id"]\<close> and \<^verbatim>\<open>ser_dict["info"]["dcmdir"]\<close>.
\<close>

definition info_id :: "ser_dict \<Rightarrow> error + string" where
  "info_id d =
     (case getitem d ''info'' of Inl e \<Rightarrow> Inl e
      | Inr info \<Rightarrow> (case idno info of None \<Rightarrow> Inl (KeyError ''id'') | Some i \<Rightarrow> Inr i))"

definition info_dcmdir :: "ser_dict \<Rightarrow> error + string" where
  "info_dcmdir d =
     (case getitem d ''info'' of Inl e \<Rightarrow> Inl e
      | Inr info \<Rightarrow> (case dcmdir info of None \<Rightarrow> Inl (KeyError ''dcmdir'') | Some i \<Rightarrow> Inr i))"

subsection \<open>Series list\<close>

text \<open>
  The end of \<^verbatim>\<open>get_series\<close>: the series list is written unless the file
  exists and \<open>repeat\<close> is false. \<open>manifest\<close> is the text that the source
  builds from the headers. (The reading of the DICOM files before it writes
  nothing.)
\<close>

definition series_file_of :: "string \<Rightarrow> string" where
  "series_file_of dicom_dir =
     path_join (dirname dicom_dir) (basename (dirname dicom_dir) @ ''_series_list.txt'')"

definition get_series_save :: "string \<Rightarrow> string \<Rightarrow> bool \<Rightarrow> world \<Rightarrow> world" where
  "get_series_save dicom_dir manifest repeat w =
     (if \<not> isfile w (series_file_of dicom_dir) \<or> repeat
      then w\<lparr>files := (files w)(series_file_of dicom_dir \<mapsto> Bytes manifest)\<rparr>
      else w)"

subsection \<open>Conversion\<close>

text \<open>
  The body of the loop of \<^verbatim>\<open>dcm_list_2_niis\<close> for one role. What follows a
  fresh conversion and writes files (the renaming of the converted file, the
  split functions, the removal of extra files) is part of the call
  \<open>Dcm2niix\<close>; the entries that the split functions add to the series
  dictionary are not modelled.
\<close>

definition outfilepath_of :: "string \<Rightarrow> string \<Rightarrow> string \<Rightarrow> string" where
  "outfilepath_of idn dicom_dir ser =
     path_join (dirname dicom_dir) (idn @ ''_'' @ ser @ ''.nii.gz'')"

definition run_converter ::
  "tool \<Rightarrow> string \<Rightarrow> string \<Rightarrow> string \<Rightarrow> string list \<Rightarrow> world \<Rightarrow> (error + unit) \<times> world" where
  "run_converter t idn dicom_dir ser dcms w =
     run_tool t (Dcm2niix dcms (idn @ ''_'' @ ser) (dirname dicom_dir))
       (log_info (''- Converting '' @ idn @ ''_'' @ ser) w)"

definition series_is_none :: "role \<Rightarrow> error + bool" where
  "series_is_none r =
     (case series r of None \<Rightarrow> Inl (KeyError ''series'') | Some s \<Rightarrow> Inr (s = ''None''))"

definition convert_else ::
  "tool \<Rightarrow> string \<Rightarrow> string \<Rightarrow> bool \<Rightarrow> string \<Rightarrow> role \<Rightarrow> string list \<Rightarrow> world
     \<Rightarrow> (error + unit) \<times> world" where
  "convert_else t idn dicom_dir repeat ser r dcms w =
     (let out = outfilepath_of idn dicom_dir ser in
      case (if isfile w out \<and> repeat
            then run_converter t idn dicom_dir ser dcms
                   (log_info (''- '' @ idn @ ''_'' @ ser @
                      '' already exists, but repeat is True, so it will be overwritten'') w)
            else (Inr (), w)) of
        (Inl e, w1) \<Rightarrow> (Inl e, w1)
      | (Inr _, w1) \<Rightarrow>
          let w2 = (if isfile w1 out \<and> \<not> repeat
                    then log_info (''- '' @ idn @ ''_'' @ ser @
                           '' already exists and will not be overwritten'') w1
                    else w1)
          in if isfile w2 out then (Inr (), w2)
             else (case series_is_none r of Inl e \<Rightarrow> (Inl e, w2)
                   | Inr True \<Rightarrow>
                       (Inr (), log_info
                          (''- No existing file and no matching series found: '' @ ser) w2)
                   | Inr False \<Rightarrow> (Inr (), w2)))"

definition convert_role ::
  "tool \<Rightarrow> string \<Rightarrow> string \<Rightarrow> bool \<Rightarrow> string \<Rightarrow> ser_dict \<Rightarrow> world
     \<Rightarrow> (error + ser_dict) \<times> world" where
  "convert_role t idn dicom_dir repeat ser d w =
     (case getitem d ser of Inl e \<Rightarrow> (Inl e, w)
      | Inr r \<Rightarrow>
     (case dicoms r of None \<Rightarrow> (Inr d, w)
      | Some dcms \<Rightarrow>
        let out = outfilepath_of idn dicom_dir ser in
        case (if isfile w out then convert_else t idn dicom_dir repeat ser r dcms w
              else (case series_is_none r of Inl e \<Rightarrow> (Inl e, w)
                    | Inr False \<Rightarrow> run_converter t idn dicom_dir ser dcms w
                    | Inr True \<Rightarrow> convert_else t idn dicom_dir repeat ser r dcms w)) of
          (Inl e, w1) \<Rightarrow> (Inl e, w1)
        | (Inr _, w1) \<Rightarrow>
            if isfile w1 out
            then (Inr (update_role ser (\<lambda>r. r\<lparr>filename := Some out\<rparr>) d), w1)
            else (Inr d, w1)))"

definition dcm_list_2_niis ::
  "tool \<Rightarrow> ser_dict \<Rightarrow> string \<Rightarrow> bool \<Rightarrow> world \<Rightarrow> (error + ser_dict) \<times> world" where
  "dcm_list_2_niis t strs_dict dicom_dir repeat w =
     (case info_id strs_dict of Inl e \<Rightarrow> (Inl e, w)
      | Inr idn \<Rightarrow>
          for_roles (convert_role t idn dicom_dir repeat) (map fst strs_dict) strs_dict
            (log_info ''CONVERTING FILES:'' w))"

subsection \<open>Masking\<close>

text \<open>
  The body of the loop of \<^verbatim>\<open>breast_mask\<close> that applies the mask to one
  role, and the stage. The loop tests that the role has a registered file
  name and passes over the role when it has none. \<^verbatim>\<open>batch_mask\<close> returns
  the list of the masks it has written; that list is not empty exactly when
  the mask file exists after the call.
\<close>

definition ser_masked_of :: "string \<Rightarrow> string" where
  "ser_masked_of fr =
     (let ser_masked_stem = rsplit_head fr ''.nii''
      in if endswith ser_masked_stem ''_w'' then ser_masked_stem @ ''m.nii.gz''
         else ser_masked_stem @ ''_wm.nii.gz'')"

definition mask_role ::
  "tool \<Rightarrow> string \<Rightarrow> bool \<Rightarrow> string \<Rightarrow> ser_dict \<Rightarrow> world \<Rightarrow> (error + ser_dict) \<times> world" where
  "mask_role t mask_file repeat sers d w =
     (case getitem d sers of Inl e \<Rightarrow> (Inl e, w)
      | Inr r \<Rightarrow>
     (case filename_reg r of
        None \<Rightarrow> (Inr d, log_info (''- No filename_reg entry exists for series '' @ sers) w)
      | Some fr \<Rightarrow>
          if repeat \<or> (\<not> isfile w (ser_masked_of fr) \<and> isfile w fr) then
            (case run_tool t (ApplyMask fr mask_file (ser_masked_of fr))
                    (log_info (''- Masking '' @ fr) w) of
               (Inl e, w') \<Rightarrow> (Inl e, w')
             | (Inr _, w') \<Rightarrow>
                 (Inr (update_role sers
                         (\<lambda>r. r\<lparr>filename_masked := Some (ser_masked_of fr)\<rparr>) d), w'))
          else if isfile w (ser_masked_of fr) then
            (Inr (update_role sers (\<lambda>r. r\<lparr>filename_masked := Some (ser_masked_of fr)\<rparr>) d),
             log_info (''- Masked file already exists for '' @ sers @ '' at '' @
                       ser_masked_of fr) w)
          else if sers = ''info'' then (Inr d, w)
          else (Inr d, log_info (''- Skipping masking for '' @ sers @
                                 '' as file does not exist'') w)))"

definition cnn_mask ::
  "tool \<Rightarrow> string \<Rightarrow> string \<Rightarrow> bool \<Rightarrow> world \<Rightarrow> (error + unit) \<times> world" where
  "cnn_mask t mask_file dcm_dir repeat w =
     (if isfile w mask_file
      then (Inr (), log_info (''- Breast mask already exists at '' @ mask_file) w)
      else
        (case run_tool t (BatchMask (dirname dcm_dir) ''breast_mask'' repeat)
                (log_info (''- creating CNN-based breast mask at '' @ mask_file) w) of
           (Inl e, w1) \<Rightarrow> (Inl e, w1)
         | (Inr _, w1) \<Rightarrow>
             (Inr (), log_info
                ((if isfile w1 mask_file
                  then ''- Created combined brain mask at ''
                  else ''- Error creating combined brain mask at '') @ mask_file)
                w1)))"

definition breast_mask :: "tool \<Rightarrow> ser_dict \<Rightarrow> bool \<Rightarrow> world \<Rightarrow> (error + ser_dict) \<times> world" where
  "breast_mask t ser_dict repeat w0 =
     (case info_id ser_dict of Inl e \<Rightarrow> (Inl e, w0)
      | Inr idn \<Rightarrow>
     (case info_dcmdir ser_dict of Inl e \<Rightarrow> (Inl e, w0)
      | Inr dcm_dir \<Rightarrow>
        let w = log_info ''BREAST MASKING:'' w0;
            t1w = path_join (dirname dcm_dir) (idn @ ''_T1_w.nii.gz'');
            mask_file = path_join (dirname dcm_dir) (idn @ ''_breast_mask.nii.gz'')
        in if \<not> isfile w t1w then
             (Inr ser_dict,
              log_warning (''Did not find required image for breast masking: '' @ t1w) w)
           else
             case cnn_mask t mask_file dcm_dir repeat w of
               (Inl e, w1) \<Rightarrow> (Inl e, w1)
             | (Inr _, w1) \<Rightarrow>
                 if isfile w1 mask_file
                 then for_roles (mask_role t mask_file repeat) (map fst ser_dict) ser_dict w1
                 else (Inr ser_dict,
                       log_info (''- Combined mask file not found, expected location is: '' @
                                 mask_file) w1)))"

subsection \<open>Bias correction\<close>

text \<open>
  The body of the loop of \<^verbatim>\<open>bias_correct\<close> for one role, and the stage. The
  truncation of the intensities is a computation of the pipeline itself that
  writes the truncated image; it is the call \<open>PythonWrite\<close> here, since no
  property below depends on the values it writes.
\<close>

definition bias_role ::
  "tool \<Rightarrow> string \<Rightarrow> string \<Rightarrow> bool \<Rightarrow> string \<Rightarrow> ser_dict \<Rightarrow> world
     \<Rightarrow> (error + ser_dict) \<times> world" where
  "bias_role t idn dcm_dir repeat srs d w =
     (case getitem d srs of Inl e \<Rightarrow> (Inl e, w)
      | Inr r \<Rightarrow>
        if bias r \<noteq> Some True then (Inr d, w)
        else
          let f = path_join (dirname dcm_dir) (idn @ ''_'' @ srs @ ''_wm.nii.gz'');
              mask = path_join (dirname dcm_dir) (idn @ ''_combined_brain_mask.nii.gz'')
          in if \<not> isfile w f then
               (Inr d, log_info (''- Skipping bias correction for '' @ srs @
                                 '' as masked file does not exist.'') w)
             else if \<not> isfile w mask then
               (Inr d, log_info (''- Skipping bias correction for '' @ srs @
                                 '' as mask image does not exist.'') w)
             else
               let biasfile = rsplit_head f ''.nii'' @ ''_biasmap.nii.gz'';
                   truncated_img = rsplit_head f ''.nii'' @ ''t.nii.gz'';
                   biasimg = rsplit_head truncated_img ''.nii'' @ ''b.nii.gz''
               in case (if \<not> isfile w truncated_img \<or> repeat
                        then run_tool t (PythonWrite ''truncate'' [f, mask] truncated_img)
                               (log_info (''- Truncating image intensities for '' @ f) w)
                        else (Inr (), log_info (''- Truncated image already exists at '' @
                                                truncated_img) w)) of
                    (Inl e, w1) \<Rightarrow> (Inl e, w1)
                  | (Inr _, w1) \<Rightarrow>
                      if \<not> isfile w1 biasimg \<or> repeat then
                        (case run_tool t (N4BiasFieldCorrection truncated_img mask biasimg biasfile)
                                (log_info (''- Bias correcting '' @ truncated_img) w1) of
                           (Inl e, w2) \<Rightarrow> (Inl e, w2)
                         | (Inr _, w2) \<Rightarrow>
                             (Inr (update_role srs (\<lambda>r. r\<lparr>filename_bias := Some biasimg\<rparr>) d),
                              w2))
                      else
                        (Inr (update_role srs (\<lambda>r. r\<lparr>filename_bias := Some biasimg\<rparr>) d),
                         log_info (''- Bias corrected image already exists at '' @ biasimg) w1))"

definition bias_correct :: "tool \<Rightarrow> ser_dict \<Rightarrow> bool \<Rightarrow> world \<Rightarrow> (error + ser_dict) \<times> world" where
  "bias_correct t ser_dict repeat w0 =
     (let w = log_info ''BIAS CORRECTING IMAGES:'' w0 in
      case info_id ser_dict of Inl e \<Rightarrow> (Inl e, w)
      | Inr idn \<Rightarrow>
     (case info_dcmdir ser_dict of Inl e \<Rightarrow> (Inl e, w)
      | Inr dcm_dir \<Rightarrow>
          for_roles (bias_role t idn dcm_dir repeat) (map fst ser_dict) ser_dict w))"

subsection \<open>Normalisation\<close>

text \<open>
  The body of the loop of \<^verbatim>\<open>norm_niis\<close> for one role, and the stage. The
  file name of the bias-corrected image is read with
  \<^verbatim>\<open>ser_dict[srs]["filename_bias"]\<close>, without a test that the key exists.
\<close>

definition normname_of :: "string \<Rightarrow> string" where
  "normname_of fn = path_join (dirname fn) (split_head (basename fn) ''.'' @ ''n.nii.gz'')"

definition norm_role ::
  "bool \<Rightarrow> string \<Rightarrow> ser_dict \<Rightarrow> world \<Rightarrow> (error + ser_dict) \<times> world" where
  "norm_role repeat srs d w =
     (case getitem d srs of Inl e \<Rightarrow> (Inl e, w)
      | Inr r \<Rightarrow>
        if bias r \<noteq> Some True then (Inr d, w)
        else
     (case filename_bias r of None \<Rightarrow> (Inl (KeyError ''filename_bias''), w)
      | Some fn \<Rightarrow>
          if \<not> isfile w (normname_of fn) \<or> repeat then
            (let w1 = log_info (''- Normalizing '' @ srs @ '' at '' @ fn) w in
             case files w1 fn of
               None \<Rightarrow> (Inl (FileNotFoundError fn), w1)
             | Some (Bytes b) \<Rightarrow> (Inl ImageFileError, w1)
             | Some (Nifti img) \<Rightarrow>
                 (Inr (update_role srs (\<lambda>r. r\<lparr>filename_norm := Some (normname_of fn)\<rparr>) d),
                  w1\<lparr>files := (files w1)(normname_of fn \<mapsto> Nifti (normalize_nd img))\<rparr>))
          else
            (Inr (update_role srs (\<lambda>r. r\<lparr>filename_norm := Some (normname_of fn)\<rparr>) d),
             log_info (''- Normalized '' @ srs @ '' already exists at '' @ normname_of fn) w)))"

definition norm_niis :: "ser_dict \<Rightarrow> bool \<Rightarrow> world \<Rightarrow> (error + ser_dict) \<times> world" where
  "norm_niis ser_dict repeat w =
     for_roles (norm_role repeat) (map fst ser_dict) ser_dict (log_info ''NORMALIZING NIIs:'' w)"

subsection \<open>4-D volume and case record\<close>

definition norm_files :: "ser_dict \<Rightarrow> string list" where
  "norm_files d =
     concat (map (\<lambda>kr. case filename_norm (snd kr) of None \<Rightarrow> [] | Some f \<Rightarrow> [f]) d)"

definition nii4d_of :: "string \<Rightarrow> ser_dict \<Rightarrow> string" where
  "nii4d_of idn d = path_join (dirname (hd (norm_files d))) (idn @ ''_nii4d.nii.gz'')"

definition make_nii4d :: "tool \<Rightarrow> ser_dict \<Rightarrow> bool \<Rightarrow> world \<Rightarrow> (error + ser_dict) \<times> world" where
  "make_nii4d t ser_dict repeat w0 =
     (let w = log_info ''MAKING 4D NII:'' w0 in
      case info_id ser_dict of Inl e \<Rightarrow> (Inl e, w)
      | Inr idn \<Rightarrow>
        let w1 = foldl (\<lambda>w kr. case filename_norm (snd kr) of None \<Rightarrow> w
                          | Some f \<Rightarrow> log_info (''- Adding '' @ fst kr @
                                                   '' to nii4D list at '' @ f) w)
                   w ser_dict
        in if length (norm_files ser_dict) > 1 then
             (if \<not> isfile w1 (nii4d_of idn ser_dict) \<or> repeat then
                (case run_tool t (Merge (norm_files ser_dict) (nii4d_of idn ser_dict))
                        (log_info (''- Creating 4D nii at '' @ nii4d_of idn ser_dict) w1) of
                   (Inl e, w2) \<Rightarrow> (Inl e, w2)
                 | (Inr _, w2) \<Rightarrow> (Inr ser_dict, w2))
              else (Inr ser_dict,
                    log_info (''- 4D Nii already exists at '' @ nii4d_of idn ser_dict) w1))
           else (Inr ser_dict, log_info ''- Not enough files to make 4D Nii'' w1))"

text \<open>
  \<^verbatim>\<open>print_series_dict\<close>: the binary record and the readable record, each
  written by the pipeline itself unless the file exists and \<open>repeat\<close> is
  false.
\<close>

definition print_series_dict ::
  "tool \<Rightarrow> ser_dict \<Rightarrow> bool \<Rightarrow> world \<Rightarrow> (error + ser_dict) \<times> world" where
  "print_series_dict t series_dict repeat w =
     (case info_dcmdir series_dict of Inl e \<Rightarrow> (Inl e, w)
      | Inr dcm_dir \<Rightarrow>
     (case info_id series_dict of Inl e \<Rightarrow> (Inl e, w)
      | Inr idn \<Rightarrow>
        let serdict_outfile = path_join (dirname dcm_dir) (idn @ ''_metadata.npy'');
            hr_serdict_outfile = path_join (dirname dcm_dir) (idn @ ''_metadata_HR.txt'')
        in case (if \<not> isfile w serdict_outfile \<or> repeat
                 then run_tool t (PythonWrite ''np.save'' [] serdict_outfile) w
                 else (Inr (), w)) of
             (Inl e, w1) \<Rightarrow> (Inl e, w1)
           | (Inr _, w1) \<Rightarrow>
               (case (if \<not> isfile w1 hr_serdict_outfile \<or> repeat
                      then run_tool t (PythonWrite ''yaml.safe_dump'' [] hr_serdict_outfile) w1
                      else (Inr (), w1)) of
                  (Inl e, w2) \<Rightarrow> (Inl e, w2)
                | (Inr _, w2) \<Rightarrow> (Inr series_dict, w2))))"

section \<open>Specification of the normalisation\<close>

text \<open>
  The normalisation as the specification words it, on finite voxel values: the
  mean and the standard deviation are those of the nonzero voxels, and the
  normalised values of the nonzero voxels are \<open>(x - mean) / std\<close>.
\<close>

definition nonzero_voxels :: "real list \<Rightarrow> real list" where
  "nonzero_voxels xs = filter (\<lambda>x. x \<noteq> 0) xs"

definition spec_mean :: "real list \<Rightarrow> real" where
  "spec_mean xs = mean_of (nonzero_voxels xs)"

definition spec_std :: "real list \<Rightarrow> real" where
  "spec_std xs = sqrt (variance_of (nonzero_voxels xs))"

definition spec_normalized :: "real list \<Rightarrow> real list" where
  "spec_normalized xs = map (\<lambda>x. (x - spec_mean xs) / spec_std xs) (nonzero_voxels xs)"

section \<open>Specification of the tie-break\<close>

text \<open>
  The tie-break as the specification words it: a candidate replaces the keeper
  when its image count is strictly greater, or when the image counts are equal
  and both acquisition times parse as numbers and the candidate's is strictly
  later. In every other case the keeper stays. The keeper of a candidate list
  is the result of going through the candidates in order, starting with the
  first one as keeper.
\<close>

definition spec_replaces :: "(string \<Rightarrow> real option) \<Rightarrow> hdr \<Rightarrow> hdr \<Rightarrow> bool" where
  "spec_replaces py_float cand keep =
     (case (ImagesInAcquisition cand, ImagesInAcquisition keep) of
        (Some ci, Some ck) \<Rightarrow>
           ci > ck \<or>
           (ci = ck \<and>
            (case (AcquisitionTime cand, AcquisitionTime keep) of
               (Some ti, Some tk) \<Rightarrow>
                 (case (py_float ti, py_float tk) of
                    (Some fi, Some fk) \<Rightarrow> fi > fk
                  | _ \<Rightarrow> False)
             | _ \<Rightarrow> False))
      | _ \<Rightarrow> False)"

definition spec_keeper :: "(string \<Rightarrow> real option) \<Rightarrow> hdr list \<Rightarrow> nat list \<Rightarrow> nat" where
  "spec_keeper py_float hs inds =
     foldl (\<lambda>k c. if spec_replaces py_float (hs ! c) (hs ! k) then c else k)
       (hd inds) (tl inds)"

text \<open>
  The candidates of the tie-break: the matches whose description contains
  "repeat" or "redo" when there are any, all matches otherwise.
\<close>

definition spec_candidates :: "string list \<Rightarrow> nat list \<Rightarrow> nat list" where
  "spec_candidates srs inds =
     (if filter (\<lambda>x. contains (lower (srs ! x)) ''repeat'' \<or> contains (lower (srs ! x)) ''redo'') inds
           \<noteq> []
      then filter (\<lambda>x. contains (lower (srs ! x)) ''repeat'' \<or> contains (lower (srs ! x)) ''redo'') inds
      else inds)"

section \<open>Example inputs\<close>

text \<open>
  Three series with the same image count; the second was acquired later than
  the first, the acquisition time of the third is not a number.
\<close>

definition hs_ex :: "hdr list" where
  "hs_ex = [\<lparr>ImagesInAcquisition = Some 10, AcquisitionTime = Some ''100''\<rparr>,
            \<lparr>ImagesInAcquisition = Some 10, AcquisitionTime = Some ''200''\<rparr>,
            \<lparr>ImagesInAcquisition = Some 10, AcquisitionTime = Some ''n/a''\<rparr>]"

definition py_float_ex :: "string \<Rightarrow> real option" where
  "py_float_ex s = (if s = ''100'' then Some 100 else if s = ''200'' then Some 200 else None)"

text \<open>
  A plain-text pattern: \<^verbatim>\<open>re.search\<close> with a pattern without special
  characters is the substring test.
\<close>

definition re_search_ex :: "string \<Rightarrow> string \<Rightarrow> bool" where
  "re_search_ex pattern string = contains string pattern"

text \<open>A catalog of one series, and a role that no series matches.\<close>

definition cfg_nomatch :: ser_dict where
  "cfg_nomatch =
     [(''T1'', empty_role\<lparr>or_key := Some [[''T1'', ''POST'']], not_key := Some [''SCREEN'']\<rparr>)]"

text \<open>
  A catalog of three series that all match the role \<open>cfg_match\<close>; the second
  and the third are marked as repeated.
\<close>

definition srs_ex :: "string list" where
  "srs_ex = [''AX T1 POST [dir=00001]'', ''AX T1 POST REPEAT [dir=00002]'',
             ''AX T1 POST REDO [dir=00003]'']"

definition dcms_ex :: "string list list" where
  "dcms_ex = [[''/data/1001/dicoms/00001/a.dcm''], [''/data/1001/dicoms/00002/a.dcm''],
              [''/data/1001/dicoms/00003/a.dcm'']]"

definition ds_ex :: "string list" where
  "ds_ex = [''/data/1001/dicoms/00001'', ''/data/1001/dicoms/00002'', ''/data/1001/dicoms/00003'']"

definition cfg_match :: role where
  "cfg_match = empty_role\<lparr>or_key := Some [[''T1'', ''POST'']], not_key := Some [''SCREEN'']\<rparr>"

text \<open>
  Two tools. \<open>tool_ex\<close> raises when one of its input files is missing and
  writes its output otherwise; \<open>tool_ok\<close> always writes its output.
\<close>

definition tool_ex :: tool where
  "tool_ex c fs =
     (case c of
        Registration routine moving fixed prefix opt \<Rightarrow>
          if fs moving \<noteq> None \<and> fs fixed \<noteq> None
          then (True, fs(prefix @ ''Composite.h5'' \<mapsto> Bytes ''transform''))
          else (False, fs)
      | ApplyTransforms inp ref out ip trs invs \<Rightarrow>
          if fs inp \<noteq> None \<and> fs ref \<noteq> None \<and> list_all (\<lambda>x. fs x \<noteq> None) trs
          then (True, fs(out \<mapsto> Bytes ''warped''))
          else (False, fs)
      | ApplyMask inp msk out \<Rightarrow>
          if fs inp \<noteq> None \<and> fs msk \<noteq> None
          then (True, fs(out \<mapsto> Bytes ''masked''))
          else (False, fs)
      | BatchMask direc suffix overwrite \<Rightarrow> (False, fs)
      | Dcm2niix sources out_filename out_dir \<Rightarrow>
          if list_all (\<lambda>x. fs x \<noteq> None) sources
          then (True, fs(path_join out_dir (out_filename @ ''.nii.gz'') \<mapsto> Bytes ''converted''))
          else (False, fs)
      | N4BiasFieldCorrection inp msk out bias_image \<Rightarrow>
          if fs inp \<noteq> None \<and> fs msk \<noteq> None
          then (True, fs(out \<mapsto> Bytes ''corrected'', bias_image \<mapsto> Bytes ''field''))
          else (False, fs)
      | Merge inputs out \<Rightarrow>
          if list_all (\<lambda>x. fs x \<noteq> None) inputs
          then (True, fs(out \<mapsto> Bytes ''merged''))
          else (False, fs)
      | PythonWrite operation inputs out \<Rightarrow>
          if list_all (\<lambda>x. fs x \<noteq> None) inputs
          then (True, fs(out \<mapsto> Bytes operation))
          else (False, fs))"

definition tool_ok :: tool where
  "tool_ok c fs =
     (case c of
        Registration routine moving fixed prefix opt \<Rightarrow>
          (True, fs(prefix @ ''Composite.h5'' \<mapsto> Bytes ''transform''))
      | ApplyTransforms inp ref out ip trs invs \<Rightarrow> (True, fs(out \<mapsto> Bytes ''warped''))
      | ApplyMask inp msk out \<Rightarrow> (True, fs(out \<mapsto> Bytes ''masked''))
      | BatchMask direc suffix overwrite \<Rightarrow> (True, fs)
      | Dcm2niix sources out_filename out_dir \<Rightarrow>
          (True, fs(path_join out_dir (out_filename @ ''.nii.gz'') \<mapsto> Bytes ''converted''))
      | N4BiasFieldCorrection inp msk out bias_image \<Rightarrow>
          (True, fs(out \<mapsto> Bytes ''corrected'', bias_image \<mapsto> Bytes ''field''))
      | Merge inputs out \<Rightarrow> (True, fs(out \<mapsto> Bytes ''merged''))
      | PythonWrite operation inputs out \<Rightarrow> (True, fs(out \<mapsto> Bytes operation)))"

text \<open>What a run of the registration stage leaves in the roles, and the tools it ran.\<close>

definition reg_fields :: "ser_dict \<Rightarrow> (string \<times> string option \<times> string option) list" where
  "reg_fields d = map (\<lambda>kr. (fst kr, filename_reg (snd kr), transform (snd kr))) d"

definition reg_outcome ::
  "(error + ser_dict) \<times> world \<Rightarrow> error + (string \<times> string option \<times> string option) list" where
  "reg_outcome res = map_sum id reg_fields (fst res)"

fun calls_of :: "event list \<Rightarrow> call list" where
  "calls_of [] = []"
| "calls_of (Ran c # es) = c # calls_of es"
| "calls_of (e # es) = calls_of es"

text \<open>
  A case whose only converted volume is T1. T1 registers to the role T2FS, for
  which no series was found (it has no file name): in \<open>d_rigid\<close> in the mode
  \<^verbatim>\<open>rigid\<close>, in \<open>d_affine\<close> in the mode \<^verbatim>\<open>affine\<close>.
\<close>

definition w_ex :: world where
  "w_ex = \<lparr>files = [''/data/1001/1001_T1.nii.gz'' \<mapsto> Bytes ''t1''], trace = []\<rparr>"

definition d_rigid :: ser_dict where
  "d_rigid =
     [(''T1'', empty_role\<lparr>reg := Some (RegStr ''rigid''), reg_target := Some ''T2FS'',
                          filename := Some ''/data/1001/1001_T1.nii.gz''\<rparr>),
      (''T2FS'', empty_role\<lparr>reg := Some (RegStr ''affine''),
                            reg_target := Some ''/support/atlas.nii.gz''\<rparr>),
      (''info'', info_role ''/data/1001/dicoms'')]"




text \<open>
  A parameter file with three roles, in this order; T2FS registers to the
  atlas.
\<close>

definition cfg_order :: ser_dict where
  "cfg_order =
     [(''T2FS'', empty_role\<lparr>reg := Some (RegStr ''affine''), reg_target := Some ''atlas''\<rparr>),
      (''T1'', empty_role\<lparr>reg := Some (RegStr ''affine''), reg_target := Some ''T2FS''\<rparr>),
      (''DWI'', empty_role\<lparr>reg := Some (RegStr ''affine''), reg_target := Some ''T2FS''\<rparr>)]"

text \<open>
  The state before the last loop of \<^verbatim>\<open>reg_series\<close> in a case where T1 has
  been registered to the atlas and T1sub takes the transform of T1.
\<close>

definition d_borrow :: ser_dict where
  "d_borrow =
     [(''T1'', empty_role\<lparr>reg := Some (RegStr ''affine''),
                          reg_target := Some ''/support/atlas.nii.gz'',
                          filename := Some ''/data/1001/1001_T1.nii.gz'',
                          filename_reg := Some ''/data/1001/1001_T1_w.nii.gz'',
                          transform := Some ''/data/1001/1001_T1_2_atlas_Composite.h5''\<rparr>),
      (''T1sub'', empty_role\<lparr>reg := Some (RegStr ''T1''),
                             filename := Some ''/data/1001/1001_T1sub.nii.gz''\<rparr>),
      (''info'', (info_role ''/data/1001/dicoms'')\<lparr>filename_reg := Some ''None'',
                    transform := Some ''None'', reg := Some (RegBool False)\<rparr>)]"

definition w_borrow :: world where
  "w_borrow = \<lparr>files = [''/data/1001/1001_T1.nii.gz'' \<mapsto> Bytes ''t1'',
                         ''/data/1001/1001_T1sub.nii.gz'' \<mapsto> Bytes ''sub'',
                         ''/data/1001/1001_T1_w.nii.gz'' \<mapsto> Bytes ''warped'',
                         ''/data/1001/1001_T1_2_atlas_Composite.h5'' \<mapsto> Bytes ''transform''],
                trace = []\<rparr>"

text \<open>
  A case in which every file exists: T1 registers to the atlas, DTI_b0 takes
  the transform of T1, and DTI_FA takes the transform of DTI_b0.
\<close>

definition d_chain :: ser_dict where
  "d_chain =
     [(''T1'', empty_role\<lparr>reg := Some (RegStr ''affine''),
                          reg_target := Some ''/support/atlas.nii.gz'',
                          filename := Some ''/data/1001/1001_T1.nii.gz''\<rparr>),
      (''DTI_b0'', empty_role\<lparr>reg := Some (RegStr ''T1''),
                              filename := Some ''/data/1001/1001_DTI_b0.nii.gz''\<rparr>),
      (''DTI_FA'', empty_role\<lparr>reg := Some (RegStr ''DTI_b0''),
                              filename := Some ''/data/1001/1001_DTI_FA.nii.gz''\<rparr>),
      (''info'', info_role ''/data/1001/dicoms'')]"

definition w_chain :: world where
  "w_chain = \<lparr>files = [''/data/1001/1001_T1.nii.gz'' \<mapsto> Bytes ''t1'',
                        ''/data/1001/1001_DTI_b0.nii.gz'' \<mapsto> Bytes ''b0'',
                        ''/data/1001/1001_DTI_FA.nii.gz'' \<mapsto> Bytes ''fa'',
                        ''/support/atlas.nii.gz'' \<mapsto> Bytes ''atlas''],
               trace = []\<rparr>"

text \<open>
  A case after masking and bias correction: T1 is flagged for bias correction
  and has no bias-corrected file name, since neither its masked file nor the
  mask exists.
\<close>

definition d_bias :: ser_dict where
  "d_bias =
     [(''T1'', empty_role\<lparr>bias := Some True,
                          filename := Some ''/data/1001/1001_T1.nii.gz'',
                          filename_reg := Some ''/data/1001/1001_T1.nii.gz''\<rparr>),
      (''info'', info_role ''/data/1001/dicoms'')]"

text \<open>
  A case in which every stage has run: every expected output of the role T1 is
  on disk; T2 and T2FS have a normalised file name only. \<open>w_corrected\<close>
  holds the bias-corrected image of T1 and nothing else.
\<close>

definition role_done :: role where
  "role_done =
     empty_role\<lparr>reg := Some (RegStr ''affine''),
                reg_target := Some ''/support/atlas.nii.gz'',
                bias := Some True,
                dicoms := Some [''/data/1001/dicoms/T1/0001.dcm''],
                series := Some ''T1 [dir=ms/T1]'',
                filename := Some ''/data/1001/1001_T1.nii.gz'',
                filename_reg := Some ''/data/1001/1001_T1_w.nii.gz'',
                transform := Some ''/data/1001/1001_T1_2_atlas_Composite.h5'',
                filename_bias := Some ''/data/1001/1001_T1_wmtb.nii.gz''\<rparr>"

definition d_done :: ser_dict where
  "d_done =
     [(''T1'', role_done),
      (''T2'', empty_role\<lparr>filename_norm := Some ''/data/1001/1001_T2_wmtbn.nii.gz''\<rparr>),
      (''T2FS'', empty_role\<lparr>filename_norm := Some ''/data/1001/1001_T2FS_wmtbn.nii.gz''\<rparr>),
      (''info'', info_role ''/data/1001/dicoms'')]"

definition w_done :: world where
  "w_done =
     \<lparr>files = [''/data/1001/1001_series_list.txt'' \<mapsto> Bytes ''list'',
               ''/data/1001/1001_T1.nii.gz'' \<mapsto> Bytes ''t1'',
               ''/support/atlas.nii.gz'' \<mapsto> Bytes ''atlas'',
               ''/data/1001/1001_T1_2_atlas_Composite.h5'' \<mapsto> Bytes ''transform'',
               ''/data/1001/1001_T1_w.nii.gz'' \<mapsto> Bytes ''warped'',
               ''/data/1001/1001_breast_mask.nii.gz'' \<mapsto> Bytes ''mask'',
               ''/data/1001/1001_T1_wm.nii.gz'' \<mapsto> Bytes ''masked'',
               ''/data/1001/1001_combined_brain_mask.nii.gz'' \<mapsto> Bytes ''mask'',
               ''/data/1001/1001_T1_wmt.nii.gz'' \<mapsto> Bytes ''truncate'',
               ''/data/1001/1001_T1_wmtb.nii.gz'' \<mapsto> Bytes ''corrected'',
               ''/data/1001/1001_T1_wmtbn.nii.gz'' \<mapsto> Bytes ''normalized'',
               ''/data/1001/1001_nii4d.nii.gz'' \<mapsto> Bytes ''merged'',
               ''/data/1001/1001_metadata.npy'' \<mapsto> Bytes ''np.save'',
               ''/data/1001/1001_metadata_HR.txt'' \<mapsto> Bytes ''yaml.safe_dump''],
      trace = []\<rparr>"

definition w_corrected :: world where
  "w_corrected =
     \<lparr>files = [''/data/1001/1001_T1_wmtb.nii.gz'' \<mapsto> Nifti (Array3 [Fin 0, Fin 1, Fin 3])],
      trace = []\<rparr>"

section \<open>Specification of idempotence\<close>

text \<open>
  A run changes no files when the files after it are the files before it and
  it has run no tool. The expected outputs of the registration routine and of
  the transform application, as the source computes them.
\<close>

definition same_files :: "world \<Rightarrow> world \<Rightarrow> bool" where
  "same_files w w' = (files w' = files w \<and> calls_of (trace w') = calls_of (trace w))"

definition transform_of :: "string \<Rightarrow> string \<Rightarrow> string \<Rightarrow> string" where
  "transform_of work_dir moving_nii template_nii =
     path_join work_dir (split_head (basename moving_nii) ''.'' @ ''_2_'' @
                         split_head (basename template_nii) ''.'' @ ''_'') @ ''Composite.h5''"

definition warped_of :: "string \<Rightarrow> string \<Rightarrow> string" where
  "warped_of work_dir mvng = path_join work_dir (split_head (basename mvng) ''.nii'' @ ''_w.nii.gz'')"

text \<open>
  The expected outputs are in place: for every key of the series dictionary,
  the output that the stage would write for the role under that key exists
  (\<open>all_roles\<close> runs over the keys, as the loops of the stages do). The
  file names of the bias correction are those the source computes.
\<close>

definition all_roles :: "(string \<Rightarrow> role \<Rightarrow> bool) \<Rightarrow> ser_dict \<Rightarrow> bool" where
  "all_roles P d =
     list_all (\<lambda>k. case map_of d k of None \<Rightarrow> True | Some r \<Rightarrow> P k r) (map fst d)"

definition all_converted :: "world \<Rightarrow> string \<Rightarrow> string \<Rightarrow> ser_dict \<Rightarrow> bool" where
  "all_converted w idn dicom_dir d =
     all_roles (\<lambda>k r. dicoms r \<noteq> None \<longrightarrow> isfile w (outfilepath_of idn dicom_dir k)) d"

definition all_masked :: "world \<Rightarrow> ser_dict \<Rightarrow> bool" where
  "all_masked w d =
     all_roles (\<lambda>k r. case filename_reg r of None \<Rightarrow> True
                       | Some fr \<Rightarrow> isfile w fr \<longrightarrow> isfile w (ser_masked_of fr)) d"

definition wm_of :: "string \<Rightarrow> string \<Rightarrow> string \<Rightarrow> string" where
  "wm_of idn dcm_dir srs = path_join (dirname dcm_dir) (idn @ ''_'' @ srs @ ''_wm.nii.gz'')"

definition brain_mask_of :: "string \<Rightarrow> string \<Rightarrow> string" where
  "brain_mask_of idn dcm_dir = path_join (dirname dcm_dir) (idn @ ''_combined_brain_mask.nii.gz'')"

definition truncated_of :: "string \<Rightarrow> string" where
  "truncated_of f = rsplit_head f ''.nii'' @ ''t.nii.gz''"

definition biasimg_of :: "string \<Rightarrow> string" where
  "biasimg_of f = rsplit_head (truncated_of f) ''.nii'' @ ''b.nii.gz''"

definition all_bias_corrected :: "world \<Rightarrow> string \<Rightarrow> string \<Rightarrow> ser_dict \<Rightarrow> bool" where
  "all_bias_corrected w idn dcm_dir d =
     all_roles (\<lambda>k r. bias r = Some True \<and> isfile w (wm_of idn dcm_dir k) \<and>
                       isfile w (brain_mask_of idn dcm_dir)
                       \<longrightarrow> isfile w (truncated_of (wm_of idn dcm_dir k)) \<and>
                           isfile w (biasimg_of (wm_of idn dcm_dir k))) d"

definition all_normalized :: "world \<Rightarrow> ser_dict \<Rightarrow> bool" where
  "all_normalized w d =
     all_roles (\<lambda>k r. bias r = Some True \<longrightarrow>
                  (case filename_bias r of None \<Rightarrow> True
                   | Some fn \<Rightarrow> isfile w (normname_of fn))) d"

section \<open>Specification of the registration outcome\<close>



section \<open>Properties of the matcher\<close>

lemma enumerate_from_Nil: "enumerate_from k [] = []"
  by (simp add: enumerate_from_def)

lemma enumerate_from_Cons:
  "enumerate_from k (x # xs) = (k, x) # enumerate_from (Suc k) xs"
proof -
  have "[k ..< k + length (x # xs)] = k # [Suc k ..< Suc k + length xs]"
    by (simp add: upt_conv_Cons del: upt_Suc)
  then show ?thesis by (simp add: enumerate_from_def)
qed

text \<open>The first pass of the loop makes the first candidate the keeper.\<close>

lemma keeper_step_first:
  "i < length hs \<Longrightarrow> keeper_step py_float hs st (Suc 0, i) = Inr (Some i, Some (Suc 0))"
  by (simp add: keeper_step_def nth_res_def Let_def split: option.splits)

text \<open>Every later pass replaces the keeper exactly when the specification says so.\<close>

lemma keeper_step_later:
  "i < length hs \<Longrightarrow> k < length hs \<Longrightarrow> n \<noteq> Suc 0 \<Longrightarrow>
   keeper_step py_float hs (Some k, num) (n, i) =
     Inr (if spec_replaces py_float (hs ! i) (hs ! k) then (Some i, Some n) else (Some k, num))"
  by (auto simp add: keeper_step_def nth_res_def spec_replaces_def Let_def split: option.splits)

lemma keeper_loop_later:
  "\<forall>i\<in>set rest. i < length hs \<Longrightarrow> k < length hs \<Longrightarrow> Suc 0 < m \<Longrightarrow>
   \<exists>num'. keeper_loop py_float hs (Some k, num) (enumerate_from m rest) =
     Inr (Some (foldl (\<lambda>k c. if spec_replaces py_float (hs ! c) (hs ! k) then c else k) k rest),
          num')"
proof (induction rest arbitrary: k num m)
  case Nil
  then show ?case by (simp add: enumerate_from_Nil)
next
  case (Cons c rest)
  then show ?case
    by (simp add: enumerate_from_Cons keeper_step_later)
qed

lemma spec_candidates_subset: "set (spec_candidates srs inds) \<subseteq> set inds"
  by (auto simp: spec_candidates_def)

lemma spec_candidates_nonempty: "inds \<noteq> [] \<Longrightarrow> spec_candidates srs inds \<noteq> []"
  by (simp add: spec_candidates_def)

lemma spec_candidates_single: "spec_candidates srs [i] = [i]"
  by (simp add: spec_candidates_def)

lemma spec_fold_mem:
  "foldl (\<lambda>k c. if spec_replaces py_float (hs ! c) (hs ! k) then c else k) k rest
     \<in> insert k (set rest)"
  by (induction rest arbitrary: k) (simp, simp, blast)

lemma spec_keeper_mem: "inds \<noteq> [] \<Longrightarrow> spec_keeper py_float hs inds \<in> set inds"
  using spec_fold_mem[of py_float hs "hd inds" "tl inds"]
  by (cases inds) (auto simp: spec_keeper_def)

lemma substr_list_inner_bound:
  "set inds \<subseteq> A \<Longrightarrow> ind \<in> A \<Longrightarrow>
   set (foldl (\<lambda>inds substrlist.
           if list_all (\<lambda>item. re_search item string) substrlist
              \<and> \<not> list_ex (\<lambda>item2. re_search item2 string) substrnot
              \<and> ind \<notin> set inds
           then inds @ [ind] else inds) inds substrs) \<subseteq> A"
  by (induction substrs arbitrary: inds) auto

lemma substr_list_outer_bound:
  "set inds \<subseteq> A \<Longrightarrow> fst ` set xs \<subseteq> A \<Longrightarrow>
   set (foldl (\<lambda>inds (ind, string).
        foldl (\<lambda>inds substrlist.
           if list_all (\<lambda>item. re_search item string) substrlist
              \<and> \<not> list_ex (\<lambda>item2. re_search item2 string) substrnot
              \<and> ind \<notin> set inds
           then inds @ [ind] else inds) inds substrs) inds xs) \<subseteq> A"
proof (induction xs arbitrary: inds)
  case Nil
  then show ?case by simp
next
  case (Cons x xs)
  obtain ind string where x: "x = (ind, string)" by (cases x)
  from Cons.prems(2) x have i: "ind \<in> A" and r: "fst ` set xs \<subseteq> A" by auto
  from substr_list_inner_bound[OF Cons.prems(1) i]
  have "set (foldl (\<lambda>inds substrlist.
           if list_all (\<lambda>item. re_search item string) substrlist
              \<and> \<not> list_ex (\<lambda>item2. re_search item2 string) substrnot
              \<and> ind \<notin> set inds
           then inds @ [ind] else inds) inds substrs) \<subseteq> A" .
  from Cons.IH[OF this r] show ?case by (simp add: x)
qed

lemma substr_list_bound:
  "i \<in> set (substr_list re_search srs substrs substrnot) \<Longrightarrow> i < length srs"
proof -
  have "fst ` set (enumerate_from 0 srs) \<subseteq> {..<length srs}"
    by (auto simp: enumerate_from_def in_set_zip)
  from substr_list_outer_bound[of "[]" "{..<length srs}", OF _ this]
  have "set (substr_list re_search srs substrs substrnot) \<subseteq> {..<length srs}"
    by (simp add: substr_list_def)
  then show "i \<in> set (substr_list re_search srs substrs substrnot) \<Longrightarrow> i < length srs"
    by auto
qed

lemma keeper_loop_spec:
  assumes "inds \<noteq> []" and "\<forall>i\<in>set inds. i < length hs"
  shows "\<exists>number. keeper_loop py_float hs (None, None) (enumerate_from 1 inds) =
           Inr (Some (spec_keeper py_float hs inds), number)"
proof -
  from assms(1) obtain i rest where inds: "inds = i # rest" by (cases inds) auto
  with assms(2) have i: "i < length hs" and rest: "\<forall>j\<in>set rest. j < length hs" by auto
  from keeper_loop_later[OF rest i, of 2 py_float "Some (Suc 0)"]
  show ?thesis
    by (simp add: inds enumerate_from_Cons keeper_step_first[OF i] spec_keeper_def numeral_2_eq_2)
qed

lemma choose_keeper_spec:
  assumes "inds \<noteq> []" and "\<forall>i\<in>set inds. i < length hs"
  shows "choose_keeper py_float hs srs inds =
           Inr (Some (spec_keeper py_float hs (spec_candidates srs inds)))"
proof (cases "length inds = 1")
  case True
  then obtain i where "inds = [i]" by (cases inds) auto
  then show ?thesis
    by (simp add: choose_keeper_def spec_candidates_single spec_keeper_def)
next
  case False
  have c: "spec_candidates srs inds \<noteq> []" by (rule spec_candidates_nonempty[OF assms(1)])
  from assms(2) spec_candidates_subset[of srs inds]
  have b: "\<forall>i\<in>set (spec_candidates srs inds). i < length hs" by auto
  from keeper_loop_spec[OF c b, of py_float] obtain number where
    "keeper_loop py_float hs (None, None) (enumerate_from 1 (spec_candidates srs inds)) =
       Inr (Some (spec_keeper py_float hs (spec_candidates srs inds)), number)" by blast
  with False show ?thesis
    by (simp add: choose_keeper_def spec_candidates_def Let_def)
qed

lemma filter_role_spec:
  assumes "or_key r = Some substrs" and "not_key r = Some substrnot"
    and "substr_list re_search srs substrs substrnot = inds" and "inds \<noteq> []"
    and "length srs \<le> length hs" and "length srs \<le> length dcms" and "length srs \<le> length ds"
    and "k = spec_keeper py_float hs (spec_candidates srs inds)"
  shows "filter_role re_search py_float dcms hs srs ds r =
           Inr (r\<lparr>dicoms := Some (dcms ! k), hdrs := Some (Item (hs ! k)),
                  series := Some (srs ! k), dirs := Some (Item (ds ! k))\<rparr>)"
proof -
  from assms(3) substr_list_bound have b: "\<forall>i\<in>set inds. i < length srs" by blast
  with assms(5) have bh: "\<forall>i\<in>set inds. i < length hs" by auto
  have "k \<in> set (spec_candidates srs inds)"
    unfolding assms(8) by (rule spec_keeper_mem[OF spec_candidates_nonempty[OF assms(4)]])
  with spec_candidates_subset[of srs inds] b have k: "k < length srs" by auto
  with assms(5-7) have kk: "k < length hs" "k < length dcms" "k < length ds" by auto
  from choose_keeper_spec[OF assms(4) bh, of py_float srs] assms(8)
  have c: "choose_keeper py_float hs srs inds = Inr (Some k)" by simp
  show ?thesis
    using assms(1-4) k kk
    by (simp add: filter_role_def c nth_res_def Let_def)
qed

text \<open>
  Claim C5. The matcher's choice among the series that match a role is a
  function of the candidate list. When more than one series matches, the
  candidates are the matches marked "repeat" or "redo" if there are any, all
  matches otherwise. The tie-break loop takes the candidates in their
  original index order with the first candidate as initial keeper; it never
  raises on indices that are in range, and the keeper it ends with is the
  keeper of the specification: a candidate with strictly more images replaces
  the keeper, a candidate with the same number of images and a strictly later
  acquisition time (both times parse as numbers) replaces the keeper, and in
  every other case, in particular when an acquisition time does not parse,
  the earlier candidate stays. That keeper is the series the matcher binds to
  the role: \<^verbatim>\<open>choose_keeper\<close> returns it (for a single match it is that
  match), and \<^verbatim>\<open>filter_role\<close> records its files, header, description and
  directory.
\<close>

theorem tie_break_refines_spec:
  assumes "inds \<noteq> []" and "\<forall>i\<in>set inds. i < length hs"
  shows "(\<exists>number. keeper_loop py_float hs (None, None) (enumerate_from 1 inds) =
            Inr (Some (spec_keeper py_float hs inds), number)) \<and>
         choose_keeper py_float hs srs inds =
            Inr (Some (spec_keeper py_float hs (spec_candidates srs inds))) \<and>
         (or_key r = Some substrs \<and> not_key r = Some substrnot \<and>
          substr_list re_search srs substrs substrnot = inds \<and>
          length srs \<le> length hs \<and> length srs \<le> length dcms \<and> length srs \<le> length ds
          \<longrightarrow> filter_role re_search py_float dcms hs srs ds r =
                Inr (r\<lparr>dicoms := Some (dcms ! spec_keeper py_float hs (spec_candidates srs inds)),
                       hdrs := Some (Item (hs ! spec_keeper py_float hs (spec_candidates srs inds))),
                       series := Some (srs ! spec_keeper py_float hs (spec_candidates srs inds)),
                       dirs := Some (Item (ds ! spec_keeper py_float hs (spec_candidates srs inds)))\<rparr>))"
proof (intro conjI impI)
  show "\<exists>number. keeper_loop py_float hs (None, None) (enumerate_from 1 inds) =
            Inr (Some (spec_keeper py_float hs inds), number)"
    by (rule keeper_loop_spec[OF assms])
  show "choose_keeper py_float hs srs inds =
            Inr (Some (spec_keeper py_float hs (spec_candidates srs inds)))"
    by (rule choose_keeper_spec[OF assms])
next
  assume h: "or_key r = Some substrs \<and> not_key r = Some substrnot \<and>
          substr_list re_search srs substrs substrnot = inds \<and>
          length srs \<le> length hs \<and> length srs \<le> length dcms \<and> length srs \<le> length ds"
  show "filter_role re_search py_float dcms hs srs ds r =
                Inr (r\<lparr>dicoms := Some (dcms ! spec_keeper py_float hs (spec_candidates srs inds)),
                       hdrs := Some (Item (hs ! spec_keeper py_float hs (spec_candidates srs inds))),
                       series := Some (srs ! spec_keeper py_float hs (spec_candidates srs inds)),
                       dirs := Some (Item (ds ! spec_keeper py_float hs (spec_candidates srs inds)))\<rparr>)"
    by (rule filter_role_spec[OF h[THEN conjunct1] h[THEN conjunct2, THEN conjunct1]
          h[THEN conjunct2, THEN conjunct2, THEN conjunct1] assms(1)
          h[THEN conjunct2, THEN conjunct2, THEN conjunct2, THEN conjunct1]
          h[THEN conjunct2, THEN conjunct2, THEN conjunct2, THEN conjunct2, THEN conjunct1]
          h[THEN conjunct2, THEN conjunct2, THEN conjunct2, THEN conjunct2, THEN conjunct2]
          refl])
qed

lemma matcher_ex:
  "substr_list re_search_ex srs_ex [[''T1'', ''POST'']] [''SCREEN''] = [0, 1, 2]"
  "spec_candidates srs_ex [0, 1, 2] = [1, 2]"
  by code_simp+

lemma keeper_ex:
  "spec_keeper py_float_ex hs_ex [0, 1, 2] = 1"
  "spec_keeper py_float_ex hs_ex [1, 2] = 1"
  by (simp_all add: spec_keeper_def spec_replaces_def hs_ex_def py_float_ex_def)

theorem tie_break_witness:
  "(\<exists>number. keeper_loop py_float_ex hs_ex (None, None) (enumerate_from 1 [0, 1, 2]) =
       Inr (Some 1, number)) \<and>
   choose_keeper py_float_ex hs_ex srs_ex [0, 1, 2] = Inr (Some 1) \<and>
   filter_role re_search_ex py_float_ex dcms_ex hs_ex srs_ex ds_ex cfg_match =
     Inr (cfg_match\<lparr>dicoms := Some [''/data/1001/dicoms/00002/a.dcm''],
                     hdrs := Some (Item (hs_ex ! 1)),
                     series := Some ''AX T1 POST REPEAT [dir=00002]'',
                     dirs := Some (Item ''/data/1001/dicoms/00002'')\<rparr>)"
proof -
  have a: "[0, 1, 2] \<noteq> ([] :: nat list)" by simp
  have b: "\<forall>i\<in>set [0, 1, 2]. i < length hs_ex" by (simp add: hs_ex_def)
  have h: "or_key cfg_match = Some [[''T1'', ''POST'']] \<and> not_key cfg_match = Some [''SCREEN''] \<and>
           substr_list re_search_ex srs_ex [[''T1'', ''POST'']] [''SCREEN''] = [0, 1, 2] \<and>
           length srs_ex \<le> length hs_ex \<and> length srs_ex \<le> length dcms_ex \<and>
           length srs_ex \<le> length ds_ex"
    using matcher_ex(1) by (simp add: cfg_match_def hs_ex_def dcms_ex_def ds_ex_def)
        (simp add: srs_ex_def)
  have e: "dcms_ex ! 1 = [''/data/1001/dicoms/00002/a.dcm'']"
    "srs_ex ! 1 = ''AX T1 POST REPEAT [dir=00002]''"
    "ds_ex ! 1 = ''/data/1001/dicoms/00002''"
    by (simp_all add: dcms_ex_def srs_ex_def ds_ex_def)
  from tie_break_refines_spec [OF a b, where py_float = py_float_ex
          and srs = srs_ex and r = cfg_match and substrs = "[[''T1'', ''POST'']]"
          and substrnot = "[''SCREEN'']" and re_search = re_search_ex
          and dcms = dcms_ex and ds = ds_ex] h
  have "(\<exists>number. keeper_loop py_float_ex hs_ex (None, None) (enumerate_from 1 [0, 1, 2]) =
            Inr (Some (spec_keeper py_float_ex hs_ex [0, 1, 2]), number)) \<and>
         choose_keeper py_float_ex hs_ex srs_ex [0, 1, 2] =
            Inr (Some (spec_keeper py_float_ex hs_ex (spec_candidates srs_ex [0, 1, 2]))) \<and>
         filter_role re_search_ex py_float_ex dcms_ex hs_ex srs_ex ds_ex cfg_match =
            Inr (cfg_match\<lparr>dicoms := Some (dcms_ex ! spec_keeper py_float_ex hs_ex (spec_candidates srs_ex [0, 1, 2])),
                   hdrs := Some (Item (hs_ex ! spec_keeper py_float_ex hs_ex (spec_candidates srs_ex [0, 1, 2]))),
                   series := Some (srs_ex ! spec_keeper py_float_ex hs_ex (spec_candidates srs_ex [0, 1, 2])),
                   dirs := Some (Item (ds_ex ! spec_keeper py_float_ex hs_ex (spec_candidates srs_ex [0, 1, 2])))\<rparr>)"
    by blast
  then show ?thesis by (simp only: matcher_ex keeper_ex e)
qed

text \<open>
  Claim C6, evaluated on the code. The catalog holds one series, "AX T2 FS",
  and the role T1 asks for the patterns T1 and POST: no series matches. The
  matcher does not raise, and it records the role with empty \<^verbatim>\<open>dicoms\<close> and
  \<^verbatim>\<open>hdrs\<close> and the series string \<^verbatim>\<open>None\<close>. The directory it records in
  the series dictionary is the empty list, not the string \<^verbatim>\<open>None\<close> that the
  source appends to its list \<^verbatim>\<open>new_dirs\<close> one line before.
\<close>

theorem no_match_records_empty_dirs:
  "filter_series re_search_ex py_float_ex [[''/data/1001/dicoms/00001/a.dcm'']] [hd hs_ex]
         [''AX T2 FS [dir=00001]''] [''/data/1001/dicoms/00001''] cfg_nomatch =
     Inr [(''T1'', empty_role\<lparr>or_key := Some [[''T1'', ''POST'']], not_key := Some [''SCREEN''],
             dicoms := Some [], hdrs := Some EmptyList, series := Some ''None'',
             dirs := Some EmptyList\<rparr>)]"
  by code_simp

section \<open>Properties of the registration order\<close>

lemma foldl_append_if:
  "foldl (\<lambda>l x. if P x then l @ [x] else l) acc xs = acc @ filter P xs"
  by (induction xs arbitrary: acc) auto

lemma foldl_append_unless:
  "foldl (\<lambda>l x. if P x then l else l @ [x]) acc xs = acc @ filter (\<lambda>x. \<not> P x) xs"
  by (induction xs arbitrary: acc) auto

lemma foldl_append_all: "foldl (\<lambda>l x. l @ [x]) acc xs = acc @ xs"
  by (induction xs arbitrary: acc) auto

lemma foldl_front_or_back:
  "foldl (\<lambda>l x. if P x then x # l else l @ [x]) acc xs =
     rev (filter P xs) @ acc @ filter (\<lambda>x. \<not> P x) xs"
  by (induction xs arbitrary: acc) auto

lemma atlas_first_eq:
  "atlas_first d =
     rev (filter (\<lambda>kr. reg_target (snd kr) = Some ''atlas'') (sort_key fst d)) @
     filter (\<lambda>kr. reg_target (snd kr) \<noteq> Some ''atlas'') (sort_key fst d)"
  by (simp add: atlas_first_def foldl_front_or_back)

lemma reg_order_items_eq:
  "reg_order_items d =
     filter (\<lambda>kr. \<not> is_reg_last (snd kr)) (atlas_first d) @
     filter (\<lambda>kr. is_reg_last (snd kr)) (atlas_first d)"
  by (simp add: reg_order_items_def Let_def foldl_append_if foldl_append_unless foldl_append_all)

text \<open>
  Claim C2, as the code has it. The roles flagged \<^verbatim>\<open>reg_last\<close> come after
  all the others. Among the roles whose \<^verbatim>\<open>reg_target\<close> is not the string
  \<^verbatim>\<open>atlas\<close> when the stage runs, those not flagged come in ascending order of
  their names and are followed by the flagged ones, again in ascending order of
  their names: the stage goes through \<^verbatim>\<open>sorted(ser_dict.keys())\<close>, it does not
  keep the order of the parameter file.
\<close>

theorem reg_order_sorted_not_catalog:
  "reg_order d = map fst (reg_order_items d) \<and>
   reg_order_items d =
     filter (\<lambda>kr. \<not> is_reg_last (snd kr)) (reg_order_items d) @
     filter (\<lambda>kr. is_reg_last (snd kr)) (reg_order_items d) \<and>
   filter (\<lambda>kr. reg_target (snd kr) \<noteq> Some ''atlas'') (reg_order_items d) =
     filter (\<lambda>kr. reg_target (snd kr) \<noteq> Some ''atlas'' \<and> \<not> is_reg_last (snd kr)) (sort_key fst d) @
     filter (\<lambda>kr. reg_target (snd kr) \<noteq> Some ''atlas'' \<and> is_reg_last (snd kr)) (sort_key fst d)"
proof -
  have a: "reg_order_items d =
     filter (\<lambda>kr. \<not> is_reg_last (snd kr)) (reg_order_items d) @
     filter (\<lambda>kr. is_reg_last (snd kr)) (reg_order_items d)"
    by (simp add: reg_order_items_eq)
  have b: "filter (\<lambda>kr. reg_target (snd kr) \<noteq> Some ''atlas'') (atlas_first d) =
           filter (\<lambda>kr. reg_target (snd kr) \<noteq> Some ''atlas'') (sort_key fst d)"
    by (simp add: atlas_first_eq filter_empty_conv)
  have c: "filter (\<lambda>kr. reg_target (snd kr) \<noteq> Some ''atlas'') (reg_order_items d) =
     filter (\<lambda>kr. \<not> is_reg_last (snd kr)) (filter (\<lambda>kr. reg_target (snd kr) \<noteq> Some ''atlas'') (atlas_first d)) @
     filter (\<lambda>kr. is_reg_last (snd kr)) (filter (\<lambda>kr. reg_target (snd kr) \<noteq> Some ''atlas'') (atlas_first d))"
    by (simp add: reg_order_items_eq conj_commute)
  show ?thesis
    using a c by (simp add: reg_order_def b conj_commute)
qed

text \<open>
  The claim as stated fails: in the parameter file the roles are T2FS (target
  atlas), T1, DWI. After \<^verbatim>\<open>make_serdict\<close> has put the path of the atlas in
  the place of the string \<^verbatim>\<open>atlas\<close>, the registration stage takes the roles
  in the order DWI, T1, T2FS, info: the role that targets the atlas is not
  first, and T1 and DWI are not in the order of the parameter file.
\<close>

theorem reg_order_counterexample:
  "reg_order (make_serdict ''/support/atlas.nii.gz'' ''/data/1001/dicoms'' cfg_order) =
     [''DWI'', ''T1'', ''T2FS'', ''info''] \<and>
   map fst (make_serdict ''/support/atlas.nii.gz'' ''/data/1001/dicoms'' cfg_order) =
     [''T2FS'', ''T1'', ''DWI'', ''info'']"
  by code_simp

section \<open>Properties of the registration stage\<close>






lemma map_of_update_role:
  "map_of (update_role k f d) k' =
     (if k' = k then map_option f (map_of d k) else map_of d k')"
  by (induction d) auto

lemma keys_update_role: "map fst (update_role k f d) = map fst d"
  by (induction d) auto







lemma borrow_role_frame:
  assumes "borrow_role t rep wd keys ser d w = (Inr d', w')"
  shows "d' = d \<or>
    (\<exists>r src out tr. map_of d ser = Some r \<and> reg r = Some (RegStr src) \<and> src \<in> set keys \<and>
       d' = update_role ser (\<lambda>r. r\<lparr>filename_reg := Some out, transform := Some tr\<rparr>) d)"
  using assms
  by (auto simp: borrow_role_def borrow_try_def getitem_def Let_def
           split: option.splits sum.splits if_splits prod.splits regval.splits)

lemma borrow_role_keeps:
  assumes "borrow_role t rep wd keys ser d w = (Inr d', w')"
    and "map_of d k = Some r"
    and "k \<noteq> ser \<or> \<not> (\<exists>s. reg r = Some (RegStr s) \<and> s \<in> set keys)"
  shows "map_of d' k = Some r"
  using borrow_role_frame[OF assms(1)] assms(2,3)
  by (auto simp: map_of_update_role)

lemma borrow_loop_keeps:
  assumes "borrow_loop t rep wd keys sers d w = (Inr d', w')"
    and "map_of d k = Some r"
    and "k \<notin> set sers \<or> \<not> (\<exists>s. reg r = Some (RegStr s) \<and> s \<in> set keys)"
  shows "map_of d' k = Some r"
  using assms
proof (induction sers arbitrary: d w)
  case Nil
  then show ?case by simp
next
  case (Cons ser sers)
  from Cons.prems(1) obtain d1 w1 where
    step: "borrow_role t rep wd keys ser d w = (Inr d1, w1)" and
    rest: "borrow_loop t rep wd keys sers d1 w1 = (Inr d', w')"
    by (auto split: prod.splits sum.splits)
  from Cons.prems(3) have a: "k \<noteq> ser \<or> \<not> (\<exists>s. reg r = Some (RegStr s) \<and> s \<in> set keys)"
    by auto
  from borrow_role_keeps[OF step Cons.prems(2) a] have m: "map_of d1 k = Some r" .
  from Cons.prems(3) have b: "k \<notin> set sers \<or> \<not> (\<exists>s. reg r = Some (RegStr s) \<and> s \<in> set keys)"
    by auto
  from Cons.IH[OF rest m b] show ?case .
qed


























text \<open>
  Claim C4, evaluated on the code. The same case with T1 in the mode
  \<^verbatim>\<open>rigid\<close>: the loop for \<^verbatim>\<open>rigid\<close> has no test that the files exist, the
  registration routine is called with the missing target, the registration
  engine raises, and the exception leaves \<^verbatim>\<open>reg_series\<close>: the role is not
  skipped and the remaining roles are not processed.
\<close>

theorem rigid_missing_target_not_skipped:
  "reg_outcome (reg_series tool_ex d_rigid False w_ex) = Inl ToolError \<and>
   calls_of (trace (snd (reg_series tool_ex d_rigid False w_ex))) =
     [Registration ''rigid_reg'' ''/data/1001/1001_T1.nii.gz'' ''None''
        ''/data/1001/1001_T1_2_None_'' None]"
  by code_simp

section \<open>Properties of the reuse of a transform\<close>

lemma run_tool_trace: "trace (snd (run_tool t c w)) = trace w @ [Ran c]"
  by (simp add: run_tool_def Let_def)

lemma ants_apply_pass_trace:
  assumes "ants_apply_pass t mv ref ip trs wd ib rep w = (res, w')"
  shows "\<exists>evs. trace w' = trace w @ evs \<and> filter is_registration evs = []"
  using assms
  by (auto simp: ants_apply_pass_def run_tool_def log_info_def Let_def
           split: if_splits prod.splits sum.splits)

lemma borrow_try_trace:
  assumes "borrow_try t rep wd ser src r d w = (res, w')"
  shows "\<exists>evs. trace w' = trace w @ evs \<and> filter is_registration evs = []"
proof -
  have triv: "\<exists>evs. trace w = trace w @ evs \<and> filter is_registration evs = []" by simp
  show ?thesis
    using assms triv
    by (auto simp: borrow_try_def ants_apply_str_def getitem_def Let_def
             split: option.splits sum.splits prod.splits
             dest!: ants_apply_pass_trace)
qed

lemma borrow_role_trace:
  assumes "borrow_role t rep wd keys ser d w = (res, w')"
  shows "\<exists>evs. trace w' = trace w @ evs \<and> filter is_registration evs = []"
proof -
  have triv: "\<exists>evs. trace w = trace w @ evs \<and> filter is_registration evs = []" by simp
  show ?thesis
    using assms triv
    by (auto simp: borrow_role_def getitem_def log_info_def
             split: option.splits sum.splits prod.splits regval.splits if_splits
             dest!: borrow_try_trace)
qed

lemma borrow_loop_trace:
  assumes "borrow_loop t rep wd keys sers d w = (res, w')"
  shows "\<exists>evs. trace w' = trace w @ evs \<and> filter is_registration evs = []"
  using assms
proof (induction sers arbitrary: d w)
  case Nil
  then show ?case by simp
next
  case (Cons ser sers)
  obtain r1 w1 where step: "borrow_role t rep wd keys ser d w = (r1, w1)"
    by (cases "borrow_role t rep wd keys ser d w") auto
  from borrow_role_trace[OF step] obtain evs1 where
    e1: "trace w1 = trace w @ evs1" "filter is_registration evs1 = []" by blast
  show ?case
  proof (cases r1)
    case (Inl e)
    with Cons.prems step have "w' = w1" by simp
    with e1 show ?thesis by blast
  next
    case (Inr d1)
    with Cons.prems step have "borrow_loop t rep wd keys sers d1 w1 = (res, w')" by simp
    from Cons.IH[OF this] obtain evs2 where
      "trace w' = trace w1 @ evs2" "filter is_registration evs2 = []" by blast
    with e1 have "trace w' = trace w @ (evs1 @ evs2) \<and> filter is_registration (evs1 @ evs2) = []"
      by simp
    then show ?thesis by blast
  qed
qed

lemma borrow_loop_append:
  "borrow_loop t rep wd keys (xs @ ys) d w =
     (case borrow_loop t rep wd keys xs d w of
        (Inl e, w') \<Rightarrow> (Inl e, w')
      | (Inr d', w') \<Rightarrow> borrow_loop t rep wd keys ys d' w')"
  by (induction xs arbitrary: d w) (auto split: prod.splits sum.splits)

lemma borrow_loop_split:
  assumes "sers = pre @ B # post" and "borrow_loop t rep wd keys pre d w = (Inr d0, w0)"
  shows "borrow_loop t rep wd keys sers d w = borrow_loop t rep wd keys (B # post) d0 w0"
  by (simp add: assms borrow_loop_append)

lemma ants_apply_pass_returns:
  assumes "ants_apply_pass t mv ref ip trs wd ib False w = (Inr out, w1)"
  shows "out = path_join wd (split_head (basename mv) ''.nii'' @ ''_w.nii.gz'') \<and>
         (if isfile w out
          then trace w1 = trace w @ [Info (''- Transformed image already exists at '' @ out)]
          else trace w1 = trace w @ [Info (''- Creating warped image '' @ out),
                 Ran (ApplyTransforms mv ref out ip trs (replicate (length trs) ib))])"
  using assms
  by (auto simp del: append.simps
           simp add: ants_apply_pass_def run_tool_def log_info_def Let_def
           split: if_splits prod.splits sum.splits)

lemma borrow_role_applies:
  assumes "map_of d B = Some rB" and "reg rB = Some (RegStr A)" and "A \<in> set keys"
    and "map_of d A = Some rA" and "transform rA = Some tr" and "filename_reg rA = Some tm"
    and "filename rB = Some mv"
    and "ants_apply_pass t mv tm (case interp rB of Some i \<Rightarrow> i | None \<Rightarrow> ''Linear'') [tr] wd
           rep False w = (Inr out, w1)"
  shows "borrow_role t rep wd keys B d w =
           (Inr (update_role B (\<lambda>r. r\<lparr>filename_reg := Some out, transform := Some tr\<rparr>) d), w1)"
  using assms
  by (simp del: append.simps
        add: borrow_role_def borrow_try_def ants_apply_str_def getitem_def Let_def)

lemma borrow_role_raises:
  assumes "map_of d B = Some rB" and "reg rB = Some (RegStr A)" and "A \<in> set keys"
    and "map_of d A = Some rA"
    and "transform rA = None \<or> filename_reg rA = None \<or> filename rB = None \<or>
         (\<exists>tr tm mv e w1. transform rA = Some tr \<and> filename_reg rA = Some tm \<and>
            filename rB = Some mv \<and>
            ants_apply_pass t mv tm (case interp rB of Some i \<Rightarrow> i | None \<Rightarrow> ''Linear'') [tr] wd
              rep False w = (Inl e, w1))"
  shows "\<exists>w1. borrow_role t rep wd keys B d w =
           (Inr d, log_info (''- Error attempting to apply existing transform to seies '' @ B) w1)"
  using assms
  by (auto simp del: append.simps
        simp add: borrow_role_def borrow_try_def ants_apply_str_def getitem_def Let_def
        split: option.splits)

lemma borrow_loop_trace_grows:
  assumes "borrow_loop t rep wd keys sers d w = (res, w')"
  shows "set (trace w) \<subseteq> set (trace w')"
  using borrow_loop_trace[OF assms] by auto

text \<open>
  Claim C3, as the code has it, for the last loop of \<^verbatim>\<open>reg_series\<close> with
  \<^verbatim>\<open>repeat\<close> false (\<open>d\<close> and \<open>w\<close> are the series dictionary and the
  files when the loop starts, \<open>keys\<close> the ordered keys, \<open>d0\<close> and \<open>w0\<close>
  the state that the passes before the pass for B leave). Let the \<^verbatim>\<open>reg\<close>
  entry of role B be the name of another role A, and let A not take the
  transform of a third role. The loop runs no registration and leaves A as it
  was. When A has a transform and a registered file name, B has a file name,
  and the transform application of this run returns, then after the loop the
  transform of B is the transform of A and the registered file of B is the
  output of that application, which was run on the file of B with the
  registered file of A as reference and the transform of A as only transform,
  or was found on disk and not run. When one of the three entries is missing
  or the application raises, the exception is caught, the error is logged, and
  B is after the loop as it was before.
\<close>

theorem borrow_reuses_transform:
  assumes "distinct keys" and "keys = pre @ B # post"
    and "borrow_loop t False wd keys pre d w = (Inr d0, w0)"
    and "borrow_loop t False wd keys keys d w = (Inr d', w')"
    and "map_of d B = Some rB" and "reg rB = Some (RegStr A)" and "A \<in> set keys"
    and "A \<noteq> B"
    and "map_of d A = Some rA"
    and "\<not> (\<exists>s. reg rA = Some (RegStr s) \<and> s \<in> set keys)"
  shows "map_of d' A = Some rA \<and>
         filter is_registration (trace w') = filter is_registration (trace w) \<and>
         (\<forall>tr tm mv out w1.
            transform rA = Some tr \<and> filename_reg rA = Some tm \<and> filename rB = Some mv \<and>
            ants_apply_pass t mv tm (case interp rB of Some i \<Rightarrow> i | None \<Rightarrow> ''Linear'') [tr] wd
              False False w0 = (Inr out, w1)
            \<longrightarrow> out = path_join wd (split_head (basename mv) ''.nii'' @ ''_w.nii.gz'') \<and>
                map_of d' B = Some (rB\<lparr>filename_reg := Some out, transform := Some tr\<rparr>) \<and>
                (if isfile w0 out
                 then trace w1 = trace w0 @ [Info (''- Transformed image already exists at '' @ out)]
                 else trace w1 = trace w0 @ [Info (''- Creating warped image '' @ out),
                        Ran (ApplyTransforms mv tm out
                               (case interp rB of Some i \<Rightarrow> i | None \<Rightarrow> ''Linear'') [tr] [False])])) \<and>
         (transform rA = None \<or> filename_reg rA = None \<or> filename rB = None \<or>
          (\<exists>tr tm mv e w1. transform rA = Some tr \<and> filename_reg rA = Some tm \<and>
             filename rB = Some mv \<and>
             ants_apply_pass t mv tm (case interp rB of Some i \<Rightarrow> i | None \<Rightarrow> ''Linear'') [tr] wd
               False False w0 = (Inl e, w1))
          \<longrightarrow> map_of d' B = Some rB \<and>
              Info (''- Error attempting to apply existing transform to seies '' @ B)
                \<in> set (trace w'))"
proof -
  let ?ip = "case interp rB of Some i \<Rightarrow> i | None \<Rightarrow> ''Linear''"
  let ?err = "Info (''- Error attempting to apply existing transform to seies '' @ B)"
  from assms(1,2) have nB: "B \<notin> set pre" "B \<notin> set post" by auto
  have nbA: "\<And>xs. A \<notin> set xs \<or> \<not> (\<exists>s. reg rA = Some (RegStr s) \<and> s \<in> set keys)"
    using assms(10) by simp
  \<comment> \<open>the state when the pass for B starts\<close>
  have mB0: "map_of d0 B = Some rB"
    by (rule borrow_loop_keeps[OF assms(3) assms(5)]) (simp add: nB)
  have mA0: "map_of d0 A = Some rA"
    by (rule borrow_loop_keeps[OF assms(3) assms(9) nbA])
  \<comment> \<open>the pass for B and the passes after it\<close>
  from assms(4) have "borrow_loop t False wd keys (B # post) d0 w0 = (Inr d', w')"
    by (simp only: borrow_loop_split[OF assms(2) assms(3)])
  then obtain d1 w1' where
    step: "borrow_role t False wd keys B d0 w0 = (Inr d1, w1')" and
    rest: "borrow_loop t False wd keys post d1 w1' = (Inr d', w')"
    by (auto split: prod.splits sum.splits)
  have a: "map_of d' A = Some rA"
    by (rule borrow_loop_keeps[OF assms(4) assms(9) nbA])
  from borrow_loop_trace[OF assms(4)]
  have b: "filter is_registration (trace w') = filter is_registration (trace w)"
    by auto
  have c: "out = path_join wd (split_head (basename mv) ''.nii'' @ ''_w.nii.gz'') \<and>
           map_of d' B = Some (rB\<lparr>filename_reg := Some out, transform := Some tr\<rparr>) \<and>
           (if isfile w0 out
            then trace w1 = trace w0 @ [Info (''- Transformed image already exists at '' @ out)]
            else trace w1 = trace w0 @ [Info (''- Creating warped image '' @ out),
                   Ran (ApplyTransforms mv tm out ?ip [tr] [False])])"
    if h: "transform rA = Some tr \<and> filename_reg rA = Some tm \<and> filename rB = Some mv \<and>
           ants_apply_pass t mv tm ?ip [tr] wd False False w0 = (Inr out, w1)"
    for tr tm mv out w1
  proof -
    from h have ap: "ants_apply_pass t mv tm ?ip [tr] wd False False w0 = (Inr out, w1)" by simp
    from borrow_role_applies[OF mB0 assms(6,7) mA0 _ _ _ ap] h
    have "borrow_role t False wd keys B d0 w0 =
            (Inr (update_role B (\<lambda>r. r\<lparr>filename_reg := Some out, transform := Some tr\<rparr>) d0), w1)"
      by simp
    with step have d1: "d1 = update_role B (\<lambda>r. r\<lparr>filename_reg := Some out, transform := Some tr\<rparr>) d0"
      by simp
    have "map_of d1 B = Some (rB\<lparr>filename_reg := Some out, transform := Some tr\<rparr>)"
      by (simp add: d1 map_of_update_role mB0)
    from borrow_loop_keeps[OF rest this] nB(2)
    have m: "map_of d' B = Some (rB\<lparr>filename_reg := Some out, transform := Some tr\<rparr>)" by simp
    from ants_apply_pass_returns[OF ap] m show ?thesis by simp
  qed
  have e: "map_of d' B = Some rB \<and> ?err \<in> set (trace w')"
    if h: "transform rA = None \<or> filename_reg rA = None \<or> filename rB = None \<or>
          (\<exists>tr tm mv e w1. transform rA = Some tr \<and> filename_reg rA = Some tm \<and>
             filename rB = Some mv \<and>
             ants_apply_pass t mv tm ?ip [tr] wd False False w0 = (Inl e, w1))"
  proof -
    from borrow_role_raises[OF mB0 assms(6,7) mA0 h] obtain w1 where
      "borrow_role t False wd keys B d0 w0 =
         (Inr d0, log_info (''- Error attempting to apply existing transform to seies '' @ B) w1)"
      by blast
    with step have d1: "d1 = d0" and
      w1: "w1' = log_info (''- Error attempting to apply existing transform to seies '' @ B) w1"
      by simp_all
    from borrow_loop_keeps[OF rest] mB0 d1 nB(2) have m: "map_of d' B = Some rB" by simp
    have "?err \<in> set (trace w1')" by (simp add: w1 log_info_def)
    with borrow_loop_trace_grows[OF rest] have "?err \<in> set (trace w')" by blast
    with m show ?thesis by simp
  qed
  from a b c e show ?thesis by blast
qed

lemma borrow_ex:
  "fst (ants_apply_pass tool_ex ''/data/1001/1001_T1sub.nii.gz'' ''/data/1001/1001_T1_w.nii.gz''
          ''Linear'' [''/data/1001/1001_T1_2_atlas_Composite.h5''] ''/data/1001'' False False
          w_borrow) = Inr ''/data/1001/1001_T1sub_w.nii.gz''"
  "fst (ants_apply_pass tool_ex ''/data/1001/1001_T1sub.nii.gz'' ''/data/1001/1001_T1_w.nii.gz''
          ''Linear'' [''/data/1001/1001_T1_2_atlas_Composite.h5''] ''/data/1001'' False False
          w_ex) = Inl ToolError"
  "\<not> isl (fst (borrow_loop tool_ex False ''/data/1001'' [''T1'', ''T1sub'', ''info'']
                   [''T1'', ''T1sub'', ''info''] d_borrow w_borrow))"
  "\<not> isl (fst (borrow_loop tool_ex False ''/data/1001'' [''T1'', ''T1sub'', ''info'']
                   [''T1'', ''T1sub'', ''info''] d_borrow w_ex))"
  by code_simp+

lemma borrow_ex_pre:
  "borrow_loop tool_ex False ''/data/1001'' [''T1'', ''T1sub'', ''info''] [''T1''] d_borrow w =
     (Inr d_borrow, w)"
  by (simp add: borrow_role_def getitem_def d_borrow_def empty_role_def)

theorem borrow_reuses_witness:
  "(\<exists>d' w' r. borrow_loop tool_ex False ''/data/1001'' [''T1'', ''T1sub'', ''info'']
                 [''T1'', ''T1sub'', ''info''] d_borrow w_borrow = (Inr d', w')
     \<and> map_of d' ''T1sub'' = Some r
     \<and> transform r = Some ''/data/1001/1001_T1_2_atlas_Composite.h5''
     \<and> filename_reg r = Some ''/data/1001/1001_T1sub_w.nii.gz''
     \<and> filter is_registration (trace w') = []) \<and>
   (\<exists>d' w' r. borrow_loop tool_ex False ''/data/1001'' [''T1'', ''T1sub'', ''info'']
                 [''T1'', ''T1sub'', ''info''] d_borrow w_ex = (Inr d', w')
     \<and> map_of d' ''T1sub'' = Some r
     \<and> transform r = None \<and> filename_reg r = None
     \<and> Info (''- Error attempting to apply existing transform to seies '' @ ''T1sub'')
          \<in> set (trace w'))"
proof -
  let ?K = "[''T1'', ''T1sub'', ''info'']"
  let ?rA = "empty_role\<lparr>reg := Some (RegStr ''affine''),
                          reg_target := Some ''/support/atlas.nii.gz'',
                          filename := Some ''/data/1001/1001_T1.nii.gz'',
                          filename_reg := Some ''/data/1001/1001_T1_w.nii.gz'',
                          transform := Some ''/data/1001/1001_T1_2_atlas_Composite.h5''\<rparr>"
  let ?rB = "empty_role\<lparr>reg := Some (RegStr ''T1''),
                          filename := Some ''/data/1001/1001_T1sub.nii.gz''\<rparr>"
  have k: "distinct ?K" "?K = [''T1''] @ ''T1sub'' # [''info'']" "''T1'' \<in> set ?K"
    "''T1'' \<noteq> ''T1sub''"
    by simp_all
  have mB: "map_of d_borrow ''T1sub'' = Some ?rB" by (simp add: d_borrow_def)
  have mA: "map_of d_borrow ''T1'' = Some ?rA" by (simp add: d_borrow_def)
  have rB: "reg ?rB = Some (RegStr ''T1'')" by (simp add: empty_role_def)
  have nb: "\<not> (\<exists>s. reg ?rA = Some (RegStr s) \<and> s \<in> set ?K)" by (simp add: empty_role_def)
  have ip: "(case interp ?rB of Some i \<Rightarrow> i | None \<Rightarrow> ''Linear'') = ''Linear''"
    by (simp add: empty_role_def)
  have f: "transform ?rA = Some ''/data/1001/1001_T1_2_atlas_Composite.h5''"
    "filename_reg ?rA = Some ''/data/1001/1001_T1_w.nii.gz''"
    "filename ?rB = Some ''/data/1001/1001_T1sub.nii.gz''"
    "transform ?rB = None" "filename_reg ?rB = None"
    by (simp_all add: empty_role_def)
  \<comment> \<open>the application returns\<close>
  let ?L = "borrow_loop tool_ex False ''/data/1001'' ?K ?K d_borrow w_borrow"
  let ?P = "ants_apply_pass tool_ex ''/data/1001/1001_T1sub.nii.gz'' ''/data/1001/1001_T1_w.nii.gz''
          ''Linear'' [''/data/1001/1001_T1_2_atlas_Composite.h5''] ''/data/1001'' False False
          w_borrow"
  from borrow_ex(3) obtain d' where "fst ?L = Inr d'" by (cases "fst ?L") auto
  then have rs: "?L = (Inr d', snd ?L)" by (metis prod.collapse)
  from borrow_ex(1) have ps: "?P = (Inr ''/data/1001/1001_T1sub_w.nii.gz'', snd ?P)"
    by (metis prod.collapse)
  note T = borrow_reuses_transform[OF k(1,2) borrow_ex_pre rs mB rB k(3,4) mA nb, unfolded ip]
  from T have "filter is_registration (trace (snd ?L)) = filter is_registration (trace w_borrow)"
    by blast
  then have n: "filter is_registration (trace (snd ?L)) = []" by (simp add: w_borrow_def)
  from T[THEN conjunct2, THEN conjunct2, THEN conjunct1, rule_format, OF conjI[OF f(1) conjI[OF f(2) conjI[OF f(3) ps]]]]
  have m: "map_of d' ''T1sub'' = Some (?rB\<lparr>filename_reg := Some ''/data/1001/1001_T1sub_w.nii.gz'',
            transform := Some ''/data/1001/1001_T1_2_atlas_Composite.h5''\<rparr>)"
    by blast
  have g: "transform (?rB\<lparr>filename_reg := Some ''/data/1001/1001_T1sub_w.nii.gz'',
            transform := Some ''/data/1001/1001_T1_2_atlas_Composite.h5''\<rparr>) =
             Some ''/data/1001/1001_T1_2_atlas_Composite.h5''"
          "filename_reg (?rB\<lparr>filename_reg := Some ''/data/1001/1001_T1sub_w.nii.gz'',
            transform := Some ''/data/1001/1001_T1_2_atlas_Composite.h5''\<rparr>) =
             Some ''/data/1001/1001_T1sub_w.nii.gz''"
    by simp_all
  from rs m g n have one:
    "\<exists>d' w' r. borrow_loop tool_ex False ''/data/1001'' ?K ?K d_borrow w_borrow = (Inr d', w')
     \<and> map_of d' ''T1sub'' = Some r
     \<and> transform r = Some ''/data/1001/1001_T1_2_atlas_Composite.h5''
     \<and> filename_reg r = Some ''/data/1001/1001_T1sub_w.nii.gz''
     \<and> filter is_registration (trace w') = []"
    by blast
  \<comment> \<open>the application raises\<close>
  let ?L2 = "borrow_loop tool_ex False ''/data/1001'' ?K ?K d_borrow w_ex"
  let ?P2 = "ants_apply_pass tool_ex ''/data/1001/1001_T1sub.nii.gz'' ''/data/1001/1001_T1_w.nii.gz''
          ''Linear'' [''/data/1001/1001_T1_2_atlas_Composite.h5''] ''/data/1001'' False False
          w_ex"
  from borrow_ex(4) obtain d2 where "fst ?L2 = Inr d2" by (cases "fst ?L2") auto
  then have rs2: "?L2 = (Inr d2, snd ?L2)" by (metis prod.collapse)
  from borrow_ex(2) have ps2: "?P2 = (Inl ToolError, snd ?P2)" by (metis prod.collapse)
  note T2 = borrow_reuses_transform[OF k(1,2) borrow_ex_pre rs2 mB rB k(3,4) mA nb, unfolded ip]
  from f(1,2,3) ps2 have
    "transform ?rA = None \<or> filename_reg ?rA = None \<or> filename ?rB = None \<or>
     (\<exists>tr tm mv e w1. transform ?rA = Some tr \<and> filename_reg ?rA = Some tm \<and>
        filename ?rB = Some mv \<and>
        ants_apply_pass tool_ex mv tm ''Linear'' [tr] ''/data/1001'' False False w_ex = (Inl e, w1))"
    by blast
  from T2[THEN conjunct2, THEN conjunct2, THEN conjunct2, rule_format, OF this]
  have m2: "map_of d2 ''T1sub'' = Some ?rB"
    and e2: "Info (''- Error attempting to apply existing transform to seies '' @ ''T1sub'')
               \<in> set (trace (snd ?L2))"
    by blast+
  from rs2 m2 f(4,5) e2 have two:
    "\<exists>d' w' r. borrow_loop tool_ex False ''/data/1001'' ?K ?K d_borrow w_ex = (Inr d', w')
     \<and> map_of d' ''T1sub'' = Some r
     \<and> transform r = None \<and> filename_reg r = None
     \<and> Info (''- Error attempting to apply existing transform to seies '' @ ''T1sub'')
          \<in> set (trace w')"
    by blast
  from one two show ?thesis by (rule conjI)
qed

text \<open>
  The claim as stated fails when the role whose transform is taken has none
  at that moment. Every file exists and the tools do not raise; DTI_FA has the
  mode DTI_b0 and DTI_b0 has the mode T1. The last loop reaches DTI_FA before
  DTI_b0 (the keys are sorted), finds no transform in DTI_b0, and the exception
  is caught. After the stage DTI_b0 has the transform of T1 and DTI_FA has
  neither a transform nor a registered file name.
\<close>

theorem chain_borrow_counterexample:
  "reg_outcome (reg_series tool_ex d_chain False w_chain) =
     Inr [(''T1'', Some ''/data/1001/1001_T1_w.nii.gz'',
             Some ''/data/1001/1001_T1_2_atlas_Composite.h5''),
          (''DTI_b0'', Some ''/data/1001/1001_DTI_b0_w.nii.gz'',
             Some ''/data/1001/1001_T1_2_atlas_Composite.h5''),
          (''DTI_FA'', None, None),
          (''info'', Some ''None'', Some ''None'')]"
  by code_simp

section \<open>Properties of the normalisation\<close>

lemma finite_values_map_Fin: "finite_values (map Fin rs) = Some rs"
  by (induction rs) simp_all

lemma filter_nonzero_map_Fin:
  "filter nonzero (map Fin xs) = map Fin (filter (\<lambda>x. x \<noteq> 0) xs)"
  by (induction xs) simp_all

lemma normalize_keeps_zero:
  "i < length img \<Longrightarrow> img ! i = Fin 0 \<Longrightarrow> normalize img ! i = Fin 0"
  by (simp add: normalize_def normalize_voxel_def Let_def)

lemma sum_list_shift_scale:
  "sum_list (map (\<lambda>x. (x - m) / s) rs) = (sum_list rs - real (length rs) * m) / (s::real)"
  by (induction rs) (simp_all add: field_simps add_divide_distrib diff_divide_distrib)

lemma sum_list_shift_scale_sq:
  "sum_list (map (\<lambda>x. ((x - m) / s)\<^sup>2) rs) = sum_list (map (\<lambda>x. (x - m)\<^sup>2) rs) / (s::real)\<^sup>2"
  by (induction rs) (simp_all add: power_divide add_divide_distrib)

lemma mean_normalized:
  assumes "rs \<noteq> []"
  shows "mean_of (map (\<lambda>x. (x - mean_of rs) / s) rs) = 0"
proof -
  from assms have n: "real (length rs) \<noteq> 0" by simp
  have "sum_list rs - real (length rs) * mean_of rs = 0"
    using n by (simp add: mean_of_def)
  then show ?thesis
    by (simp add: mean_of_def sum_list_shift_scale)
qed

lemma variance_normalized:
  assumes "sqrt (variance_of rs) \<noteq> 0"
  shows "variance_of (map (\<lambda>x. (x - mean_of rs) / sqrt (variance_of rs)) rs) = 1"
proof -
  let ?m = "mean_of rs" and ?s = "sqrt (variance_of rs)"
  have ne: "rs \<noteq> []"
  proof
    assume "rs = []"
    then have "variance_of rs = 0" by (simp add: variance_of_def mean_of_def)
    with assms show False by simp
  qed
  then have n: "real (length rs) \<noteq> 0" by simp
  have "0 \<le> sum_list (map (\<lambda>x. (x - mean_of rs)\<^sup>2) rs)"
    by (rule sum_list_nonneg) auto
  then have v0: "0 \<le> variance_of rs"
    by (simp add: variance_of_def mean_of_def[of "map (\<lambda>x. (x - mean_of rs)\<^sup>2) rs"])
  then have s2: "?s\<^sup>2 = variance_of rs" by simp
  from assms have vne: "variance_of rs \<noteq> 0" by auto
  have m0: "mean_of (map (\<lambda>x. (x - ?m) / ?s) rs) = 0"
    by (rule mean_normalized[OF ne])
  have "variance_of (map (\<lambda>x. (x - ?m) / ?s) rs) =
          sum_list (map (\<lambda>x. ((x - ?m) / ?s)\<^sup>2) rs) / real (length rs)"
    unfolding variance_of_def[of "map (\<lambda>x. (x - ?m) / ?s) rs"] m0
    by (simp add: mean_of_def comp_def)
  also have "\<dots> = (sum_list (map (\<lambda>x. (x - ?m)\<^sup>2) rs) / variance_of rs) / real (length rs)"
    by (simp only: sum_list_shift_scale_sq s2)
  also have "\<dots> = (sum_list (map (\<lambda>x. (x - ?m)\<^sup>2) rs) / real (length rs)) / variance_of rs"
    by simp
  also have "\<dots> = variance_of rs / variance_of rs"
    by (simp add: variance_of_def mean_of_def)
  also have "\<dots> = 1" using vne by simp
  finally show ?thesis .
qed

lemma normalize_finite:
  assumes "spec_std xs \<noteq> 0"
  shows "normalize (map Fin xs) =
           map (\<lambda>x. if x \<noteq> 0 then Fin ((x - spec_mean xs) / spec_std xs) else Fin 0) xs"
proof -
  let ?nz = "filter (\<lambda>x. x \<noteq> 0) xs"
  have ne: "?nz \<noteq> []"
  proof
    assume "?nz = []"
    then have "variance_of (nonzero_voxels xs) = 0"
      by (simp add: nonzero_voxels_def variance_of_def mean_of_def)
    with assms show False by (simp add: spec_std_def)
  qed
  have m: "np_mean (map Fin ?nz) = Fin (spec_mean xs)"
    using ne by (simp add: np_mean_def finite_values_map_Fin spec_mean_def nonzero_voxels_def)
  have s: "np_std (map Fin ?nz) = Fin (spec_std xs)"
    using ne by (simp add: np_std_def finite_values_map_Fin spec_std_def nonzero_voxels_def)
  show ?thesis
    using assms
    by (simp add: normalize_def Let_def filter_nonzero_map_Fin m s normalize_voxel_def)
qed

lemma ex_stats: "spec_mean [0, 1, 3] = 2" "spec_std [0, 1, 3] = 1"
  by (simp_all add: spec_mean_def spec_std_def nonzero_voxels_def mean_of_def variance_of_def)

lemma normalize_with_exact: "normalize_with exact_ops img = normalize img"
  by (simp add: normalize_with_def normalize_def exact_ops_def normalize_voxel_def Let_def)

lemma normalize_with_zero:
  "i < length img \<Longrightarrow> img ! i = Fin 0 \<Longrightarrow> normalize_with ops img ! i = Fin 0"
  by (simp add: normalize_with_def Let_def)

lemma normalize_with_nonzero:
  "i < length img \<Longrightarrow> nonzero (img ! i) \<Longrightarrow>
   normalize_with ops img ! i =
     op_div ops (op_sub ops (img ! i) (op_mean ops (filter nonzero img)))
       (op_std ops (filter nonzero img))"
  by (simp add: normalize_with_def Let_def)

lemma sum_list_const: "\<forall>x\<in>set rs. x = c \<Longrightarrow> sum_list rs = real (length rs) * (c::real)"
  by (induction rs) (simp_all add: algebra_simps)

lemma mean_of_const: "rs \<noteq> [] \<Longrightarrow> \<forall>x\<in>set rs. x = c \<Longrightarrow> mean_of rs = c"
  by (simp add: mean_of_def sum_list_const)

lemma sum_sq_zero_iff:
  "sum_list (map (\<lambda>x. (x - m)\<^sup>2) rs) = 0 \<longleftrightarrow> (\<forall>x\<in>set rs. x = (m::real))"
proof (induction rs)
  case Nil
  then show ?case by simp
next
  case (Cons a rs)
  have p: "0 \<le> sum_list (map (\<lambda>x. (x - m)\<^sup>2) rs)" by (rule sum_list_nonneg) auto
  have q: "0 \<le> (a - m)\<^sup>2" by simp
  have "(a - m)\<^sup>2 + sum_list (map (\<lambda>x. (x - m)\<^sup>2) rs) = 0
          \<longleftrightarrow> (a - m)\<^sup>2 = 0 \<and> sum_list (map (\<lambda>x. (x - m)\<^sup>2) rs) = 0"
    by (rule add_nonneg_eq_0_iff[OF q p])
  then show ?case using Cons.IH by auto
qed

lemma variance_zero_iff:
  "variance_of rs = 0 \<longleftrightarrow> (\<forall>x\<in>set rs. \<forall>y\<in>set rs. x = y)"
proof (cases "rs = []")
  case True
  then show ?thesis by (simp add: variance_of_def mean_of_def)
next
  case False
  then have n: "real (length rs) \<noteq> 0" by simp
  have v: "variance_of rs = 0 \<longleftrightarrow> (\<forall>x\<in>set rs. x = mean_of rs)"
    using n sum_sq_zero_iff[of "mean_of rs" rs]
    by (simp add: variance_of_def mean_of_def[of "map (\<lambda>x. (x - mean_of rs)\<^sup>2) rs"])
  show ?thesis
  proof
    assume "variance_of rs = 0"
    with v have "\<forall>x\<in>set rs. x = mean_of rs" by simp
    then show "\<forall>x\<in>set rs. \<forall>y\<in>set rs. x = y" by metis
  next
    assume e: "\<forall>x\<in>set rs. \<forall>y\<in>set rs. x = y"
    from False have h: "hd rs \<in> set rs" by simp
    with e have "\<forall>x\<in>set rs. x = hd rs" by blast
    from mean_of_const[OF False this] this v show "variance_of rs = 0" by simp
  qed
qed

lemma spec_std_zero_iff:
  "spec_std xs = 0 \<longleftrightarrow> (\<forall>x\<in>set (nonzero_voxels xs). \<forall>y\<in>set (nonzero_voxels xs). x = y)"
  by (simp add: spec_std_def variance_zero_iff)

lemma normalize_std_zero:
  assumes "spec_std xs = 0"
  shows "normalize (map Fin xs) = map (\<lambda>x. if x \<noteq> 0 then NaN else Fin 0) xs"
proof (cases "filter (\<lambda>x. x \<noteq> 0) xs = []")
  case True
  then have "\<forall>x\<in>set xs. x = 0" by (simp add: filter_empty_conv)
  then show ?thesis
    by (simp add: normalize_def Let_def normalize_voxel_def)
next
  case False
  have m: "np_mean (map Fin (filter (\<lambda>x. x \<noteq> 0) xs)) = Fin (spec_mean xs)"
    using False by (simp add: np_mean_def finite_values_map_Fin spec_mean_def nonzero_voxels_def)
  have s: "np_std (map Fin (filter (\<lambda>x. x \<noteq> 0) xs)) = Fin 0"
    using False assms
    by (simp add: np_std_def finite_values_map_Fin spec_std_def nonzero_voxels_def)
  show ?thesis
    by (simp add: normalize_def Let_def filter_nonzero_map_Fin m s normalize_voxel_def)
qed

lemma finite_values_NaN: "NaN \<in> set xs \<Longrightarrow> finite_values xs = None"
proof (induction xs)
  case Nil
  then show ?case by simp
next
  case (Cons a xs)
  then show ?case by (cases a) auto
qed

lemma normalize_nan:
  assumes "NaN \<in> set img"
  shows "normalize img = map (\<lambda>x. if nonzero x then NaN else Fin 0) img"
proof -
  from assms have "NaN \<in> set (filter nonzero img)" by simp
  then have "np_mean (filter nonzero img) = NaN"
    by (simp add: np_mean_def finite_values_NaN)
  then show ?thesis
    by (simp add: normalize_def Let_def normalize_voxel_def)
qed

text \<open>
  Claim C7, as the code has it. For every arithmetic, so also for float64:
  every voxel that is exactly zero in the input is exactly zero in the output,
  and every nonzero voxel \<open>x\<close> is mapped to \<open>(x - mean) / std\<close>, with the
  mean and the standard deviation computed over the nonzero voxels only. In
  exact arithmetic, for an image whose voxels are all finite numbers: when the
  standard deviation of the nonzero voxels is not zero, the output values at
  the positions of the nonzero input voxels have mean 0 and variance 1; when
  it is zero, every nonzero voxel is mapped to nan, and it is zero exactly
  when the nonzero voxels are all equal. An image with a nan voxel has nan at
  every nonzero position of the output.
\<close>

theorem normalize_zero_mean_unit_variance:
  "(\<forall>i<length img. img ! i = Fin 0 \<longrightarrow> normalize_with ops img ! i = Fin 0) \<and>
   (\<forall>i<length img. nonzero (img ! i) \<longrightarrow>
      normalize_with ops img ! i =
        op_div ops (op_sub ops (img ! i) (op_mean ops (filter nonzero img)))
          (op_std ops (filter nonzero img))) \<and>
   normalize_with exact_ops img = normalize img \<and>
   (\<forall>i<length img. img ! i = Fin 0 \<longrightarrow> normalize img ! i = Fin 0) \<and>
   (spec_std xs \<noteq> 0 \<longrightarrow>
      normalize (map Fin xs) =
        map (\<lambda>x. if x \<noteq> 0 then Fin ((x - spec_mean xs) / spec_std xs) else Fin 0) xs \<and>
      mean_of (spec_normalized xs) = 0 \<and>
      variance_of (spec_normalized xs) = 1) \<and>
   (spec_std ys = 0 \<longrightarrow>
      normalize (map Fin ys) = map (\<lambda>x. if x \<noteq> 0 then NaN else Fin 0) ys) \<and>
   (spec_std ys = 0 \<longleftrightarrow>
      (\<forall>x\<in>set (nonzero_voxels ys). \<forall>y\<in>set (nonzero_voxels ys). x = y)) \<and>
   (NaN \<in> set zs \<longrightarrow> normalize zs = map (\<lambda>x. if nonzero x then NaN else Fin 0) zs)"
proof -
  have a: "\<forall>i<length img. img ! i = Fin 0 \<longrightarrow> normalize_with ops img ! i = Fin 0"
    by (simp add: normalize_with_zero)
  have a2: "\<forall>i<length img. nonzero (img ! i) \<longrightarrow>
      normalize_with ops img ! i =
        op_div ops (op_sub ops (img ! i) (op_mean ops (filter nonzero img)))
          (op_std ops (filter nonzero img))"
    by (simp add: normalize_with_nonzero)
  have a3: "normalize_with exact_ops img = normalize img"
    by (rule normalize_with_exact)
  have a4: "\<forall>i<length img. img ! i = Fin 0 \<longrightarrow> normalize img ! i = Fin 0"
    by (simp add: normalize_keeps_zero)
  have b: "normalize (map Fin xs) =
        map (\<lambda>x. if x \<noteq> 0 then Fin ((x - spec_mean xs) / spec_std xs) else Fin 0) xs \<and>
      mean_of (spec_normalized xs) = 0 \<and> variance_of (spec_normalized xs) = 1"
    if h: "spec_std xs \<noteq> 0"
  proof -
    from h have s: "sqrt (variance_of (nonzero_voxels xs)) \<noteq> 0" by (simp add: spec_std_def)
    have ne: "nonzero_voxels xs \<noteq> []"
    proof
      assume "nonzero_voxels xs = []"
      then have "variance_of (nonzero_voxels xs) = 0" by (simp add: variance_of_def mean_of_def)
      with s show False by simp
    qed
    have "mean_of (spec_normalized xs) = 0 \<and> variance_of (spec_normalized xs) = 1"
      unfolding spec_normalized_def spec_mean_def spec_std_def
      using mean_normalized[OF ne] variance_normalized[OF s] by simp
    with normalize_finite[OF h] show ?thesis by simp
  qed
  have c: "spec_std ys = 0 \<longrightarrow>
      normalize (map Fin ys) = map (\<lambda>x. if x \<noteq> 0 then NaN else Fin 0) ys"
    by (simp add: normalize_std_zero)
  have d: "spec_std ys = 0 \<longleftrightarrow>
      (\<forall>x\<in>set (nonzero_voxels ys). \<forall>y\<in>set (nonzero_voxels ys). x = y)"
    by (rule spec_std_zero_iff)
  have e: "NaN \<in> set zs \<longrightarrow> normalize zs = map (\<lambda>x. if nonzero x then NaN else Fin 0) zs"
    by (simp add: normalize_nan)
  from b have b': "spec_std xs \<noteq> 0 \<longrightarrow>
      normalize (map Fin xs) =
        map (\<lambda>x. if x \<noteq> 0 then Fin ((x - spec_mean xs) / spec_std xs) else Fin 0) xs \<and>
      mean_of (spec_normalized xs) = 0 \<and>
      variance_of (spec_normalized xs) = 1" by blast
  show ?thesis
    by (intro conjI) (rule a, rule a2, rule a3, rule a4, rule b', rule c, rule d, rule e)
qed

lemma ex_stats_const: "spec_std [0, 5, 5] = 0"
  by (simp add: spec_std_def nonzero_voxels_def mean_of_def variance_of_def)

theorem normalize_witness:
  "normalize_with exact_ops [Fin 0, Fin 1, Fin 3] = [Fin 0, Fin (- 1), Fin 1] \<and>
   normalize [Fin 0, Fin 1, Fin 3] = [Fin 0, Fin (- 1), Fin 1] \<and>
   mean_of (spec_normalized [0, 1, 3]) = 0 \<and>
   variance_of (spec_normalized [0, 1, 3]) = 1 \<and>
   normalize [Fin 0, Fin 5, Fin 5] = [Fin 0, NaN, NaN] \<and>
   normalize [Fin 1, NaN, Fin 0] = [NaN, NaN, Fin 0]"
  using normalize_zero_mean_unit_variance[of "[Fin 0, Fin 1, Fin 3]" ops_any "[0, 1, 3]" "[0, 5, 5]"
          "[Fin 1, NaN, Fin 0]" for ops_any]
  by (simp add: ex_stats ex_stats_const)

text \<open>
  The claim as stated fails for the image with the voxels 0, 2, 2: the mean of
  the nonzero voxels is 2 and their standard deviation is 0, in float64 as in
  exact arithmetic, the division is 0/0, and the nonzero voxels of the output
  are nan, not numbers with mean 0 and variance 1.
\<close>

theorem normalize_constant_counterexample:
  "normalize [Fin 0, Fin 2, Fin 2] = [Fin 0, NaN, NaN]"
  by (simp add: normalize_def normalize_voxel_def np_mean_def np_std_def
        mean_of_def variance_of_def Let_def)

section \<open>Properties of the diffusion splitter\<close>

lemma bvals_max: "Max (set [0, 0, 1000, 1000 :: real]) = 1000"
  by simp

lemma bvals_b0_inds:
  "filter (\<lambda>i. [0, 0, 1000, 1000 :: real] ! i = 0) [0 ..< length [0, 0, 1000, 1000 :: real]] = [0, 1]"
  by (simp add: upt_rec)

lemma bvals_dwi_inds:
  "filter (\<lambda>i. [0, 0, 1000, 1000 :: real] ! i = 1000) [0 ..< length [0, 0, 1000, 1000 :: real]] = [2, 3]"
  by (simp add: upt_rec)

lemma np_mean_pair: "np_mean [Fin a, Fin b] = Fin ((a + b) / 2)"
  by (simp add: np_mean_def mean_of_def)

text \<open>
  Claim C8. For a 4-D diffusion image with four volumes and the b-values
  0, 0, 1000, 1000 from the bvals file, the array that \<^verbatim>\<open>split_dwi\<close> saves as
  B0 file holds at every voxel the mean of the values of the volumes 0 and 1
  (the b-value is zero), and the array it saves as DWI file holds the mean of
  the values of the volumes 2 and 3 (the b-value is the maximum); the mean of
  two finite values is half their sum.
\<close>

theorem split_dwi_means_by_bvals:
  "split_dwi_images (Array4 4 rows) (Some [0, 0, 1000, 1000]) =
     Inr (Some (map (\<lambda>v. np_mean [v ! 2, v ! 3]) rows,
                map (\<lambda>v. np_mean [v ! 0, v ! 1]) rows)) \<and>
   np_mean [Fin a, Fin b] = Fin ((a + b) / 2)"
proof -
  have "split_dwi_images (Array4 4 rows) (Some [0, 0, 1000, 1000]) =
     Inr (Some (map (\<lambda>v. np_mean [v ! 2, v ! 3]) rows,
                map (\<lambda>v. np_mean [v ! 0, v ! 1]) rows))"
    unfolding split_dwi_images_def Let_def ndarray.case option.case
      bvals_max bvals_b0_inds bvals_dwi_inds
    by (simp add: take_along_def)
  then show ?thesis by (simp add: np_mean_pair)
qed

theorem split_dwi_example:
  "split_dwi_images (Array4 4 [[Fin 1, Fin 3, Fin 5, Fin 7], [Fin 2, Fin 2, Fin 4, Fin 8]])
       (Some [0, 0, 1000, 1000]) =
     Inr (Some ([Fin 6, Fin 6], [Fin 2, Fin 2]))"
  using split_dwi_means_by_bvals[of "[[Fin 1, Fin 3, Fin 5, Fin 7], [Fin 2, Fin 2, Fin 4, Fin 8]]"]
  by (simp add: np_mean_pair)

section \<open>Properties of bias correction and normalisation as stages\<close>

lemma for_roles_append:
  "for_roles body (xs @ ys) d w =
     (case for_roles body xs d w of
        (Inl e, w') \<Rightarrow> (Inl e, w')
      | (Inr d', w') \<Rightarrow> for_roles body ys d' w')"
  by (induction xs arbitrary: d w) (auto split: prod.splits sum.splits)

lemma norm_role_frame:
  assumes "norm_role rep k d w = (Inr d', w')" and "k' \<noteq> k"
  shows "map_of d' k' = map_of d k'"
  using assms
  by (auto simp: norm_role_def getitem_def Let_def map_of_update_role
           split: option.splits sum.splits if_splits content.splits)

lemma norm_loop_frame:
  assumes "for_roles (norm_role rep) ks d w = (Inr d', w')" and "k' \<notin> set ks"
  shows "map_of d' k' = map_of d k'"
  using assms
proof (induction ks arbitrary: d w)
  case Nil
  then show ?case by simp
next
  case (Cons k ks)
  from Cons.prems(1) obtain d1 w1 where
    step: "norm_role rep k d w = (Inr d1, w1)" and
    rest: "for_roles (norm_role rep) ks d1 w1 = (Inr d', w')"
    by (auto split: prod.splits sum.splits)
  from Cons.prems(2) have "k' \<noteq> k" "k' \<notin> set ks" by auto
  with norm_role_frame[OF step] Cons.IH[OF rest] show ?case by simp
qed

lemma norm_role_keyerror:
  assumes "map_of d srs = Some r" and "bias r = Some True" and "filename_bias r = None"
  shows "norm_role rep srs d w = (Inl (KeyError ''filename_bias''), w)"
  using assms by (simp add: norm_role_def getitem_def)

lemma norm_loop_raises:
  assumes "srs \<in> set ks" and "map_of d srs = Some r"
    and "bias r = Some True" and "filename_bias r = None"
  shows "\<exists>e w'. for_roles (norm_role rep) ks d w = (Inl e, w')"
  using assms(1,2)
proof (induction ks arbitrary: d w)
  case Nil
  then show ?case by simp
next
  case (Cons k ks)
  show ?case
  proof (cases "k = srs")
    case True
    with norm_role_keyerror[OF Cons.prems(2) assms(3,4)] show ?thesis by simp
  next
    case False
    obtain res w1 where step: "norm_role rep k d w = (res, w1)"
      by (cases "norm_role rep k d w") auto
    show ?thesis
    proof (cases res)
      case (Inl e)
      with step show ?thesis by simp
    next
      case (Inr d1)
      with step have s: "norm_role rep k d w = (Inr d1, w1)" by simp
      from norm_role_frame[OF s, of srs] False Cons.prems(2)
      have m: "map_of d1 srs = Some r" by simp
      from Cons.prems(1) False have "srs \<in> set ks" by simp
      from Cons.IH[OF this m, of w1] s show ?thesis by simp
    qed
  qed
qed

lemma bias_role_skips:
  assumes "\<not> isfile w (path_join (dirname dcm_dir) (idn @ ''_'' @ srs @ ''_wm.nii.gz''))
         \<or> \<not> isfile w (path_join (dirname dcm_dir) (idn @ ''_combined_brain_mask.nii.gz''))"
    and "map_of d srs = Some r"
  shows "fst (bias_role t idn dcm_dir rep srs d w) = Inr d"
  using assms by (auto simp: bias_role_def getitem_def Let_def)

text \<open>
  Claim C10. Let a role be flagged for bias correction and have no
  \<^verbatim>\<open>filename_bias\<close> entry. That is what the bias-correction stage leaves
  when it skips the role: when the masked file or the mask does not exist, the
  pass for the role returns the series dictionary as it was. For such a role
  the pass of \<^verbatim>\<open>norm_niis\<close> raises \<^verbatim>\<open>KeyError\<close>; \<^verbatim>\<open>norm_niis\<close> as a
  whole ends with an exception, and that exception is the \<^verbatim>\<open>KeyError\<close>
  when the passes for the roles before it end normally.
\<close>

theorem skipped_bias_role_aborts_normalization:
  assumes "map_of d srs = Some r" and "bias r = Some True" and "filename_bias r = None"
  shows "(\<not> isfile w0 (path_join (dirname dcm_dir) (idn @ ''_'' @ srs @ ''_wm.nii.gz''))
            \<or> \<not> isfile w0 (path_join (dirname dcm_dir) (idn @ ''_combined_brain_mask.nii.gz''))
          \<longrightarrow> fst (bias_role t idn dcm_dir rep0 srs d w0) = Inr d) \<and>
         norm_role rep srs d w = (Inl (KeyError ''filename_bias''), w) \<and>
         (\<exists>e w'. norm_niis d rep w = (Inl e, w')) \<and>
         (\<forall>pre post d1 w1.
             map fst d = pre @ srs # post \<and> srs \<notin> set pre \<and>
             for_roles (norm_role rep) pre d (log_info ''NORMALIZING NIIs:'' w) = (Inr d1, w1)
             \<longrightarrow> norm_niis d rep w = (Inl (KeyError ''filename_bias''), w1))"
proof -
  have a: "\<not> isfile w0 (path_join (dirname dcm_dir) (idn @ ''_'' @ srs @ ''_wm.nii.gz''))
            \<or> \<not> isfile w0 (path_join (dirname dcm_dir) (idn @ ''_combined_brain_mask.nii.gz''))
          \<longrightarrow> fst (bias_role t idn dcm_dir rep0 srs d w0) = Inr d"
    using bias_role_skips[OF _ assms(1)] by blast
  have b: "norm_role rep srs d w = (Inl (KeyError ''filename_bias''), w)"
    by (rule norm_role_keyerror[OF assms])
  from assms(1) have "srs \<in> set (map fst d)"
    by (metis map_of_eq_None_iff option.distinct(1) set_map)
  from norm_loop_raises[OF this assms]
  have c: "\<exists>e w'. norm_niis d rep w = (Inl e, w')"
    by (simp add: norm_niis_def)
  have e: "norm_niis d rep w = (Inl (KeyError ''filename_bias''), w1)"
    if h: "map fst d = pre @ srs # post" "srs \<notin> set pre"
          "for_roles (norm_role rep) pre d (log_info ''NORMALIZING NIIs:'' w) = (Inr d1, w1)"
    for pre post d1 w1
  proof -
    from norm_loop_frame[OF h(3) h(2)] assms(1) have "map_of d1 srs = Some r" by simp
    from norm_role_keyerror[OF this assms(2,3)]
    have "norm_role rep srs d1 w1 = (Inl (KeyError ''filename_bias''), w1)" .
    then show ?thesis
      by (simp add: norm_niis_def h(1) for_roles_append h(3))
  qed
  from a b c e show ?thesis by blast
qed

lemma bias_skip_ex: "fst (bias_correct tool_ex d_bias False w_ex) = Inr d_bias"
  by code_simp

theorem skipped_bias_role_witness:
  "fst (bias_correct tool_ex d_bias False w_ex) = Inr d_bias \<and>
   fst (norm_niis d_bias False w_ex) = Inl (KeyError ''filename_bias'')"
proof -
  let ?r = "empty_role\<lparr>bias := Some True,
                          filename := Some ''/data/1001/1001_T1.nii.gz'',
                          filename_reg := Some ''/data/1001/1001_T1.nii.gz''\<rparr>"
  have m: "map_of d_bias ''T1'' = Some ?r" by (simp add: d_bias_def)
  have b: "bias ?r = Some True" "filename_bias ?r = None" by (simp_all add: empty_role_def)
  from skipped_bias_role_aborts_normalization[OF m b, of _ _ _ _ _ False w_ex]
  have "\<forall>pre post d1 w1.
             map fst d_bias = pre @ ''T1'' # post \<and> ''T1'' \<notin> set pre \<and>
             for_roles (norm_role False) pre d_bias (log_info ''NORMALIZING NIIs:'' w_ex) = (Inr d1, w1)
             \<longrightarrow> norm_niis d_bias False w_ex = (Inl (KeyError ''filename_bias''), w1)"
    by blast
  from this[rule_format, of "[]" "[''info'']" d_bias "log_info ''NORMALIZING NIIs:'' w_ex"]
  have "fst (norm_niis d_bias False w_ex) = Inl (KeyError ''filename_bias'')"
    by (simp add: d_bias_def)
  with bias_skip_ex show ?thesis by simp
qed

section \<open>Properties of repeated runs\<close>

lemma all_roles_iff: "all_roles P d \<longleftrightarrow> (\<forall>k r. map_of d k = Some r \<longrightarrow> P k r)"
proof
  assume a: "all_roles P d"
  show "\<forall>k r. map_of d k = Some r \<longrightarrow> P k r"
  proof (intro allI impI)
    fix k r
    assume m: "map_of d k = Some r"
    then have "k \<in> set (map fst d)" by (metis map_of_eq_None_iff option.distinct(1) set_map)
    with a m show "P k r" by (auto simp: all_roles_def list_all_iff)
  qed
next
  assume "\<forall>k r. map_of d k = Some r \<longrightarrow> P k r"
  then show "all_roles P d"
    by (auto simp: all_roles_def list_all_iff split: option.splits)
qed

lemma all_roles_update:
  assumes "all_roles P d" and "\<And>k' r. P k' r \<Longrightarrow> P k' (f r)"
  shows "all_roles P (update_role k f d)"
  unfolding all_roles_iff
proof (intro allI impI)
  fix k' r'
  assume "map_of (update_role k f d) k' = Some r'"
  then obtain r where "map_of d k' = Some r" "r' = r \<or> r' = f r"
    by (auto simp: map_of_update_role split: if_splits)
  with assms show "P k' r'" by (auto simp: all_roles_iff)
qed

lemma calls_of_append: "calls_of (xs @ ys) = calls_of xs @ calls_of ys"
  by (induction xs rule: calls_of.induct) simp_all

lemma same_files_refl: "same_files w w"
  by (simp add: same_files_def)

lemma same_files_log: "same_files w0 w \<Longrightarrow> same_files w0 (log_info msg w)"
  by (simp add: same_files_def log_info_def calls_of_append)

lemma same_files_warning: "same_files w0 w \<Longrightarrow> same_files w0 (log_warning msg w)"
  by (simp add: same_files_def log_warning_def calls_of_append)

lemma same_files_isfile: "same_files w0 w \<Longrightarrow> isfile w p = isfile w0 p"
  by (simp add: same_files_def isfile_def)

lemma isfile_log: "isfile (log_info msg w) p = isfile w p"
  by (simp add: isfile_def log_info_def)

lemma for_roles_same_files:
  assumes "\<And>k d w. k \<in> set ks \<Longrightarrow> I d \<Longrightarrow> same_files w0 w \<Longrightarrow>
             same_files w0 (snd (body k d w)) \<and> (\<forall>d'. fst (body k d w) = Inr d' \<longrightarrow> I d')"
    and "I d" and "same_files w0 w"
  shows "same_files w0 (snd (for_roles body ks d w))"
  using assms
proof (induction ks arbitrary: d w)
  case Nil
  then show ?case by simp
next
  case (Cons k ks)
  obtain res w1 where b: "body k d w = (res, w1)" by (cases "body k d w") auto
  from Cons.prems(1)[of k d w] Cons.prems(2,3) b
  have s: "same_files w0 w1" and i: "\<forall>d'. res = Inr d' \<longrightarrow> I d'" by simp_all
  show ?case
  proof (cases res)
    case (Inl e)
    with b s show ?thesis by simp
  next
    case (Inr d1)
    with i have "I d1" by simp
    have "same_files w0 (snd (for_roles body ks d1 w1))"
      by (rule Cons.IH[OF _ \<open>I d1\<close> s]) (rule Cons.prems(1), simp_all)
    with b Inr show ?thesis by simp
  qed
qed

text \<open>Series list\<close>

lemma get_series_cached:
  "isfile w (series_file_of dd) \<Longrightarrow> get_series_save dd manifest False w = w"
  by (simp add: get_series_save_def)

lemma get_series_twice:
  "get_series_save dd manifest False (get_series_save dd manifest rep w) =
     get_series_save dd manifest rep w"
  by (simp add: get_series_save_def isfile_def)

text \<open>Conversion\<close>

lemma convert_else_cached:
  assumes "isfile w (outfilepath_of idn dd ser)"
  shows "convert_else t idn dd False ser r dcms w =
           (Inr (), log_info (''- '' @ idn @ ''_'' @ ser @
                              '' already exists and will not be overwritten'') w)"
  using assms by (simp add: convert_else_def Let_def isfile_log)

lemma convert_role_cached:
  assumes "isfile w (outfilepath_of idn dd ser)"
    and "map_of d ser = Some r" and "dicoms r = Some dcms"
  shows "convert_role t idn dd False ser d w =
           (Inr (update_role ser (\<lambda>r. r\<lparr>filename := Some (outfilepath_of idn dd ser)\<rparr>) d),
            log_info (''- '' @ idn @ ''_'' @ ser @
                      '' already exists and will not be overwritten'') w)"
  using assms
  by (simp add: convert_role_def getitem_def Let_def convert_else_cached isfile_log)

lemma convert_role_step:
  assumes "all_converted w0 idn dd d" and "same_files w0 w"
  shows "same_files w0 (snd (convert_role t idn dd False k d w)) \<and>
         (\<forall>d'. fst (convert_role t idn dd False k d w) = Inr d' \<longrightarrow> all_converted w0 idn dd d')"
proof (cases "map_of d k")
  case None
  with assms show ?thesis by (simp add: convert_role_def getitem_def)
next
  case (Some r)
  show ?thesis
  proof (cases "dicoms r")
    case None
    with Some assms show ?thesis by (simp add: convert_role_def getitem_def)
  next
    case (Some dcms)
    from assms(1) \<open>map_of d k = Some r\<close> Some have "isfile w0 (outfilepath_of idn dd k)"
      by (simp add: all_converted_def all_roles_iff)
    with assms(2) have f: "isfile w (outfilepath_of idn dd k)"
      by (simp add: same_files_isfile)
    have c: "all_converted w0 idn dd
               (update_role k (\<lambda>r. r\<lparr>filename := Some (outfilepath_of idn dd k)\<rparr>) d)"
      unfolding all_converted_def
      by (rule all_roles_update[OF assms(1)[unfolded all_converted_def]]) simp
    from convert_role_cached[OF f \<open>map_of d k = Some r\<close> Some] c assms(2)
    show ?thesis by (simp add: same_files_log)
  qed
qed

lemma dcm_list_2_niis_cached:
  assumes "info_id d = Inr idn" and "all_converted w idn dd d"
  shows "same_files w (snd (dcm_list_2_niis t d dd False w))"
proof -
  have "same_files w (snd (for_roles (convert_role t idn dd False) (map fst d) d
                             (log_info ''CONVERTING FILES:'' w)))"
    by (rule for_roles_same_files[where I = "all_converted w idn dd"])
       (simp_all add: convert_role_step assms(2) same_files_log same_files_refl)
  with assms(1) show ?thesis by (simp add: dcm_list_2_niis_def)
qed

text \<open>Registration\<close>

lemma registration_cached:
  assumes "isfile w (transform_of wd mv tm)"
  shows "registration routine t mv tm wd opt False w =
           (Inr (transform_of wd mv tm),
            log_info (''- Warp file already exists at '' @ transform_of wd mv tm) w)"
  using assms by (simp add: registration_def transform_of_def Let_def)

lemma ants_apply_pass_cached:
  assumes "isfile w (warped_of wd mv)"
  shows "ants_apply_pass t mv ref ip trs wd ib False w =
           (Inr (warped_of wd mv),
            log_info (''- Transformed image already exists at '' @ warped_of wd mv) w)"
  using assms by (simp add: ants_apply_pass_def warped_of_def Let_def)

lemma ants_apply_cached:
  assumes "\<forall>mv\<in>set mvs. isfile w0 (warped_of wd mv)" and "same_files w0 w"
  shows "fst (ants_apply t mvs ref ip trs wd ib False w) = Inr (map (warped_of wd) mvs) \<and>
         same_files w0 (snd (ants_apply t mvs ref ip trs wd ib False w))"
  using assms
proof (induction mvs arbitrary: w)
  case Nil
  then show ?case by simp
next
  case (Cons mv mvs)
  from Cons.prems have f: "isfile w (warped_of wd mv)"
    by (simp add: same_files_isfile)
  let ?w1 = "log_info (''- Transformed image already exists at '' @ warped_of wd mv) w"
  from Cons.prems(2) have s: "same_files w0 ?w1" by (rule same_files_log)
  from Cons.prems(1) have "\<forall>mv\<in>set mvs. isfile w0 (warped_of wd mv)" by simp
  from Cons.IH[OF this s]
  obtain w2 where r: "ants_apply t mvs ref ip trs wd ib False ?w1 = (Inr (map (warped_of wd) mvs), w2)"
    and s2: "same_files w0 w2"
    by (cases "ants_apply t mvs ref ip trs wd ib False ?w1") auto
  show ?case
    by (simp del: append.simps add: ants_apply_pass_cached[OF f] r s2)
qed

lemma geom_role_cached:
  assumes "map_of d ser = Some r" and "reg r = Some (RegStr mode)"
    and "resolve_template w d r = Inr tm" and "filename r = Some mva"
    and "isfile w (transform_of wd (case reg_moving r of Some m \<Rightarrow> m | None \<Rightarrow> mva) tm)"
    and "isfile w (warped_of wd mva)"
  shows "same_files w (snd (geom_role t mode routine guarded False wd ser d w))"
proof -
  let ?mvr = "case reg_moving r of Some m \<Rightarrow> m | None \<Rightarrow> mva"
  let ?w1 = "log_info (''- Warp file already exists at '' @ transform_of wd ?mvr tm) w"
  have a: "isfile ?w1 (warped_of wd mva)" using assms(6) by (simp add: isfile_log)
  have s: "same_files w (log_info (''- Transformed image already exists at '' @ warped_of wd mva) ?w1)"
    by (intro same_files_log same_files_refl)
  show ?thesis
    unfolding geom_role_def
    using assms(1-4) s
    by (simp del: append.simps
          add: getitem_def Let_def registration_cached[OF assms(5)] ants_apply_str_def
          ants_apply_pass_cached[OF a] same_files_refl)
qed

text \<open>Masking\<close>

lemma cnn_mask_cached:
  assumes "isfile w mask_file"
  shows "cnn_mask t mask_file dd rep w =
           (Inr (), log_info (''- Breast mask already exists at '' @ mask_file) w)"
  using assms by (simp add: cnn_mask_def)

lemma mask_role_cached:
  assumes "map_of d sers = Some r" and "filename_reg r = Some fr"
    and "isfile w (ser_masked_of fr)"
  shows "mask_role t mask_file False sers d w =
           (Inr (update_role sers (\<lambda>r. r\<lparr>filename_masked := Some (ser_masked_of fr)\<rparr>) d),
            log_info (''- Masked file already exists for '' @ sers @ '' at '' @
                      ser_masked_of fr) w)"
  using assms by (simp add: mask_role_def getitem_def)

lemma all_masked_update:
  assumes "all_masked w0 d"
  shows "all_masked w0 (update_role k (\<lambda>r. r\<lparr>filename_masked := v\<rparr>) d)"
  unfolding all_masked_def
  by (rule all_roles_update[OF assms[unfolded all_masked_def]]) simp

lemma mask_role_step:
  assumes "all_masked w0 d" and "same_files w0 w"
  shows "same_files w0 (snd (mask_role t mask_file False k d w)) \<and>
         (\<forall>d'. fst (mask_role t mask_file False k d w) = Inr d' \<longrightarrow> all_masked w0 d')"
proof (cases "map_of d k")
  case None
  with assms show ?thesis by (simp add: mask_role_def getitem_def)
next
  case (Some r)
  show ?thesis
  proof (cases "filename_reg r")
    case None
    with Some assms show ?thesis by (simp add: mask_role_def getitem_def same_files_log)
  next
    case (Some fr)
    show ?thesis
    proof (cases "isfile w0 (ser_masked_of fr)")
      case True
      with assms(2) have f: "isfile w (ser_masked_of fr)" by (simp add: same_files_isfile)
      from mask_role_cached[OF \<open>map_of d k = Some r\<close> Some f] assms
      show ?thesis by (simp add: same_files_log all_masked_update)
    next
      case False
      with assms(1) \<open>map_of d k = Some r\<close> Some have "\<not> isfile w0 fr"
        by (fastforce simp: all_masked_def all_roles_iff)
      with False assms(2) have "\<not> isfile w (ser_masked_of fr)" "\<not> isfile w fr"
        by (simp_all add: same_files_isfile)
      with \<open>map_of d k = Some r\<close> Some assms
      show ?thesis by (simp add: mask_role_def getitem_def same_files_log)
    qed
  qed
qed

lemma breast_mask_cached:
  assumes "info_id d = Inr idn" and "info_dcmdir d = Inr dd"
    and "isfile w (path_join (dirname dd) (idn @ ''_breast_mask.nii.gz''))"
    and "all_masked w d"
  shows "same_files w (snd (breast_mask t d False w))"
proof -
  let ?mf = "path_join (dirname dd) (idn @ ''_breast_mask.nii.gz'')"
  let ?w = "log_info ''BREAST MASKING:'' w"
  let ?w1 = "log_info (''- Breast mask already exists at '' @ ?mf) ?w"
  have m: "isfile ?w ?mf" "isfile ?w1 ?mf" using assms(3) by (simp_all add: isfile_log)
  have s: "same_files w ?w1" by (intro same_files_log same_files_refl)
  have l: "same_files w (snd (for_roles (mask_role t ?mf False) (map fst d) d ?w1))"
    by (rule for_roles_same_files[where I = "all_masked w", OF _ assms(4) s])
       (simp add: mask_role_step)
  have n: "same_files w (log_warning msg ?w)" for msg
    by (intro same_files_warning same_files_log same_files_refl)
  show ?thesis
    unfolding breast_mask_def
    using l n m(2)
    by (simp del: append.simps add: assms(1,2) Let_def cnn_mask_cached[OF m(1)])
qed

text \<open>Bias correction\<close>

lemma bias_role_cached:
  assumes "map_of d srs = Some r" and "bias r = Some True"
    and "isfile w (wm_of idn dd srs)" and "isfile w (brain_mask_of idn dd)"
    and "isfile w (truncated_of (wm_of idn dd srs))"
    and "isfile w (biasimg_of (wm_of idn dd srs))"
  shows "bias_role t idn dd False srs d w =
           (Inr (update_role srs
                   (\<lambda>r. r\<lparr>filename_bias := Some (biasimg_of (wm_of idn dd srs))\<rparr>) d),
            log_info (''- Bias corrected image already exists at '' @
                      biasimg_of (wm_of idn dd srs))
              (log_info (''- Truncated image already exists at '' @
                         truncated_of (wm_of idn dd srs)) w))"
  using assms
  unfolding bias_role_def wm_of_def brain_mask_of_def truncated_of_def biasimg_of_def
  by (simp add: getitem_def Let_def isfile_log)

lemma bias_role_step:
  assumes "all_bias_corrected w0 idn dd d" and "same_files w0 w"
  shows "same_files w0 (snd (bias_role t idn dd False k d w)) \<and>
         (\<forall>d'. fst (bias_role t idn dd False k d w) = Inr d' \<longrightarrow> all_bias_corrected w0 idn dd d')"
proof (cases "map_of d k")
  case None
  with assms show ?thesis by (simp add: bias_role_def getitem_def)
next
  case (Some r)
  show ?thesis
  proof (cases "bias r = Some True \<and> isfile w0 (wm_of idn dd k) \<and> isfile w0 (brain_mask_of idn dd)")
    case True
    with assms(1) Some
    have "isfile w0 (truncated_of (wm_of idn dd k))" "isfile w0 (biasimg_of (wm_of idn dd k))"
      by (simp_all add: all_bias_corrected_def all_roles_iff)
    with True assms(2)
    have f: "isfile w (wm_of idn dd k)" "isfile w (brain_mask_of idn dd)"
      "isfile w (truncated_of (wm_of idn dd k))" "isfile w (biasimg_of (wm_of idn dd k))"
      by (simp_all add: same_files_isfile)
    from True have b: "bias r = Some True" by simp
    have c: "all_bias_corrected w0 idn dd (update_role k (\<lambda>r. r\<lparr>filename_bias := v\<rparr>) d)" for v
      unfolding all_bias_corrected_def
      by (rule all_roles_update[OF assms(1)[unfolded all_bias_corrected_def]]) simp
    from bias_role_cached[OF Some b f] c assms(2)
    show ?thesis by (simp del: append.simps add: same_files_log)
  next
    case False
    with assms(2)
    have "bias r \<noteq> Some True \<or> \<not> isfile w (wm_of idn dd k) \<or> \<not> isfile w (brain_mask_of idn dd)"
      by (simp add: same_files_isfile)
    with Some assms show ?thesis
      unfolding bias_role_def wm_of_def brain_mask_of_def
      by (auto simp del: append.simps simp add: getitem_def Let_def same_files_log)
  qed
qed

lemma bias_correct_cached:
  assumes "info_id d = Inr idn" and "info_dcmdir d = Inr dd"
    and "all_bias_corrected w idn dd d"
  shows "same_files w (snd (bias_correct t d False w))"
proof -
  have s: "same_files w (log_info ''BIAS CORRECTING IMAGES:'' w)"
    by (intro same_files_log same_files_refl)
  have "same_files w (snd (for_roles (bias_role t idn dd False) (map fst d) d
                             (log_info ''BIAS CORRECTING IMAGES:'' w)))"
    by (rule for_roles_same_files[where I = "all_bias_corrected w idn dd", OF _ assms(3) s])
       (simp add: bias_role_step)
  then show ?thesis by (simp del: append.simps add: bias_correct_def assms(1,2))
qed

text \<open>Normalisation\<close>

lemma norm_role_cached:
  assumes "map_of d srs = Some r" and "bias r = Some True"
    and "filename_bias r = Some fn" and "isfile w (normname_of fn)"
  shows "norm_role False srs d w =
           (Inr (update_role srs (\<lambda>r. r\<lparr>filename_norm := Some (normname_of fn)\<rparr>) d),
            log_info (''- Normalized '' @ srs @ '' already exists at '' @ normname_of fn) w)"
  using assms by (simp add: norm_role_def getitem_def)

lemma norm_role_step:
  assumes "all_normalized w0 d" and "same_files w0 w"
  shows "same_files w0 (snd (norm_role False k d w)) \<and>
         (\<forall>d'. fst (norm_role False k d w) = Inr d' \<longrightarrow> all_normalized w0 d')"
proof (cases "map_of d k")
  case None
  with assms show ?thesis by (simp add: norm_role_def getitem_def)
next
  case (Some r)
  show ?thesis
  proof (cases "bias r = Some True")
    case False
    with Some assms show ?thesis by (simp add: norm_role_def getitem_def)
  next
    case True
    show ?thesis
    proof (cases "filename_bias r")
      case None
      with Some True assms show ?thesis by (simp add: norm_role_def getitem_def)
    next
      case (Some fn)
      with assms(1) \<open>map_of d k = Some r\<close> True have "isfile w0 (normname_of fn)"
        by (fastforce simp: all_normalized_def all_roles_iff)
      with assms(2) have f: "isfile w (normname_of fn)" by (simp add: same_files_isfile)
      have c: "all_normalized w0 (update_role k (\<lambda>r. r\<lparr>filename_norm := v\<rparr>) d)" for v
        unfolding all_normalized_def
        by (rule all_roles_update[OF assms(1)[unfolded all_normalized_def]]) simp
      from norm_role_cached[OF \<open>map_of d k = Some r\<close> True Some f] c assms(2)
      show ?thesis by (simp del: append.simps add: same_files_log)
    qed
  qed
qed

lemma norm_niis_cached:
  assumes "all_normalized w d"
  shows "same_files w (snd (norm_niis d False w))"
proof -
  have s: "same_files w (log_info ''NORMALIZING NIIs:'' w)"
    by (intro same_files_log same_files_refl)
  show ?thesis
    unfolding norm_niis_def
    by (rule for_roles_same_files[where I = "all_normalized w", OF _ assms s])
       (simp add: norm_role_step)
qed

text \<open>4-D volume and case record\<close>

lemma foldl_log_same_files:
  assumes "\<And>w x. same_files w0 w \<Longrightarrow> same_files w0 (f w x)" and "same_files w0 w"
  shows "same_files w0 (foldl f w xs)"
  using assms(2) by (induction xs arbitrary: w) (simp_all add: assms(1))

lemma nii4d_list_same_files:
  "same_files w0 w \<Longrightarrow>
   same_files w0 (case filename_norm (snd kr) of None \<Rightarrow> w
                  | Some f \<Rightarrow> log_info (''- Adding '' @ fst kr @ '' to nii4D list at '' @ f) w)"
  by (simp del: append.simps add: same_files_log split: option.splits)

lemma make_nii4d_cached:
  assumes "info_id d = Inr idn" and "isfile w (nii4d_of idn d)"
  shows "same_files w (snd (make_nii4d t d False w)) \<and> fst (make_nii4d t d False w) = Inr d"
proof -
  let ?w = "log_info ''MAKING 4D NII:'' w"
  let ?w1 = "foldl (\<lambda>w kr. case filename_norm (snd kr) of None \<Rightarrow> w
                          | Some f \<Rightarrow> log_info (''- Adding '' @ fst kr @
                                                   '' to nii4D list at '' @ f) w) ?w d"
  have s: "same_files w ?w1"
    by (rule foldl_log_same_files) (simp_all only: nii4d_list_same_files same_files_log same_files_refl)
  with assms(2) have f: "isfile ?w1 (nii4d_of idn d)" by (simp only: same_files_isfile)
  have l: "same_files w (log_info msg ?w1)" for msg by (rule same_files_log[OF s])
  show ?thesis
    unfolding make_nii4d_def Let_def
    using f l by (simp del: append.simps foldl_Cons foldl_Nil add: assms(1))
qed

lemma print_series_dict_cached:
  assumes "info_dcmdir d = Inr dd" and "info_id d = Inr idn"
    and "isfile w (path_join (dirname dd) (idn @ ''_metadata.npy''))"
    and "isfile w (path_join (dirname dd) (idn @ ''_metadata_HR.txt''))"
  shows "print_series_dict t d False w = (Inr d, w)"
  using assms by (simp add: print_series_dict_def Let_def)

text \<open>A second run\<close>

lemma norm_role_grows:
  assumes "norm_role rep k d w = (res, w')" and "isfile w p"
  shows "isfile w' p"
  using assms
  by (auto simp: norm_role_def getitem_def Let_def isfile_def log_info_def
           split: option.splits if_splits content.splits)

lemma norm_role_writes:
  assumes "norm_role False k d w = (Inr d', w')" and "map_of d k = Some r"
    and "bias r = Some True" and "filename_bias r = Some fn"
  shows "isfile w' (normname_of fn)"
  using assms
  by (auto simp: norm_role_def getitem_def Let_def isfile_def log_info_def
           split: option.splits if_splits content.splits)

lemma norm_role_inputs:
  assumes "norm_role rep k d w = (Inr d', w')" and "map_of d k' = Some r"
  shows "\<exists>r'. map_of d' k' = Some r' \<and> bias r' = bias r \<and> filename_bias r' = filename_bias r"
  using assms
  by (auto simp: norm_role_def getitem_def Let_def map_of_update_role
           split: option.splits if_splits content.splits)

lemma norm_role_inputs_back:
  assumes "norm_role rep k d w = (Inr d', w')" and "map_of d' k' = Some r'"
  shows "\<exists>r. map_of d k' = Some r \<and> bias r' = bias r \<and> filename_bias r' = filename_bias r"
  using assms
  by (auto simp: norm_role_def getitem_def Let_def map_of_update_role
           split: option.splits if_splits content.splits)

lemma norm_loop_grows:
  assumes "for_roles (norm_role rep) ks d w = (res, w1)" and "isfile w p"
  shows "isfile w1 p"
  using assms
proof (induction ks arbitrary: d w)
  case Nil
  then show ?case by simp
next
  case (Cons k ks)
  obtain r0 w0 where b: "norm_role rep k d w = (r0, w0)" by (cases "norm_role rep k d w") auto
  from norm_role_grows[OF b Cons.prems(2)] have g: "isfile w0 p" .
  show ?case
  proof (cases r0)
    case (Inl e)
    with b Cons.prems(1) g show ?thesis by simp
  next
    case (Inr d0)
    with b Cons.prems(1) have "for_roles (norm_role rep) ks d0 w0 = (res, w1)" by simp
    from Cons.IH[OF this g] show ?thesis .
  qed
qed

lemma norm_loop_writes:
  assumes "for_roles (norm_role False) ks d w = (Inr d1, w1)"
    and "k \<in> set ks"
    and "\<exists>r. map_of d k = Some r \<and> bias r = Some True \<and> filename_bias r = Some fn"
  shows "isfile w1 (normname_of fn)"
  using assms
proof (induction ks arbitrary: d w)
  case Nil
  then show ?case by simp
next
  case (Cons k0 ks)
  from Cons.prems(1) obtain d0 w0 where
    step: "norm_role False k0 d w = (Inr d0, w0)" and
    rest: "for_roles (norm_role False) ks d0 w0 = (Inr d1, w1)"
    by (auto split: prod.splits sum.splits)
  from Cons.prems(3) obtain r where
    r: "map_of d k = Some r" "bias r = Some True" "filename_bias r = Some fn" by blast
  show ?case
  proof (cases "k = k0")
    case True
    with r(1) have "map_of d k0 = Some r" by simp
    from norm_role_writes[OF step this r(2,3)]
    have "isfile w0 (normname_of fn)" .
    from norm_loop_grows[OF rest this] show ?thesis .
  next
    case False
    with Cons.prems(2) have m: "k \<in> set ks" by simp
    from norm_role_inputs[OF step r(1)] r(2,3)
    have "\<exists>r'. map_of d0 k = Some r' \<and> bias r' = Some True \<and> filename_bias r' = Some fn"
      by auto
    from Cons.IH[OF rest m this] show ?thesis .
  qed
qed

lemma norm_niis_twice:
  assumes "norm_niis d False w = (Inr d1, w1)"
  shows "same_files w1 (snd (norm_niis d False w1))"
proof -
  from assms have run:
    "for_roles (norm_role False) (map fst d) d (log_info ''NORMALIZING NIIs:'' w) = (Inr d1, w1)"
    by (simp add: norm_niis_def)
  have "all_normalized w1 d"
    unfolding all_normalized_def all_roles_iff
  proof (intro allI impI)
    fix k r
    assume m: "map_of d k = Some r" and b: "bias r = Some True"
    from m have k: "k \<in> set (map fst d)"
      by (metis map_of_eq_None_iff option.distinct(1) set_map)
    show "case filename_bias r of None \<Rightarrow> True | Some fn \<Rightarrow> isfile w1 (normname_of fn)"
    proof (cases "filename_bias r")
      case None
      then show ?thesis by simp
    next
      case (Some fn)
      from norm_loop_writes[OF run k] m b Some show ?thesis by simp
    qed
  qed
  then show ?thesis by (rule norm_niis_cached)
qed

lemma ants_apply_pass_grows:
  assumes "\<forall>c fs p. fs p \<noteq> None \<longrightarrow> snd (t c fs) p \<noteq> None"
    and "ants_apply_pass t mv ref ip trs wd ib rep w = (res, w')" and "isfile w p"
  shows "isfile w' p"
  using assms(2,3) assms(1)[rule_format, of "files w" p]
  by (auto simp: ants_apply_pass_def run_tool_def Let_def isfile_def log_info_def
           split: if_splits prod.splits sum.splits)

lemma ants_apply_pass_writes:
  assumes "\<forall>mv ref out ip trs invs fs.
             fst (t (ApplyTransforms mv ref out ip trs invs) fs)
             \<longrightarrow> snd (t (ApplyTransforms mv ref out ip trs invs) fs) out \<noteq> None"
    and "ants_apply_pass t mv ref ip trs wd ib False w = (Inr out, w')"
  shows "out = warped_of wd mv \<and> isfile w' (warped_of wd mv)"
  using assms(2)
    assms(1)[rule_format, of mv ref "warped_of wd mv" ip trs
               "replicate (length trs) ib" "files w"]
  by (auto simp: ants_apply_pass_def run_tool_def Let_def isfile_def log_info_def warped_of_def
           split: if_splits prod.splits sum.splits)

lemma ants_apply_grows:
  assumes "\<forall>c fs p. fs p \<noteq> None \<longrightarrow> snd (t c fs) p \<noteq> None"
    and "ants_apply t mvs ref ip trs wd ib rep w = (res, w')" and "isfile w p"
  shows "isfile w' p"
  using assms(2,3)
proof (induction mvs arbitrary: w res w')
  case Nil
  then show ?case by simp
next
  case (Cons mv mvs)
  obtain r0 w0 where b: "ants_apply_pass t mv ref ip trs wd ib rep w = (r0, w0)"
    by (cases "ants_apply_pass t mv ref ip trs wd ib rep w") auto
  from ants_apply_pass_grows[OF assms(1) b Cons.prems(2)] have g: "isfile w0 p" .
  show ?case
  proof (cases r0)
    case (Inl e)
    with b Cons.prems(1) g show ?thesis by simp
  next
    case (Inr out)
    obtain r1 w1 where c: "ants_apply t mvs ref ip trs wd ib rep w0 = (r1, w1)"
      by (cases "ants_apply t mvs ref ip trs wd ib rep w0") auto
    from Cons.IH[OF c g] have "isfile w1 p" .
    with b c Inr Cons.prems(1) show ?thesis by (auto split: sum.splits)
  qed
qed

lemma ants_apply_writes:
  assumes "\<forall>c fs p. fs p \<noteq> None \<longrightarrow> snd (t c fs) p \<noteq> None"
    and "\<forall>mv ref out ip trs invs fs.
             fst (t (ApplyTransforms mv ref out ip trs invs) fs)
             \<longrightarrow> snd (t (ApplyTransforms mv ref out ip trs invs) fs) out \<noteq> None"
    and "ants_apply t mvs ref ip trs wd ib False w = (Inr outs, w')"
  shows "outs = map (warped_of wd) mvs \<and> (\<forall>mv\<in>set mvs. isfile w' (warped_of wd mv))"
  using assms(3)
proof (induction mvs arbitrary: w outs)
  case Nil
  then show ?case by simp
next
  case (Cons mv mvs)
  from Cons.prems obtain out w0 outs0 where
    step: "ants_apply_pass t mv ref ip trs wd ib False w = (Inr out, w0)" and
    rest: "ants_apply t mvs ref ip trs wd ib False w0 = (Inr outs0, w')" and
    o: "outs = out # outs0"
    by (auto split: prod.splits sum.splits)
  from ants_apply_pass_writes[OF assms(2) step]
  have a: "out = warped_of wd mv" "isfile w0 (warped_of wd mv)" by simp_all
  from ants_apply_grows[OF assms(1) rest a(2)] have "isfile w' (warped_of wd mv)" .
  with Cons.IH[OF rest] a(1) o show ?case by simp
qed

lemma ants_apply_twice:
  assumes "\<forall>c fs p. fs p \<noteq> None \<longrightarrow> snd (t c fs) p \<noteq> None"
    and "\<forall>mv ref out ip trs invs fs.
             fst (t (ApplyTransforms mv ref out ip trs invs) fs)
             \<longrightarrow> snd (t (ApplyTransforms mv ref out ip trs invs) fs) out \<noteq> None"
    and "ants_apply t mvs ref ip trs wd ib False w = (Inr outs, w1)"
  shows "fst (ants_apply t mvs ref ip trs wd ib False w1) = Inr outs \<and>
         same_files w1 (snd (ants_apply t mvs ref ip trs wd ib False w1))"
proof -
  from ants_apply_writes[OF assms]
  have o: "outs = map (warped_of wd) mvs" and f: "\<forall>mv\<in>set mvs. isfile w1 (warped_of wd mv)"
    by simp_all
  from ants_apply_cached[OF f same_files_refl] o show ?thesis by simp
qed

text \<open>
  Claim C9, as the code has it, with \<^verbatim>\<open>repeat\<close> false. A run changes no
  files when the files after it are the files before it and it has run no
  tool (\<open>same_files\<close>; the log is not one of the files). Every stage tests
  for its expected output before it works, and when the output exists it
  writes nothing for it: the series list of \<^verbatim>\<open>get_series\<close> and the two
  records of \<^verbatim>\<open>print_series_dict\<close> are passed over without a log entry;
  the conversion, the registration routines, the transform application, the
  mask inference, the masking, the truncation and the bias correction, the
  normalisation and the 4-D merge log that the output exists and go on. For
  the stages that loop over the roles (conversion, masking, bias correction,
  normalisation) and for the transform application the whole stage changes no
  files when every expected output is in place. A second run of
  \<^verbatim>\<open>get_series\<close> and of \<^verbatim>\<open>norm_niis\<close> after a first one that returned
  changes no files, and so does a second run of \<^verbatim>\<open>ants_apply\<close> when the
  tool deletes no file and a transform application that returns has written
  its output.
\<close>

theorem existing_outputs_not_rewritten:
  "(isfile w (series_file_of dd)
    \<longrightarrow> get_series_save dd manifest False w = w) \<and>
   get_series_save dd manifest False (get_series_save dd manifest False w) =
      get_series_save dd manifest False w \<and>
   (map_of d k = Some r \<and> dicoms r = Some dcms \<and> isfile w (outfilepath_of idn dd k)
    \<longrightarrow> convert_role t idn dd False k d w =
        (Inr (update_role k (\<lambda>r. r\<lparr>filename := Some (outfilepath_of idn dd k)\<rparr>) d),
         log_info (''- '' @ idn @ ''_'' @ k @
                   '' already exists and will not be overwritten'') w)) \<and>
   (info_id d = Inr idn \<and> all_converted w idn dd d
    \<longrightarrow> same_files w (snd (dcm_list_2_niis t d dd False w))) \<and>
   (isfile w (transform_of wd mv tm)
    \<longrightarrow> registration routine t mv tm wd opt False w =
        (Inr (transform_of wd mv tm),
         log_info (''- Warp file already exists at '' @ transform_of wd mv tm) w)) \<and>
   (isfile w (warped_of wd mv)
    \<longrightarrow> ants_apply_pass t mv ref ip trs wd ib False w =
        (Inr (warped_of wd mv),
         log_info (''- Transformed image already exists at '' @ warped_of wd mv) w)) \<and>
   ((\<forall>mv\<in>set mvs. isfile w (warped_of wd mv))
    \<longrightarrow> fst (ants_apply t mvs ref ip trs wd ib False w) = Inr (map (warped_of wd) mvs) \<and>
      same_files w (snd (ants_apply t mvs ref ip trs wd ib False w))) \<and>
   (map_of d k = Some r \<and> reg r = Some (RegStr mode) \<and> resolve_template w d r = Inr tm \<and>
    filename r = Some mv \<and>
    isfile w (transform_of wd (case reg_moving r of Some m \<Rightarrow> m | None \<Rightarrow> mv) tm) \<and>
    isfile w (warped_of wd mv)
    \<longrightarrow> same_files w (snd (geom_role t mode routine guarded False wd k d w))) \<and>
   (isfile w mask_file
    \<longrightarrow> cnn_mask t mask_file dd False w =
        (Inr (), log_info (''- Breast mask already exists at '' @ mask_file) w)) \<and>
   (map_of d k = Some r \<and> filename_reg r = Some fr \<and> isfile w (ser_masked_of fr)
    \<longrightarrow> mask_role t mask_file False k d w =
        (Inr (update_role k (\<lambda>r. r\<lparr>filename_masked := Some (ser_masked_of fr)\<rparr>) d),
         log_info (''- Masked file already exists for '' @ k @ '' at '' @
                   ser_masked_of fr) w)) \<and>
   (info_id d = Inr idn \<and> info_dcmdir d = Inr dd \<and>
    isfile w (path_join (dirname dd) (idn @ ''_breast_mask.nii.gz'')) \<and> all_masked w d
    \<longrightarrow> same_files w (snd (breast_mask t d False w))) \<and>
   (map_of d k = Some r \<and> bias r = Some True \<and>
    isfile w (wm_of idn dd k) \<and> isfile w (brain_mask_of idn dd) \<and>
    isfile w (truncated_of (wm_of idn dd k)) \<and> isfile w (biasimg_of (wm_of idn dd k))
    \<longrightarrow> bias_role t idn dd False k d w =
        (Inr (update_role k (\<lambda>r. r\<lparr>filename_bias := Some (biasimg_of (wm_of idn dd k))\<rparr>) d),
         log_info (''- Bias corrected image already exists at '' @
                   biasimg_of (wm_of idn dd k))
           (log_info (''- Truncated image already exists at '' @
                      truncated_of (wm_of idn dd k)) w))) \<and>
   (info_id d = Inr idn \<and> info_dcmdir d = Inr dd \<and> all_bias_corrected w idn dd d
    \<longrightarrow> same_files w (snd (bias_correct t d False w))) \<and>
   (map_of d k = Some r \<and> bias r = Some True \<and> filename_bias r = Some fn \<and>
    isfile w (normname_of fn)
    \<longrightarrow> norm_role False k d w =
        (Inr (update_role k (\<lambda>r. r\<lparr>filename_norm := Some (normname_of fn)\<rparr>) d),
         log_info (''- Normalized '' @ k @ '' already exists at '' @ normname_of fn) w)) \<and>
   (all_normalized w d
    \<longrightarrow> same_files w (snd (norm_niis d False w))) \<and>
   (info_id d = Inr idn \<and> 1 < length (norm_files d) \<and> isfile w (nii4d_of idn d)
    \<longrightarrow> same_files w (snd (make_nii4d t d False w)) \<and> fst (make_nii4d t d False w) = Inr d) \<and>
   (info_dcmdir d = Inr dd \<and> info_id d = Inr idn \<and>
    isfile w (path_join (dirname dd) (idn @ ''_metadata.npy'')) \<and>
    isfile w (path_join (dirname dd) (idn @ ''_metadata_HR.txt''))
    \<longrightarrow> print_series_dict t d False w = (Inr d, w)) \<and>
   (norm_niis dn False wn = (Inr d1, w1)
    \<longrightarrow> same_files w1 (snd (norm_niis dn False w1))) \<and>
   ((\<forall>c fs p. fs p \<noteq> None \<longrightarrow> snd (ta c fs) p \<noteq> None) \<and>
    (\<forall>mv ref out ip trs invs fs.
        fst (ta (ApplyTransforms mv ref out ip trs invs) fs)
        \<longrightarrow> snd (ta (ApplyTransforms mv ref out ip trs invs) fs) out \<noteq> None) \<and>
    ants_apply ta mvs2 ref2 ip2 trs2 wd2 ib2 False wa = (Inr outs, wa1)
    \<longrightarrow> fst (ants_apply ta mvs2 ref2 ip2 trs2 wd2 ib2 False wa1) = Inr outs \<and>
      same_files wa1 (snd (ants_apply ta mvs2 ref2 ip2 trs2 wd2 ib2 False wa1)))"
proof -
  have c1: "(isfile w (series_file_of dd)
      \<longrightarrow> get_series_save dd manifest False w = w)"
    by (simp add: get_series_cached)
  have c2: "get_series_save dd manifest False (get_series_save dd manifest False w) =
        get_series_save dd manifest False w"
    by (rule get_series_twice)
  have c3: "(map_of d k = Some r \<and> dicoms r = Some dcms \<and> isfile w (outfilepath_of idn dd k)
      \<longrightarrow> convert_role t idn dd False k d w =
          (Inr (update_role k (\<lambda>r. r\<lparr>filename := Some (outfilepath_of idn dd k)\<rparr>) d),
           log_info (''- '' @ idn @ ''_'' @ k @
                     '' already exists and will not be overwritten'') w))"
    by (intro impI, (elim conjE)?, rule convert_role_cached) assumption+
  have c4: "(info_id d = Inr idn \<and> all_converted w idn dd d
      \<longrightarrow> same_files w (snd (dcm_list_2_niis t d dd False w)))"
    by (intro impI, (elim conjE)?, rule dcm_list_2_niis_cached) assumption+
  have c5: "(isfile w (transform_of wd mv tm)
      \<longrightarrow> registration routine t mv tm wd opt False w =
          (Inr (transform_of wd mv tm),
           log_info (''- Warp file already exists at '' @ transform_of wd mv tm) w))"
    by (intro impI, (elim conjE)?, rule registration_cached) assumption+
  have c6: "(isfile w (warped_of wd mv)
      \<longrightarrow> ants_apply_pass t mv ref ip trs wd ib False w =
          (Inr (warped_of wd mv),
           log_info (''- Transformed image already exists at '' @ warped_of wd mv) w))"
    by (intro impI, (elim conjE)?, rule ants_apply_pass_cached) assumption+
  have c7: "((\<forall>mv\<in>set mvs. isfile w (warped_of wd mv))
      \<longrightarrow> fst (ants_apply t mvs ref ip trs wd ib False w) = Inr (map (warped_of wd) mvs) \<and>
        same_files w (snd (ants_apply t mvs ref ip trs wd ib False w)))"
    by (intro impI, rule ants_apply_cached[OF _ same_files_refl]) assumption
  have c8: "(map_of d k = Some r \<and> reg r = Some (RegStr mode) \<and> resolve_template w d r = Inr tm \<and>
      filename r = Some mv \<and>
      isfile w (transform_of wd (case reg_moving r of Some m \<Rightarrow> m | None \<Rightarrow> mv) tm) \<and>
      isfile w (warped_of wd mv)
      \<longrightarrow> same_files w (snd (geom_role t mode routine guarded False wd k d w)))"
    by (intro impI, (elim conjE)?, rule geom_role_cached) assumption+
  have c9: "(isfile w mask_file
      \<longrightarrow> cnn_mask t mask_file dd False w =
          (Inr (), log_info (''- Breast mask already exists at '' @ mask_file) w))"
    by (intro impI, (elim conjE)?, rule cnn_mask_cached) assumption+
  have c10: "(map_of d k = Some r \<and> filename_reg r = Some fr \<and> isfile w (ser_masked_of fr)
      \<longrightarrow> mask_role t mask_file False k d w =
          (Inr (update_role k (\<lambda>r. r\<lparr>filename_masked := Some (ser_masked_of fr)\<rparr>) d),
           log_info (''- Masked file already exists for '' @ k @ '' at '' @
                     ser_masked_of fr) w))"
    by (intro impI, (elim conjE)?, rule mask_role_cached) assumption+
  have c11: "(info_id d = Inr idn \<and> info_dcmdir d = Inr dd \<and>
      isfile w (path_join (dirname dd) (idn @ ''_breast_mask.nii.gz'')) \<and> all_masked w d
      \<longrightarrow> same_files w (snd (breast_mask t d False w)))"
    by (intro impI, (elim conjE)?, rule breast_mask_cached) assumption+
  have c12: "(map_of d k = Some r \<and> bias r = Some True \<and>
      isfile w (wm_of idn dd k) \<and> isfile w (brain_mask_of idn dd) \<and>
      isfile w (truncated_of (wm_of idn dd k)) \<and> isfile w (biasimg_of (wm_of idn dd k))
      \<longrightarrow> bias_role t idn dd False k d w =
          (Inr (update_role k (\<lambda>r. r\<lparr>filename_bias := Some (biasimg_of (wm_of idn dd k))\<rparr>) d),
           log_info (''- Bias corrected image already exists at '' @
                     biasimg_of (wm_of idn dd k))
             (log_info (''- Truncated image already exists at '' @
                        truncated_of (wm_of idn dd k)) w)))"
    by (intro impI, (elim conjE)?, rule bias_role_cached) assumption+
  have c13: "(info_id d = Inr idn \<and> info_dcmdir d = Inr dd \<and> all_bias_corrected w idn dd d
      \<longrightarrow> same_files w (snd (bias_correct t d False w)))"
    by (intro impI, (elim conjE)?, rule bias_correct_cached) assumption+
  have c14: "(map_of d k = Some r \<and> bias r = Some True \<and> filename_bias r = Some fn \<and>
      isfile w (normname_of fn)
      \<longrightarrow> norm_role False k d w =
          (Inr (update_role k (\<lambda>r. r\<lparr>filename_norm := Some (normname_of fn)\<rparr>) d),
           log_info (''- Normalized '' @ k @ '' already exists at '' @ normname_of fn) w))"
    by (intro impI, (elim conjE)?, rule norm_role_cached) assumption+
  have c15: "(all_normalized w d
      \<longrightarrow> same_files w (snd (norm_niis d False w)))"
    by (intro impI, (elim conjE)?, rule norm_niis_cached) assumption+
  have c16: "(info_id d = Inr idn \<and> 1 < length (norm_files d) \<and> isfile w (nii4d_of idn d)
      \<longrightarrow> same_files w (snd (make_nii4d t d False w)) \<and> fst (make_nii4d t d False w) = Inr d)"
    by (intro impI, (elim conjE)?, rule make_nii4d_cached) assumption+
  have c17: "(info_dcmdir d = Inr dd \<and> info_id d = Inr idn \<and>
      isfile w (path_join (dirname dd) (idn @ ''_metadata.npy'')) \<and>
      isfile w (path_join (dirname dd) (idn @ ''_metadata_HR.txt''))
      \<longrightarrow> print_series_dict t d False w = (Inr d, w))"
    by (intro impI, (elim conjE)?, rule print_series_dict_cached) assumption+
  have c18: "(norm_niis dn False wn = (Inr d1, w1)
      \<longrightarrow> same_files w1 (snd (norm_niis dn False w1)))"
    by (intro impI, (elim conjE)?, rule norm_niis_twice) assumption+
  have c19: "((\<forall>c fs p. fs p \<noteq> None \<longrightarrow> snd (ta c fs) p \<noteq> None) \<and>
      (\<forall>mv ref out ip trs invs fs.
          fst (ta (ApplyTransforms mv ref out ip trs invs) fs)
          \<longrightarrow> snd (ta (ApplyTransforms mv ref out ip trs invs) fs) out \<noteq> None) \<and>
      ants_apply ta mvs2 ref2 ip2 trs2 wd2 ib2 False wa = (Inr outs, wa1)
      \<longrightarrow> fst (ants_apply ta mvs2 ref2 ip2 trs2 wd2 ib2 False wa1) = Inr outs \<and>
        same_files wa1 (snd (ants_apply ta mvs2 ref2 ip2 trs2 wd2 ib2 False wa1)))"
    by (intro impI, (elim conjE)?, rule ants_apply_twice) assumption+
  show ?thesis
    by (intro conjI) (rule c1, rule c2, rule c3, rule c4, rule c5, rule c6, rule c7, rule c8, rule c9, rule c10, rule c11, rule c12, rule c13, rule c14, rule c15, rule c16, rule c17, rule c18, rule c19)
qed

lemma norm_first_run:
  "fst (norm_niis d_done False w_corrected) =
     Inr (update_role ''T1''
            (\<lambda>r. r\<lparr>filename_norm := Some ''/data/1001/1001_T1_wmtbn.nii.gz''\<rparr>) d_done)"
  by (simp add: norm_niis_def norm_role_def getitem_def d_done_def role_done_def empty_role_def
        info_role_def w_corrected_def log_info_def isfile_def normname_of_def path_join_def
        dirname_def basename_def Let_def)

lemma apply_first_run:
  "fst (ants_apply tool_ex [''/data/1001/1001_T1sub.nii.gz''] ''/data/1001/1001_T1_w.nii.gz''
          ''Linear'' [''/data/1001/1001_T1_2_atlas_Composite.h5''] ''/data/1001'' False False
          w_borrow) = Inr [''/data/1001/1001_T1sub_w.nii.gz'']"
  by code_simp

lemma tool_ex_keeps: "\<forall>c fs p. fs p \<noteq> None \<longrightarrow> snd (tool_ex c fs) p \<noteq> None"
  by (auto simp: tool_ex_def split: call.splits if_splits)

lemma tool_ex_writes:
  "\<forall>mv ref out ip trs invs fs.
      fst (tool_ex (ApplyTransforms mv ref out ip trs invs) fs)
      \<longrightarrow> snd (tool_ex (ApplyTransforms mv ref out ip trs invs) fs) out \<noteq> None"
  by (simp add: tool_ex_def)

theorem existing_outputs_witness:
  "get_series_save ''/data/1001/dicoms'' ''list'' False w_done = w_done \<and>
   get_series_save ''/data/1001/dicoms'' ''list'' False (get_series_save ''/data/1001/dicoms'' ''list'' False w_done) =
      get_series_save ''/data/1001/dicoms'' ''list'' False w_done \<and>
   convert_role tool_ex ''1001'' ''/data/1001/dicoms'' False ''T1'' d_done w_done =
        (Inr (update_role ''T1'' (\<lambda>r. r\<lparr>filename := Some (outfilepath_of ''1001'' ''/data/1001/dicoms'' ''T1'')\<rparr>) d_done),
         log_info (''- '' @ ''1001'' @ ''_'' @ ''T1'' @
                   '' already exists and will not be overwritten'') w_done) \<and>
   same_files w_done (snd (dcm_list_2_niis tool_ex d_done ''/data/1001/dicoms'' False w_done)) \<and>
   registration ''affine_reg'' tool_ex ''/data/1001/1001_T1.nii.gz'' ''/support/atlas.nii.gz'' ''/data/1001'' None False w_done =
        (Inr (transform_of ''/data/1001'' ''/data/1001/1001_T1.nii.gz'' ''/support/atlas.nii.gz''),
         log_info (''- Warp file already exists at '' @ transform_of ''/data/1001'' ''/data/1001/1001_T1.nii.gz'' ''/support/atlas.nii.gz'') w_done) \<and>
   ants_apply_pass tool_ex ''/data/1001/1001_T1.nii.gz'' ''/support/atlas.nii.gz'' ''Linear'' [''/data/1001/1001_T1_2_atlas_Composite.h5''] ''/data/1001'' False False w_done =
        (Inr (warped_of ''/data/1001'' ''/data/1001/1001_T1.nii.gz''),
         log_info (''- Transformed image already exists at '' @ warped_of ''/data/1001'' ''/data/1001/1001_T1.nii.gz'') w_done) \<and>
   (fst (ants_apply tool_ex [''/data/1001/1001_T1.nii.gz''] ''/support/atlas.nii.gz'' ''Linear'' [''/data/1001/1001_T1_2_atlas_Composite.h5''] ''/data/1001'' False False w_done) = Inr (map (warped_of ''/data/1001'') [''/data/1001/1001_T1.nii.gz'']) \<and>
      same_files w_done (snd (ants_apply tool_ex [''/data/1001/1001_T1.nii.gz''] ''/support/atlas.nii.gz'' ''Linear'' [''/data/1001/1001_T1_2_atlas_Composite.h5''] ''/data/1001'' False False w_done))) \<and>
   same_files w_done (snd (geom_role tool_ex ''affine'' ''affine_reg'' True False ''/data/1001'' ''T1'' d_done w_done)) \<and>
   cnn_mask tool_ex ''/data/1001/1001_breast_mask.nii.gz'' ''/data/1001/dicoms'' False w_done =
        (Inr (), log_info (''- Breast mask already exists at '' @ ''/data/1001/1001_breast_mask.nii.gz'') w_done) \<and>
   mask_role tool_ex ''/data/1001/1001_breast_mask.nii.gz'' False ''T1'' d_done w_done =
        (Inr (update_role ''T1'' (\<lambda>r. r\<lparr>filename_masked := Some (ser_masked_of ''/data/1001/1001_T1_w.nii.gz'')\<rparr>) d_done),
         log_info (''- Masked file already exists for '' @ ''T1'' @ '' at '' @
                   ser_masked_of ''/data/1001/1001_T1_w.nii.gz'') w_done) \<and>
   same_files w_done (snd (breast_mask tool_ex d_done False w_done)) \<and>
   bias_role tool_ex ''1001'' ''/data/1001/dicoms'' False ''T1'' d_done w_done =
        (Inr (update_role ''T1'' (\<lambda>r. r\<lparr>filename_bias := Some (biasimg_of (wm_of ''1001'' ''/data/1001/dicoms'' ''T1''))\<rparr>) d_done),
         log_info (''- Bias corrected image already exists at '' @
                   biasimg_of (wm_of ''1001'' ''/data/1001/dicoms'' ''T1''))
           (log_info (''- Truncated image already exists at '' @
                      truncated_of (wm_of ''1001'' ''/data/1001/dicoms'' ''T1'')) w_done)) \<and>
   same_files w_done (snd (bias_correct tool_ex d_done False w_done)) \<and>
   norm_role False ''T1'' d_done w_done =
        (Inr (update_role ''T1'' (\<lambda>r. r\<lparr>filename_norm := Some (normname_of ''/data/1001/1001_T1_wmtb.nii.gz'')\<rparr>) d_done),
         log_info (''- Normalized '' @ ''T1'' @ '' already exists at '' @ normname_of ''/data/1001/1001_T1_wmtb.nii.gz'') w_done) \<and>
   same_files w_done (snd (norm_niis d_done False w_done)) \<and>
   (same_files w_done (snd (make_nii4d tool_ex d_done False w_done)) \<and> fst (make_nii4d tool_ex d_done False w_done) = Inr d_done) \<and>
   print_series_dict tool_ex d_done False w_done = (Inr d_done, w_done) \<and>
   same_files (snd (norm_niis d_done False w_corrected)) (snd (norm_niis d_done False (snd (norm_niis d_done False w_corrected)))) \<and>
   (fst (ants_apply tool_ex [''/data/1001/1001_T1sub.nii.gz''] ''/data/1001/1001_T1_w.nii.gz'' ''Linear'' [''/data/1001/1001_T1_2_atlas_Composite.h5''] ''/data/1001'' False False (snd (ants_apply tool_ex [''/data/1001/1001_T1sub.nii.gz''] ''/data/1001/1001_T1_w.nii.gz'' ''Linear'' [''/data/1001/1001_T1_2_atlas_Composite.h5''] ''/data/1001'' False False w_borrow))) = Inr [''/data/1001/1001_T1sub_w.nii.gz''] \<and>
      same_files (snd (ants_apply tool_ex [''/data/1001/1001_T1sub.nii.gz''] ''/data/1001/1001_T1_w.nii.gz'' ''Linear'' [''/data/1001/1001_T1_2_atlas_Composite.h5''] ''/data/1001'' False False w_borrow)) (snd (ants_apply tool_ex [''/data/1001/1001_T1sub.nii.gz''] ''/data/1001/1001_T1_w.nii.gz'' ''Linear'' [''/data/1001/1001_T1_2_atlas_Composite.h5''] ''/data/1001'' False False (snd (ants_apply tool_ex [''/data/1001/1001_T1sub.nii.gz''] ''/data/1001/1001_T1_w.nii.gz'' ''Linear'' [''/data/1001/1001_T1_2_atlas_Composite.h5''] ''/data/1001'' False False w_borrow)))))"
proof -
  note T = existing_outputs_not_rewritten[where w = "w_done" and dd = "''/data/1001/dicoms''" and manifest = "''list''" and d = "d_done" and k = "''T1''" and idn = "''1001''" and t = "tool_ex" and wd = "''/data/1001''" and mv = "''/data/1001/1001_T1.nii.gz''" and tm = "''/support/atlas.nii.gz''" and routine = "''affine_reg''" and opt = "None" and ref = "''/support/atlas.nii.gz''" and ip = "''Linear''" and trs = "[''/data/1001/1001_T1_2_atlas_Composite.h5'']" and ib = "False" and mvs = "[''/data/1001/1001_T1.nii.gz'']" and mode = "''affine''" and guarded = "True" and mask_file = "''/data/1001/1001_breast_mask.nii.gz''" and fr = "''/data/1001/1001_T1_w.nii.gz''" and fn = "''/data/1001/1001_T1_wmtb.nii.gz''" and dn = "d_done" and wn = "w_corrected" and ?d1.0 = "(update_role ''T1'' (\<lambda>r. r\<lparr>filename_norm := Some ''/data/1001/1001_T1_wmtbn.nii.gz''\<rparr>) d_done)" and ?w1.0 = "(snd (norm_niis d_done False w_corrected))" and ta = "tool_ex" and wa = "w_borrow" and ?mvs2.0 = "[''/data/1001/1001_T1sub.nii.gz'']" and ?ref2.0 = "''/data/1001/1001_T1_w.nii.gz''" and ?ip2.0 = "''Linear''" and ?trs2.0 = "[''/data/1001/1001_T1_2_atlas_Composite.h5'']" and ?wd2.0 = "''/data/1001''" and ?ib2.0 = "False" and outs = "[''/data/1001/1001_T1sub_w.nii.gz'']" and ?wa1.0 = "(snd (ants_apply tool_ex [''/data/1001/1001_T1sub.nii.gz''] ''/data/1001/1001_T1_w.nii.gz'' ''Linear'' [''/data/1001/1001_T1_2_atlas_Composite.h5''] ''/data/1001'' False False w_borrow))" and dcms = "[''/data/1001/dicoms/T1/0001.dcm'']" and r = role_done]
  have h1: "isfile w_done (series_file_of ''/data/1001/dicoms'')"
    by code_simp
  have c1: "get_series_save ''/data/1001/dicoms'' ''list'' False w_done = w_done"
    by (rule T[THEN conjunct1, THEN mp, OF h1])
  have c2: "get_series_save ''/data/1001/dicoms'' ''list'' False (get_series_save ''/data/1001/dicoms'' ''list'' False w_done) =
        get_series_save ''/data/1001/dicoms'' ''list'' False w_done"
    by (rule T[THEN conjunct2, THEN conjunct1])
  have h3: "map_of d_done ''T1'' = Some role_done \<and> dicoms role_done = Some [''/data/1001/dicoms/T1/0001.dcm''] \<and> isfile w_done (outfilepath_of ''1001'' ''/data/1001/dicoms'' ''T1'')"
    by code_simp
  have c3: "convert_role tool_ex ''1001'' ''/data/1001/dicoms'' False ''T1'' d_done w_done =
          (Inr (update_role ''T1'' (\<lambda>r. r\<lparr>filename := Some (outfilepath_of ''1001'' ''/data/1001/dicoms'' ''T1'')\<rparr>) d_done),
           log_info (''- '' @ ''1001'' @ ''_'' @ ''T1'' @
                     '' already exists and will not be overwritten'') w_done)"
    by (rule T[THEN conjunct2, THEN conjunct2, THEN conjunct1, THEN mp, OF h3])
  have h4: "info_id d_done = Inr ''1001'' \<and> all_converted w_done ''1001'' ''/data/1001/dicoms'' d_done"
    by code_simp
  have c4: "same_files w_done (snd (dcm_list_2_niis tool_ex d_done ''/data/1001/dicoms'' False w_done))"
    by (rule T[THEN conjunct2, THEN conjunct2, THEN conjunct2, THEN conjunct1, THEN mp, OF h4])
  have h5: "isfile w_done (transform_of ''/data/1001'' ''/data/1001/1001_T1.nii.gz'' ''/support/atlas.nii.gz'')"
    by code_simp
  have c5: "registration ''affine_reg'' tool_ex ''/data/1001/1001_T1.nii.gz'' ''/support/atlas.nii.gz'' ''/data/1001'' None False w_done =
          (Inr (transform_of ''/data/1001'' ''/data/1001/1001_T1.nii.gz'' ''/support/atlas.nii.gz''),
           log_info (''- Warp file already exists at '' @ transform_of ''/data/1001'' ''/data/1001/1001_T1.nii.gz'' ''/support/atlas.nii.gz'') w_done)"
    by (rule T[THEN conjunct2, THEN conjunct2, THEN conjunct2, THEN conjunct2, THEN conjunct1, THEN mp, OF h5])
  have h6: "isfile w_done (warped_of ''/data/1001'' ''/data/1001/1001_T1.nii.gz'')"
    by code_simp
  have c6: "ants_apply_pass tool_ex ''/data/1001/1001_T1.nii.gz'' ''/support/atlas.nii.gz'' ''Linear'' [''/data/1001/1001_T1_2_atlas_Composite.h5''] ''/data/1001'' False False w_done =
          (Inr (warped_of ''/data/1001'' ''/data/1001/1001_T1.nii.gz''),
           log_info (''- Transformed image already exists at '' @ warped_of ''/data/1001'' ''/data/1001/1001_T1.nii.gz'') w_done)"
    by (rule T[THEN conjunct2, THEN conjunct2, THEN conjunct2, THEN conjunct2, THEN conjunct2, THEN conjunct1, THEN mp, OF h6])
  have h7: "\<forall>mv\<in>set [''/data/1001/1001_T1.nii.gz'']. isfile w_done (warped_of ''/data/1001'' mv)"
    by code_simp
  have c7: "fst (ants_apply tool_ex [''/data/1001/1001_T1.nii.gz''] ''/support/atlas.nii.gz'' ''Linear'' [''/data/1001/1001_T1_2_atlas_Composite.h5''] ''/data/1001'' False False w_done) = Inr (map (warped_of ''/data/1001'') [''/data/1001/1001_T1.nii.gz'']) \<and>
        same_files w_done (snd (ants_apply tool_ex [''/data/1001/1001_T1.nii.gz''] ''/support/atlas.nii.gz'' ''Linear'' [''/data/1001/1001_T1_2_atlas_Composite.h5''] ''/data/1001'' False False w_done))"
    by (rule T[THEN conjunct2, THEN conjunct2, THEN conjunct2, THEN conjunct2, THEN conjunct2, THEN conjunct2, THEN conjunct1, THEN mp, OF h7])
  have h8: "map_of d_done ''T1'' = Some role_done \<and> reg role_done = Some (RegStr ''affine'') \<and> resolve_template w_done d_done role_done = Inr ''/support/atlas.nii.gz'' \<and>
      filename role_done = Some ''/data/1001/1001_T1.nii.gz'' \<and>
      isfile w_done (transform_of ''/data/1001'' (case reg_moving role_done of Some m \<Rightarrow> m | None \<Rightarrow> ''/data/1001/1001_T1.nii.gz'') ''/support/atlas.nii.gz'') \<and>
      isfile w_done (warped_of ''/data/1001'' ''/data/1001/1001_T1.nii.gz'')"
    by code_simp
  have c8: "same_files w_done (snd (geom_role tool_ex ''affine'' ''affine_reg'' True False ''/data/1001'' ''T1'' d_done w_done))"
    by (rule T[THEN conjunct2, THEN conjunct2, THEN conjunct2, THEN conjunct2, THEN conjunct2, THEN conjunct2, THEN conjunct2, THEN conjunct1, THEN mp, OF h8])
  have h9: "isfile w_done ''/data/1001/1001_breast_mask.nii.gz''"
    by code_simp
  have c9: "cnn_mask tool_ex ''/data/1001/1001_breast_mask.nii.gz'' ''/data/1001/dicoms'' False w_done =
          (Inr (), log_info (''- Breast mask already exists at '' @ ''/data/1001/1001_breast_mask.nii.gz'') w_done)"
    by (rule T[THEN conjunct2, THEN conjunct2, THEN conjunct2, THEN conjunct2, THEN conjunct2, THEN conjunct2, THEN conjunct2, THEN conjunct2, THEN conjunct1, THEN mp, OF h9])
  have h10: "map_of d_done ''T1'' = Some role_done \<and> filename_reg role_done = Some ''/data/1001/1001_T1_w.nii.gz'' \<and> isfile w_done (ser_masked_of ''/data/1001/1001_T1_w.nii.gz'')"
    by code_simp
  have c10: "mask_role tool_ex ''/data/1001/1001_breast_mask.nii.gz'' False ''T1'' d_done w_done =
          (Inr (update_role ''T1'' (\<lambda>r. r\<lparr>filename_masked := Some (ser_masked_of ''/data/1001/1001_T1_w.nii.gz'')\<rparr>) d_done),
           log_info (''- Masked file already exists for '' @ ''T1'' @ '' at '' @
                     ser_masked_of ''/data/1001/1001_T1_w.nii.gz'') w_done)"
    by (rule T[THEN conjunct2, THEN conjunct2, THEN conjunct2, THEN conjunct2, THEN conjunct2, THEN conjunct2, THEN conjunct2, THEN conjunct2, THEN conjunct2, THEN conjunct1, THEN mp, OF h10])
  have h11: "info_id d_done = Inr ''1001'' \<and> info_dcmdir d_done = Inr ''/data/1001/dicoms'' \<and>
      isfile w_done (path_join (dirname ''/data/1001/dicoms'') (''1001'' @ ''_breast_mask.nii.gz'')) \<and> all_masked w_done d_done"
    by code_simp
  have c11: "same_files w_done (snd (breast_mask tool_ex d_done False w_done))"
    by (rule T[THEN conjunct2, THEN conjunct2, THEN conjunct2, THEN conjunct2, THEN conjunct2, THEN conjunct2, THEN conjunct2, THEN conjunct2, THEN conjunct2, THEN conjunct2, THEN conjunct1, THEN mp, OF h11])
  have h12: "map_of d_done ''T1'' = Some role_done \<and> bias role_done = Some True \<and>
      isfile w_done (wm_of ''1001'' ''/data/1001/dicoms'' ''T1'') \<and> isfile w_done (brain_mask_of ''1001'' ''/data/1001/dicoms'') \<and>
      isfile w_done (truncated_of (wm_of ''1001'' ''/data/1001/dicoms'' ''T1'')) \<and> isfile w_done (biasimg_of (wm_of ''1001'' ''/data/1001/dicoms'' ''T1''))"
    by code_simp
  have c12: "bias_role tool_ex ''1001'' ''/data/1001/dicoms'' False ''T1'' d_done w_done =
          (Inr (update_role ''T1'' (\<lambda>r. r\<lparr>filename_bias := Some (biasimg_of (wm_of ''1001'' ''/data/1001/dicoms'' ''T1''))\<rparr>) d_done),
           log_info (''- Bias corrected image already exists at '' @
                     biasimg_of (wm_of ''1001'' ''/data/1001/dicoms'' ''T1''))
             (log_info (''- Truncated image already exists at '' @
                        truncated_of (wm_of ''1001'' ''/data/1001/dicoms'' ''T1'')) w_done))"
    by (rule T[THEN conjunct2, THEN conjunct2, THEN conjunct2, THEN conjunct2, THEN conjunct2, THEN conjunct2, THEN conjunct2, THEN conjunct2, THEN conjunct2, THEN conjunct2, THEN conjunct2, THEN conjunct1, THEN mp, OF h12])
  have h13: "info_id d_done = Inr ''1001'' \<and> info_dcmdir d_done = Inr ''/data/1001/dicoms'' \<and> all_bias_corrected w_done ''1001'' ''/data/1001/dicoms'' d_done"
    by code_simp
  have c13: "same_files w_done (snd (bias_correct tool_ex d_done False w_done))"
    by (rule T[THEN conjunct2, THEN conjunct2, THEN conjunct2, THEN conjunct2, THEN conjunct2, THEN conjunct2, THEN conjunct2, THEN conjunct2, THEN conjunct2, THEN conjunct2, THEN conjunct2, THEN conjunct2, THEN conjunct1, THEN mp, OF h13])
  have h14: "map_of d_done ''T1'' = Some role_done \<and> bias role_done = Some True \<and> filename_bias role_done = Some ''/data/1001/1001_T1_wmtb.nii.gz'' \<and>
      isfile w_done (normname_of ''/data/1001/1001_T1_wmtb.nii.gz'')"
    by code_simp
  have c14: "norm_role False ''T1'' d_done w_done =
          (Inr (update_role ''T1'' (\<lambda>r. r\<lparr>filename_norm := Some (normname_of ''/data/1001/1001_T1_wmtb.nii.gz'')\<rparr>) d_done),
           log_info (''- Normalized '' @ ''T1'' @ '' already exists at '' @ normname_of ''/data/1001/1001_T1_wmtb.nii.gz'') w_done)"
    by (rule T[THEN conjunct2, THEN conjunct2, THEN conjunct2, THEN conjunct2, THEN conjunct2, THEN conjunct2, THEN conjunct2, THEN conjunct2, THEN conjunct2, THEN conjunct2, THEN conjunct2, THEN conjunct2, THEN conjunct2, THEN conjunct1, THEN mp, OF h14])
  have h15: "all_normalized w_done d_done"
    by code_simp
  have c15: "same_files w_done (snd (norm_niis d_done False w_done))"
    by (rule T[THEN conjunct2, THEN conjunct2, THEN conjunct2, THEN conjunct2, THEN conjunct2, THEN conjunct2, THEN conjunct2, THEN conjunct2, THEN conjunct2, THEN conjunct2, THEN conjunct2, THEN conjunct2, THEN conjunct2, THEN conjunct2, THEN conjunct1, THEN mp, OF h15])
  have h16: "info_id d_done = Inr ''1001'' \<and> 1 < length (norm_files d_done) \<and> isfile w_done (nii4d_of ''1001'' d_done)"
    by code_simp
  have c16: "same_files w_done (snd (make_nii4d tool_ex d_done False w_done)) \<and> fst (make_nii4d tool_ex d_done False w_done) = Inr d_done"
    by (rule T[THEN conjunct2, THEN conjunct2, THEN conjunct2, THEN conjunct2, THEN conjunct2, THEN conjunct2, THEN conjunct2, THEN conjunct2, THEN conjunct2, THEN conjunct2, THEN conjunct2, THEN conjunct2, THEN conjunct2, THEN conjunct2, THEN conjunct2, THEN conjunct1, THEN mp, OF h16])
  have h17: "info_dcmdir d_done = Inr ''/data/1001/dicoms'' \<and> info_id d_done = Inr ''1001'' \<and>
      isfile w_done (path_join (dirname ''/data/1001/dicoms'') (''1001'' @ ''_metadata.npy'')) \<and>
      isfile w_done (path_join (dirname ''/data/1001/dicoms'') (''1001'' @ ''_metadata_HR.txt''))"
    by code_simp
  have c17: "print_series_dict tool_ex d_done False w_done = (Inr d_done, w_done)"
    by (rule T[THEN conjunct2, THEN conjunct2, THEN conjunct2, THEN conjunct2, THEN conjunct2, THEN conjunct2, THEN conjunct2, THEN conjunct2, THEN conjunct2, THEN conjunct2, THEN conjunct2, THEN conjunct2, THEN conjunct2, THEN conjunct2, THEN conjunct2, THEN conjunct2, THEN conjunct1, THEN mp, OF h17])
  have h18: "norm_niis d_done False w_corrected = (Inr (update_role ''T1'' (\<lambda>r. r\<lparr>filename_norm := Some ''/data/1001/1001_T1_wmtbn.nii.gz''\<rparr>) d_done), (snd (norm_niis d_done False w_corrected)))"
    using norm_first_run by (simp add: prod_eq_iff)
  have c18: "same_files (snd (norm_niis d_done False w_corrected)) (snd (norm_niis d_done False (snd (norm_niis d_done False w_corrected))))"
    by (rule T[THEN conjunct2, THEN conjunct2, THEN conjunct2, THEN conjunct2, THEN conjunct2, THEN conjunct2, THEN conjunct2, THEN conjunct2, THEN conjunct2, THEN conjunct2, THEN conjunct2, THEN conjunct2, THEN conjunct2, THEN conjunct2, THEN conjunct2, THEN conjunct2, THEN conjunct2, THEN conjunct1, THEN mp, OF h18])
  have h19: "(\<forall>c fs p. fs p \<noteq> None \<longrightarrow> snd (tool_ex c fs) p \<noteq> None) \<and>
      (\<forall>mv ref out ip trs invs fs.
          fst (tool_ex (ApplyTransforms mv ref out ip trs invs) fs)
          \<longrightarrow> snd (tool_ex (ApplyTransforms mv ref out ip trs invs) fs) out \<noteq> None) \<and>
      ants_apply tool_ex [''/data/1001/1001_T1sub.nii.gz''] ''/data/1001/1001_T1_w.nii.gz'' ''Linear'' [''/data/1001/1001_T1_2_atlas_Composite.h5''] ''/data/1001'' False False w_borrow = (Inr [''/data/1001/1001_T1sub_w.nii.gz''], snd (ants_apply tool_ex [''/data/1001/1001_T1sub.nii.gz''] ''/data/1001/1001_T1_w.nii.gz'' ''Linear'' [''/data/1001/1001_T1_2_atlas_Composite.h5''] ''/data/1001'' False False w_borrow))"
    using tool_ex_keeps tool_ex_writes apply_first_run by (simp add: prod_eq_iff)
  have c19: "fst (ants_apply tool_ex [''/data/1001/1001_T1sub.nii.gz''] ''/data/1001/1001_T1_w.nii.gz'' ''Linear'' [''/data/1001/1001_T1_2_atlas_Composite.h5''] ''/data/1001'' False False (snd (ants_apply tool_ex [''/data/1001/1001_T1sub.nii.gz''] ''/data/1001/1001_T1_w.nii.gz'' ''Linear'' [''/data/1001/1001_T1_2_atlas_Composite.h5''] ''/data/1001'' False False w_borrow))) = Inr [''/data/1001/1001_T1sub_w.nii.gz''] \<and>
        same_files (snd (ants_apply tool_ex [''/data/1001/1001_T1sub.nii.gz''] ''/data/1001/1001_T1_w.nii.gz'' ''Linear'' [''/data/1001/1001_T1_2_atlas_Composite.h5''] ''/data/1001'' False False w_borrow)) (snd (ants_apply tool_ex [''/data/1001/1001_T1sub.nii.gz''] ''/data/1001/1001_T1_w.nii.gz'' ''Linear'' [''/data/1001/1001_T1_2_atlas_Composite.h5''] ''/data/1001'' False False (snd (ants_apply tool_ex [''/data/1001/1001_T1sub.nii.gz''] ''/data/1001/1001_T1_w.nii.gz'' ''Linear'' [''/data/1001/1001_T1_2_atlas_Composite.h5''] ''/data/1001'' False False w_borrow))))"
    by (rule T[THEN conjunct2, THEN conjunct2, THEN conjunct2, THEN conjunct2, THEN conjunct2, THEN conjunct2, THEN conjunct2, THEN conjunct2, THEN conjunct2, THEN conjunct2, THEN conjunct2, THEN conjunct2, THEN conjunct2, THEN conjunct2, THEN conjunct2, THEN conjunct2, THEN conjunct2, THEN conjunct2, THEN mp, OF h19])
  show ?thesis
    by (intro conjI) (rule c1, rule c2, rule c3, rule c4, rule c5, rule c6, rule c7[THEN conjunct1], rule c7[THEN conjunct2], rule c8, rule c9, rule c10, rule c11, rule c12, rule c13, rule c14, rule c15, rule c16[THEN conjunct1], rule c16[THEN conjunct2], rule c17, rule c18, rule c19[THEN conjunct1], rule c19[THEN conjunct2])
qed

text \<open>
  The claim as stated fails in its parenthesis: with the series list on disk
  \<^verbatim>\<open>get_series\<close> writes nothing and logs nothing about it, and with both
  records on disk \<^verbatim>\<open>print_series_dict\<close> logs nothing either.
\<close>

theorem series_list_skip_not_logged:
  "isfile w_done (series_file_of ''/data/1001/dicoms'') \<and>
   trace (get_series_save ''/data/1001/dicoms'' ''list'' False w_done) = [] \<and>
   trace (snd (print_series_dict tool_ex d_done False w_done)) = []"
  by code_simp

end
